(* ===== verification/Prelude.thy ===== *)
theory Prelude
  imports Main "HOL-Library.Word" "HOL-Library.Log_Nat"
begin

text \<open>
  Shared vocabulary of the development: the 8-bit channel type, the model of an OpenCV
  \<open>cv::Mat\<close> of type \<open>CV_8UC3\<close> (rows, columns, row stride in bytes and the byte buffer),
  the pixel accessor \<open>mat_at\<close> (\<open>cv::Mat::at<cv::Vec3b>(i, j)[c]\<close>), well-formedness of a
  strided buffer, the error value of an out-of-range \<open>std::vector\<close> access, and the
  generic lemmas on lists of uniform chunks that the component proofs share.
\<close>

named_theorems mat_dims "dimension and length facts of the image operations"

type_synonym byte = "8 word"

text \<open>A \<open>cv::Mat\<close> of three interleaved 8-bit channels. \<open>step\<close> is the distance in bytes
  between the starts of two consecutive rows and may exceed \<open>3 * cols\<close>; \<open>data\<close> is the
  buffer from the first pixel to the end of the allocation.\<close>

record mat =
  rows :: nat
  cols :: nat
  step :: nat
  data :: "byte list"

definition mat_at :: "mat \<Rightarrow> nat \<Rightarrow> nat \<Rightarrow> nat \<Rightarrow> byte" where
  "mat_at m i j c = data m ! (i * step m + 3 * j + c)"

text \<open>Every pixel byte of every row lies inside the buffer.\<close>

definition wf_mat :: "mat \<Rightarrow> bool" where
  "wf_mat m \<longleftrightarrow> 3 * cols m \<le> step m \<and>
     (rows m = 0 \<or> (rows m - 1) * step m + 3 * cols m \<le> length (data m))"

text \<open>A freshly allocated \<open>cv::Mat(rows, cols, CV_8UC3)\<close> is continuous: its stride is
  exactly one row of pixels and its buffer holds exactly the pixels.\<close>

definition continuous :: "mat \<Rightarrow> bool" where
  "continuous m \<longleftrightarrow> step m = 3 * cols m \<and> length (data m) = 3 * cols m * rows m"

definition empty_mat :: mat where
  "empty_mat = \<lparr>rows = 0, cols = 0, step = 0, data = []\<rparr>"

text \<open>\<open>cv::Mat_<cv::Vec3b>(r, c) << p1, p2, ...\<close> as the tests build their images: a
  continuous matrix from its rows of pixels.\<close>

definition mat_of_pixels :: "(byte \<times> byte \<times> byte) list list \<Rightarrow> mat" where
  "mat_of_pixels pss =
     \<lparr>rows = length pss, cols = length (hd pss), step = 3 * length (hd pss),
      data = concat (map (\<lambda>ps. concat (map (\<lambda>(r, g, b). [r, g, b]) ps)) pss)\<rparr>"

text \<open>Undefined behaviour of the C++ source as explicit error values: indexing a
  \<open>std::vector\<close> out of range, and converting a non-finite \<open>double\<close> to \<open>int\<close>; and the
  \<open>cv::Exception\<close>s that OpenCV throws when an element-wise operation gets operands of
  different sizes, and when \<open>cv::resize\<close> gets an empty source or an empty target size.\<close>

datatype error = Vector_out_of_range | Float_int_cast | Cv_size_mismatch | Cv_resize_empty

text \<open>The elements of a freshly allocated continuous matrix filled element by element, in
  memory order: rows, then columns, then the three channels.\<close>

definition mat_elems :: "(nat \<Rightarrow> nat \<Rightarrow> nat \<Rightarrow> 'a) \<Rightarrow> nat \<Rightarrow> nat \<Rightarrow> 'a list" where
  "mat_elems g r c = concat (map (\<lambda>i. concat (map (\<lambda>j. map (g i j) [0..<3]) [0..<c])) [0..<r])"

subsection \<open>Lists of uniform chunks\<close>

text \<open>Pointwise order of two images of the same size, channel by channel.\<close>

definition le_mat :: "mat \<Rightarrow> mat \<Rightarrow> bool" where
  "le_mat a b \<longleftrightarrow> rows a = rows b \<and> cols a = cols b \<and>
     (\<forall>i < rows a. \<forall>j < cols a. \<forall>c < 3. mat_at a i j c \<le> mat_at b i j c)"

lemma length_concat_uniform [mat_dims]:
  assumes "\<And>k. k < n \<Longrightarrow> length (f k) = w"
  shows "length (concat (map f [0..<n])) = n * w"
  using assms by (induction n) auto

lemma nth_concat_uniform:
  assumes "\<And>k. k < n \<Longrightarrow> length (f k) = w" and "i < n" and "j < w"
  shows "concat (map f [0..<n]) ! (i * w + j) = f i ! j"
  using assms
proof (induction n)
  case 0
  then show ?case by simp
next
  case (Suc n)
  have len: "length (concat (map f [0..<n])) = n * w"
    using Suc.prems(1) by (intro length_concat_uniform) auto
  show ?case
  proof (cases "i < n")
    case True
    have "i * w + j < Suc i * w"
      using Suc.prems(3) by simp
    also have "\<dots> \<le> n * w"
      using True by (intro mult_le_mono1) simp
    finally have "i * w + j < n * w" .
    with True Suc show ?thesis by (simp add: nth_append len)
  next
    case False
    with Suc.prems(2) have "i = n" by simp
    with Suc.prems(3) len show ?thesis by (simp add: nth_append)
  qed
qed

lemma length_mat_elems [mat_dims]: "length (mat_elems g r c) = r * (c * 3)"
  unfolding mat_elems_def by (intro length_concat_uniform) (simp add: length_concat_uniform)

lemma nth_mat_elems:
  assumes "i < r" and "j < c" and "ch < 3"
  shows "mat_elems g r c ! (3 * (i * c + j) + ch) = g i j ch"
proof -
  have row: "length (concat (map (\<lambda>j. map (g i j) [0..<3]) [0..<c])) = c * 3" for i
    by (simp add: length_concat_uniform)
  have "mat_elems g r c ! (i * (c * 3) + (j * 3 + ch)) =
        concat (map (\<lambda>j. map (g i j) [0..<3]) [0..<c]) ! (j * 3 + ch)"
    unfolding mat_elems_def using assms row by (intro nth_concat_uniform) simp_all
  also have "\<dots> = g i j ch"
    using assms by (subst nth_concat_uniform) simp_all
  finally show ?thesis by (simp add: algebra_simps)
qed

lemma mat_elems_cong:
  assumes "\<And>i j ch. i < r \<Longrightarrow> j < c \<Longrightarrow> ch < 3 \<Longrightarrow> g i j ch = g' i j ch"
  shows "mat_elems g r c = mat_elems g' r c"
  unfolding mat_elems_def using assms by (intro arg_cong [where f = concat] map_cong) auto

lemma map2_concat_uniform:
  assumes "\<And>k. k < n \<Longrightarrow> length (A k) = length (B k)"
  shows "map2 f (concat (map A [0..<n])) (concat (map B [0..<n])) =
         concat (map (\<lambda>k. map2 f (A k) (B k)) [0..<n])"
  using assms
proof (induction n)
  case 0
  then show ?case by simp
next
  case (Suc n)
  have "length (concat (map A [0..<n])) = length (concat (map B [0..<n]))"
    using Suc.prems by (simp add: length_concat sum_list_map_eq_sum_count)
  then show ?case using Suc by (simp add: zip_append)
qed

lemma map2_map_same: "map2 f (map a xs) (map b xs) = map (\<lambda>x. f (a x) (b x)) xs"
  by (induction xs) auto

lemma map_mat_elems: "map f (mat_elems g r c) = mat_elems (\<lambda>i j ch. f (g i j ch)) r c"
  by (simp add: mat_elems_def map_concat comp_def)

lemma map2_mat_elems:
  "map2 f (mat_elems g r c) (mat_elems g' r c) = mat_elems (\<lambda>i j ch. f (g i j ch) (g' i j ch)) r c"
proof -
  have row: "map2 f (concat (map (\<lambda>j. map (g i j) [0..<3]) [0..<c]))
                    (concat (map (\<lambda>j. map (g' i j) [0..<3]) [0..<c])) =
             concat (map (\<lambda>j. map (\<lambda>ch. f (g i j ch) (g' i j ch)) [0..<3]) [0..<c])" for i
    by (subst map2_concat_uniform) (simp_all add: map2_map_same)
  show ?thesis
    unfolding mat_elems_def
    by (subst map2_concat_uniform) (simp_all add: length_concat_uniform row)
qed

lemma mat_at_elems:
  assumes "step m = 3 * cols m" and "data m = mat_elems g (rows m) (cols m)"
    and "i < rows m" and "j < cols m" and "ch < 3"
  shows "mat_at m i j ch = g i j ch"
proof -
  have eq: "i * step m + 3 * j + ch = 3 * (i * cols m + j) + ch"
    using assms(1) by (simp add: algebra_simps)
  show ?thesis
    by (simp only: mat_at_def eq assms(2) nth_mat_elems [OF assms(3-5)])
qed

lemma mat_elems_mat_at:
  assumes "continuous m"
  shows "mat_elems (mat_at m) (rows m) (cols m) = data m"
proof (rule nth_equalityI)
  show "length (mat_elems (mat_at m) (rows m) (cols m)) = length (data m)"
    using assms by (simp add: length_mat_elems continuous_def)
next
  fix k assume "k < length (mat_elems (mat_at m) (rows m) (cols m))"
  then have k: "k < rows m * (cols m * 3)" by (simp add: length_mat_elems)
  define i where "i = k div (cols m * 3)"
  define j where "j = k mod (cols m * 3) div 3"
  define ch where "ch = k mod 3"
  have c0: "0 < cols m" using k by (cases "cols m") simp_all
  have i: "i < rows m" using k c0 unfolding i_def by (simp add: div_less_iff_less_mult)
  have j: "j < cols m" unfolding j_def using c0 by (simp add: div_less_iff_less_mult)
  have ch: "ch < 3" unfolding ch_def by simp
  have e1: "i * (cols m * 3) + k mod (cols m * 3) = k" unfolding i_def by (rule div_mult_mod_eq)
  have "j * 3 + k mod (cols m * 3) mod 3 = k mod (cols m * 3)" unfolding j_def by (rule div_mult_mod_eq)
  moreover have "k mod (cols m * 3) mod 3 = ch" unfolding ch_def by (simp add: mod_mod_cancel)
  ultimately have e2: "j * 3 + ch = k mod (cols m * 3)" by simp
  have kk: "k = 3 * (i * cols m + j) + ch"
    using e1 e2 by (simp add: algebra_simps)
  have "mat_elems (mat_at m) (rows m) (cols m) ! k = mat_at m i j ch"
    unfolding kk by (rule nth_mat_elems [OF i j ch])
  also have "\<dots> = data m ! k"
    using assms unfolding mat_at_def continuous_def kk by (simp add: algebra_simps)
  finally show "mat_elems (mat_at m) (rows m) (cols m) ! k = data m ! k" .
qed

lemma unat_byte_le: "unat (b :: byte) \<le> 255"
proof -
  have "unat b < 2 ^ LENGTH(8)" by (rule unsigned_less)
  then show ?thesis by simp
qed

lemma half_up_cases: "Suc n div 2 = n div 2 \<or> Suc n div 2 = Suc (n div 2)"
  by presburger

lemma less_3_cases: "(c::nat) < 3 \<Longrightarrow> c = 0 \<or> c = 1 \<or> c = 2"
  by arith

lemma le_mat_refl: "le_mat m m"
  by (simp add: le_mat_def)

end
