(* ===== verification/Downsample.thy ===== *)
theory Downsample
  imports Prelude
begin

text \<open>
  The 2x2 block reduction of src/src/min_max_pyramid.cc, \<open>Downsample\<close> (lines 11--67),
  modelled at the level of the byte buffer the C++ walks with row pointers, and its two
  instances \<open>DownsampleMax\<close> and \<open>DownsampleMin\<close> (lines 69--75). Row pointers are
  offsets into \<open>data\<close>; each \<open>*p++\<close> of the source reads the byte at the current offset
  and advances it by one. The output matrix is freshly allocated and continuous, and
  the C++ writes it strictly in order through \<open>outrow\<close>, so the model produces the
  written bytes as a list in that order; lemma \<open>downsample_continuous\<close> shows that each
  output row starts exactly at \<open>output.ptr(row)\<close> and that every byte is written.
  The theorems show the buffer walk equal to the block formula of the specification
  (\<open>block_ref\<close>) for every associative operator, the max/min characterisation of each
  output channel, the treatment of odd edges and constant preservation; it also holds
  the inputs of the tests of src/src/min_max_pyramid_test.cc (theory \<open>Tests\<close>).
\<close>

type_synonym combine = "byte \<Rightarrow> byte \<Rightarrow> byte"

subsection \<open>The buffer walk\<close>

text \<open>The inner loop over pairs of columns (lines 24--38): \<open>row1\<close> and \<open>row2\<close> are at
  offsets \<open>p1\<close> and \<open>p2\<close>; one iteration reads six bytes of each row and writes three.\<close>

fun ds_pair_cols :: "combine \<Rightarrow> byte list \<Rightarrow> nat \<Rightarrow> nat \<Rightarrow> nat \<Rightarrow> byte list" where
  "ds_pair_cols fn d 0 p1 p2 = []"
| "ds_pair_cols fn d (Suc n) p1 p2 =
     (let r = fn (d ! p1) (d ! p2);
          g = fn (d ! (p1 + 1)) (d ! (p2 + 1));
          b = fn (d ! (p1 + 2)) (d ! (p2 + 2));
          r' = fn (fn r (d ! (p1 + 3))) (d ! (p2 + 3));
          g' = fn (fn g (d ! (p1 + 4))) (d ! (p2 + 4));
          b' = fn (fn b (d ! (p1 + 5))) (d ! (p2 + 5))
      in r' # g' # b' # ds_pair_cols fn d n (p1 + 6) (p2 + 6))"

text \<open>One iteration of the row loop (lines 20--45): the pairs of columns, then, for an
  odd column count, the last column combined vertically only (lines 39--44).\<close>

definition ds_row :: "combine \<Rightarrow> mat \<Rightarrow> nat \<Rightarrow> byte list" where
  "ds_row fn input row =
     (let d = data input;
          p1 = row * 2 * step input;
          p2 = (row * 2 + 1) * step input;
          h = cols input div 2;
          q1 = p1 + 6 * h;
          q2 = p2 + 6 * h
      in ds_pair_cols fn d h p1 p2 @
         (if (cols input + 1) div 2 \<noteq> h
          then [fn (d ! q1) (d ! q2), fn (d ! (q1 + 1)) (d ! (q2 + 1)),
                fn (d ! (q1 + 2)) (d ! (q2 + 2))]
          else []))"

text \<open>The loop over the last input row for an odd row count (lines 50--57): each
  output pixel combines two horizontally adjacent pixels.\<close>

fun ds_last_cols :: "combine \<Rightarrow> byte list \<Rightarrow> nat \<Rightarrow> nat \<Rightarrow> byte list" where
  "ds_last_cols fn d 0 p = []"
| "ds_last_cols fn d (Suc n) p =
     (let r = d ! p; g = d ! (p + 1); b = d ! (p + 2)
      in fn r (d ! (p + 3)) # fn g (d ! (p + 4)) # fn b (d ! (p + 5)) #
         ds_last_cols fn d n (p + 6))"

text \<open>The odd-row block (lines 46--65), with the single corner pixel copied unchanged
  when both dimensions are odd (lines 58--64).\<close>

definition ds_last_row :: "combine \<Rightarrow> mat \<Rightarrow> byte list" where
  "ds_last_row fn input =
     (let d = data input;
          p = (rows input - 1) * step input;
          h = cols input div 2;
          q = p + 6 * h
      in ds_last_cols fn d h p @
         (if (cols input + 1) div 2 \<noteq> h then [d ! q, d ! (q + 1), d ! (q + 2)] else []))"

text \<open>\<open>Downsample(input, fn)\<close> (lines 11--67).\<close>

definition downsample :: "combine \<Rightarrow> mat \<Rightarrow> mat" where
  "downsample fn input =
     (let nRows = (rows input + 1) div 2;
          nCols = (cols input + 1) div 2;
          body = concat (map (ds_row fn input) [0..<rows input div 2]);
          last_row = (if nRows \<noteq> rows input div 2 then ds_last_row fn input else [])
      in \<lparr>rows = nRows, cols = nCols, step = 3 * nCols, data = body @ last_row\<rparr>)"

text \<open>The two lambdas of lines 70 and 74.\<close>

definition max_op :: combine where
  "max_op a b = (if a > b then a else b)"

definition min_op :: combine where
  "min_op a b = (if a < b then a else b)"

definition downsample_max :: "mat \<Rightarrow> mat" where
  "downsample_max input = downsample max_op input"

definition downsample_min :: "mat \<Rightarrow> mat" where
  "downsample_min input = downsample min_op input"

subsection \<open>The reference: the block formula of the specification\<close>

text \<open>Output channel \<open>c\<close> of pixel \<open>(i, j)\<close> combines channel \<open>c\<close> of the available pixels
  of the input block with top-left corner \<open>(2i, 2j)\<close>, as
  \<open>combine(combine(topLeft, bottomLeft), combine(topRight, bottomRight))\<close>, a
  missing partner row or column being left out and a lone pixel copied.\<close>

definition block_ref :: "combine \<Rightarrow> mat \<Rightarrow> nat \<Rightarrow> nat \<Rightarrow> nat \<Rightarrow> byte" where
  "block_ref fn m i j c =
     (let tl = mat_at m (2 * i) (2 * j) c;
          bl = mat_at m (2 * i + 1) (2 * j) c;
          tr = mat_at m (2 * i) (2 * j + 1) c;
          br = mat_at m (2 * i + 1) (2 * j + 1) c;
          down = 2 * i + 1 < rows m;
          right = 2 * j + 1 < cols m
      in if down \<and> right then fn (fn tl bl) (fn tr br)
         else if down then fn tl bl
         else if right then fn tl tr
         else tl)"

definition is_assoc :: "combine \<Rightarrow> bool" where
  "is_assoc fn \<longleftrightarrow> (\<forall>a b c. fn (fn a b) c = fn a (fn b c))"

text \<open>The set of channel-\<open>c\<close> values of the input pixels that exist in the block of output
  pixel \<open>(i, j)\<close>.\<close>

definition block_vals :: "mat \<Rightarrow> nat \<Rightarrow> nat \<Rightarrow> nat \<Rightarrow> byte set" where
  "block_vals m i j c =
     (\<lambda>(r, q). mat_at m r q c) `
       ({2 * i..<min (rows m) (2 * i + 2)} \<times> {2 * j..<min (cols m) (2 * j + 2)})"

subsection \<open>The inputs of src/src/min_max_pyramid_test.cc\<close>

definition test_in_2x2 :: mat where
  "test_in_2x2 = mat_of_pixels [[(1, 2, 3), (4, 5, 6)], [(7, 8, 9), (10, 11, 12)]]"

definition test_const_2x2 :: mat where
  "test_const_2x2 = mat_of_pixels [[(1, 2, 3), (1, 2, 3)], [(1, 2, 3), (1, 2, 3)]]"

definition test_in_3x3 :: mat where
  "test_in_3x3 = mat_of_pixels
     [[(1, 2, 3), (4, 5, 6), (40, 50, 60)],
      [(7, 8, 9), (10, 11, 12), (100, 110, 120)],
      [(70, 80, 90), (71, 81, 91), (101, 111, 121)]]"

subsection \<open>Sizes: every output byte is written\<close>

lemma length_ds_pair_cols [mat_dims]: "length (ds_pair_cols fn d n p1 p2) = 3 * n"
  by (induction n arbitrary: p1 p2) (simp_all add: Let_def)

lemma length_ds_last_cols [mat_dims]: "length (ds_last_cols fn d n p) = 3 * n"
  by (induction n arbitrary: p) (simp_all add: Let_def)

lemma length_ds_row [mat_dims]: "length (ds_row fn m row) = 3 * ((cols m + 1) div 2)"
  by (simp add: ds_row_def Let_def mat_dims) arith

lemma length_ds_last_row [mat_dims]: "length (ds_last_row fn m) = 3 * ((cols m + 1) div 2)"
  by (simp add: ds_last_row_def Let_def mat_dims) arith

lemma downsample_dims [mat_dims]:
  "rows (downsample fn m) = (rows m + 1) div 2"
  "cols (downsample fn m) = (cols m + 1) div 2"
  "step (downsample fn m) = 3 * ((cols m + 1) div 2)"
  by (simp_all add: downsample_def Let_def)

lemma downsample_continuous: "continuous (downsample fn m)"
proof -
  let ?w = "3 * (Suc (cols m) div 2)"
  have "length (concat (map (ds_row fn m) [0..<rows m div 2])) = rows m div 2 * ?w"
    by (intro length_concat_uniform) (simp add: mat_dims)
  moreover have "Suc (rows m) div 2 = rows m div 2 \<or> Suc (rows m) div 2 = Suc (rows m div 2)"
    by (rule half_up_cases)
  ultimately show ?thesis
    by (auto simp: continuous_def downsample_def Let_def mat_dims algebra_simps)
qed

lemma ds_pair_cols_nth:
  assumes "j < n" and "c < 3"
  shows "ds_pair_cols fn d n p1 p2 ! (3 * j + c) =
         fn (fn (fn (d ! (p1 + 6 * j + c)) (d ! (p2 + 6 * j + c)))
                (d ! (p1 + 6 * j + 3 + c))) (d ! (p2 + 6 * j + 3 + c))"
  using assms
proof (induction n arbitrary: j p1 p2)
  case 0
  then show ?case by simp
next
  case (Suc n)
  show ?case
  proof (cases j)
    case 0
    with Suc.prems(2) show ?thesis
      by (auto simp: Let_def add.assoc dest!: less_3_cases)
  next
    case (Suc j')
    with Suc.prems have "j' < n" by simp
    from Suc.IH [OF this Suc.prems(2), of "p1 + 6" "p2 + 6"] Suc show ?thesis
      by (simp add: Let_def algebra_simps)
  qed
qed

lemma ds_last_cols_nth:
  assumes "j < n" and "c < 3"
  shows "ds_last_cols fn d n p ! (3 * j + c) = fn (d ! (p + 6 * j + c)) (d ! (p + 6 * j + 3 + c))"
  using assms
proof (induction n arbitrary: j p)
  case 0
  then show ?case by simp
next
  case (Suc n)
  show ?case
  proof (cases j)
    case 0
    with Suc.prems(2) show ?thesis
      by (auto simp: Let_def add.assoc dest!: less_3_cases)
  next
    case (Suc j')
    with Suc.prems have "j' < n" by simp
    from Suc.IH [OF this Suc.prems(2), of "p + 6"] Suc show ?thesis
      by (simp add: Let_def algebra_simps)
  qed
qed

lemma ds_row_nth:
  assumes "j < (cols m + 1) div 2" and "c < 3"
  shows "ds_row fn m row ! (3 * j + c) =
    (if 2 * j + 1 < cols m
     then fn (fn (fn (mat_at m (2 * row) (2 * j) c) (mat_at m (2 * row + 1) (2 * j) c))
                 (mat_at m (2 * row) (2 * j + 1) c)) (mat_at m (2 * row + 1) (2 * j + 1) c)
     else fn (mat_at m (2 * row) (2 * j) c) (mat_at m (2 * row + 1) (2 * j) c))"
proof (cases "2 * j + 1 < cols m")
  case True
  then have j: "j < cols m div 2" by arith
  let ?p1 = "row * 2 * step m" and ?p2 = "(row * 2 + 1) * step m"
  have "ds_row fn m row ! (3 * j + c) = ds_pair_cols fn (data m) (cols m div 2) ?p1 ?p2 ! (3 * j + c)"
    using j assms(2) by (simp add: ds_row_def Let_def nth_append mat_dims)
  also have "\<dots> = fn (fn (fn (data m ! (?p1 + 6 * j + c)) (data m ! (?p2 + 6 * j + c)))
                (data m ! (?p1 + 6 * j + 3 + c))) (data m ! (?p2 + 6 * j + 3 + c))"
    using j assms(2) by (rule ds_pair_cols_nth)
  finally show ?thesis
    using True by (simp add: mat_at_def algebra_simps)
next
  case False
  with assms(1) have j: "j = cols m div 2" and odd: "Suc (cols m) div 2 = Suc (cols m div 2)"
    by arith+
  from assms(2) show ?thesis
    by (auto simp: ds_row_def Let_def nth_append mat_dims mat_at_def algebra_simps j odd False
             dest!: less_3_cases)
qed

lemma ds_last_row_nth:
  assumes "j < (cols m + 1) div 2" and "c < 3"
  shows "ds_last_row fn m ! (3 * j + c) =
    (if 2 * j + 1 < cols m
     then fn (mat_at m (rows m - 1) (2 * j) c) (mat_at m (rows m - 1) (2 * j + 1) c)
     else mat_at m (rows m - 1) (2 * j) c)"
proof (cases "2 * j + 1 < cols m")
  case True
  then have j: "j < cols m div 2" by arith
  let ?p = "(rows m - 1) * step m"
  have "ds_last_row fn m ! (3 * j + c) = ds_last_cols fn (data m) (cols m div 2) ?p ! (3 * j + c)"
    using j assms(2) by (simp add: ds_last_row_def Let_def nth_append mat_dims)
  also have "\<dots> = fn (data m ! (?p + 6 * j + c)) (data m ! (?p + 6 * j + 3 + c))"
    using j assms(2) by (rule ds_last_cols_nth)
  finally show ?thesis
    using True by (simp add: mat_at_def algebra_simps)
next
  case False
  with assms(1) have j: "j = cols m div 2" and odd: "Suc (cols m) div 2 = Suc (cols m div 2)"
    by arith+
  from assms(2) show ?thesis
    by (auto simp: ds_last_row_def Let_def nth_append mat_dims mat_at_def algebra_simps j odd False
             dest!: less_3_cases)
qed

lemma length_downsample_body [mat_dims]:
  "length (concat (map (ds_row fn m) [0..<rows m div 2])) = rows m div 2 * (3 * ((cols m + 1) div 2))"
  by (intro length_concat_uniform) (simp add: mat_dims)

subsection \<open>The buffer walk computes the block formula\<close>

lemma downsample_at:
  assumes assoc: "is_assoc fn"
    and i: "i < rows (downsample fn m)" and j: "j < cols (downsample fn m)" and c: "c < 3"
  shows "mat_at (downsample fn m) i j c = block_ref fn m i j c"
proof -
  let ?w = "3 * ((cols m + 1) div 2)"
  let ?body = "concat (map (ds_row fn m) [0..<rows m div 2])"
  let ?last = "if (rows m + 1) div 2 \<noteq> rows m div 2 then ds_last_row fn m else []"
  have jw: "3 * j + c < ?w"
    using j c by (simp add: mat_dims)
  have at: "mat_at (downsample fn m) i j c = (?body @ ?last) ! (i * ?w + (3 * j + c))"
    by (simp add: mat_at_def downsample_def Let_def add.assoc)
  have fa: "fn (fn (fn a b) x) y = fn (fn a b) (fn x y)" for a b x y
    using assoc by (simp add: is_assoc_def)
  show ?thesis
  proof (cases "i < rows m div 2")
    case True
    have "i * ?w + (3 * j + c) < rows m div 2 * ?w"
      using True jw
      by (metis add_less_cancel_left less_le_trans mult_Suc mult_le_mono1 Suc_leI add.commute)
    then have "(?body @ ?last) ! (i * ?w + (3 * j + c)) = ds_row fn m i ! (3 * j + c)"
      using True jw by (simp add: nth_append mat_dims nth_concat_uniform)
    moreover have "2 * i + 1 < rows m"
      using True by arith
    ultimately show ?thesis
      using j c by (simp add: at ds_row_nth mat_dims block_ref_def Let_def fa)
  next
    case False
    have i': "i = rows m div 2" and odd: "Suc (rows m) div 2 = Suc (rows m div 2)"
      using False i by (simp_all add: mat_dims)
    then have r: "rows m - Suc 0 = 2 * i" and nd: "\<not> 2 * i + 1 < rows m"
      by presburger+
    have "(?body @ ?last) ! (i * ?w + (3 * j + c)) = ds_last_row fn m ! (3 * j + c)"
      using i' odd by (simp add: nth_append mat_dims)
    then show ?thesis
      using j c nd by (simp add: at ds_last_row_nth mat_dims block_ref_def Let_def r)
  qed
qed


subsection \<open>Instances and helpers\<close>

lemma max_op_eq [simp]: "max_op a b = max a b"
  by (auto simp: max_op_def max_def)

lemma min_op_eq [simp]: "min_op a b = min a b"
  by (auto simp: min_op_def min_def)

lemma assoc_max_op: "is_assoc max_op"
  by (simp add: is_assoc_def max.assoc)

lemma assoc_min_op: "is_assoc min_op"
  by (simp add: is_assoc_def min.assoc)

lemma pair_interval:
  "a < R \<Longrightarrow> {a..<min R (a + 2)} = (if a + 1 < R then {a, a + 1} else {a})"
  for a R :: nat
  by auto

lemmas downsample_eval = downsample_max_def downsample_min_def downsample_def ds_row_def
  ds_last_row_def mat_of_pixels_def max_op_def min_op_def Let_def

lemma continuous_wf: "continuous m \<Longrightarrow> wf_mat m"
  by (cases "rows m") (auto simp: continuous_def wf_mat_def algebra_simps)

subsection \<open>Properties\<close>

text \<open>C1: the buffer walk of \<open>Downsample\<close> computes, for every associative operator, every output channel of every output pixel by the block formula of the specification, odd edges included.\<close>

theorem downsample_refines_block:
  assumes "is_assoc fn"
  shows "\<forall>i < rows (downsample fn m). \<forall>j < cols (downsample fn m). \<forall>c < 3.
           mat_at (downsample fn m) i j c = block_ref fn m i j c"
  using assms by (blast intro: downsample_at)

theorem downsample_refines_block_witness:
  "is_assoc max_op \<and> mat_at (downsample max_op test_in_3x3) 1 1 0 = 101"
proof -
  have "mat_at (downsample max_op test_in_3x3) 1 1 0 = block_ref max_op test_in_3x3 1 1 0"
    using downsample_refines_block [OF assoc_max_op, of test_in_3x3]
    by (simp add: downsample_dims test_in_3x3_def mat_of_pixels_def)
  then show ?thesis
    by (simp add: assoc_max_op block_ref_def test_in_3x3_def mat_of_pixels_def mat_at_def)
qed

text \<open>C2: each output channel of \<open>DownsampleMax\<close> is the maximum of that channel over the input pixels present in its 2x2 block: channels never mix, an odd last row or column contributes its own pixels only, and a lone corner pixel is copied.\<close>

theorem downsample_max_block:
  assumes "i < rows (downsample_max m)" and "j < cols (downsample_max m)" and "c < 3"
  shows "mat_at (downsample_max m) i j c = Max (block_vals m i j c)"
proof -
  have at: "mat_at (downsample_max m) i j c = block_ref max_op m i j c"
    using assms assoc_max_op unfolding downsample_max_def by (intro downsample_at)
  have "2 * i < rows m" and "2 * j < cols m"
    using assms by (simp_all add: downsample_max_def mat_dims)
  then have rs: "{2 * i..<min (rows m) (2 * i + 2)} =
      (if 2 * i + 1 < rows m then {2 * i, 2 * i + 1} else {2 * i})"
    and cs: "{2 * j..<min (cols m) (2 * j + 2)} =
      (if 2 * j + 1 < cols m then {2 * j, 2 * j + 1} else {2 * j})"
    by (simp_all only: pair_interval)
  show ?thesis
    unfolding block_vals_def rs cs at
    by (simp add: block_ref_def Let_def max.assoc max.left_commute max.commute)
qed

theorem downsample_max_block_witness:
  "1 < rows (downsample_max test_in_3x3) \<and> 0 < cols (downsample_max test_in_3x3) \<and> (1::nat) < 3 \<and>
   mat_at (downsample_max test_in_3x3) 1 0 1 = Max (block_vals test_in_3x3 1 0 1) \<and>
   Max (block_vals test_in_3x3 1 0 1) = 81"
proof -
  have r3: "rows test_in_3x3 = 3" "cols test_in_3x3 = 3"
    by (simp_all add: test_in_3x3_def mat_of_pixels_def)
  have dims: "1 < rows (downsample_max test_in_3x3)" "0 < cols (downsample_max test_in_3x3)"
    by (simp_all add: downsample_max_def mat_dims r3)
  have iv: "{2 * 1..<min 3 (2 * 1 + 2)} = {2::nat}" "{2 * 0..<min 3 (2 * 0 + 2)} = {0::nat, 1}"
    by auto
  have "block_vals test_in_3x3 1 0 1 = {80, 81}"
    unfolding block_vals_def r3 iv
    by (simp add: test_in_3x3_def mat_of_pixels_def mat_at_def)
  then show ?thesis
    using dims downsample_max_block [of 1 test_in_3x3 0 1] by simp
qed

text \<open>C3: each output channel of \<open>DownsampleMin\<close> is the minimum of that channel over the input pixels present in its 2x2 block.\<close>

theorem downsample_min_block:
  assumes "i < rows (downsample_min m)" and "j < cols (downsample_min m)" and "c < 3"
  shows "mat_at (downsample_min m) i j c = Min (block_vals m i j c)"
proof -
  have at: "mat_at (downsample_min m) i j c = block_ref min_op m i j c"
    using assms assoc_min_op unfolding downsample_min_def by (intro downsample_at)
  have "2 * i < rows m" and "2 * j < cols m"
    using assms by (simp_all add: downsample_min_def mat_dims)
  then have rs: "{2 * i..<min (rows m) (2 * i + 2)} =
      (if 2 * i + 1 < rows m then {2 * i, 2 * i + 1} else {2 * i})"
    and cs: "{2 * j..<min (cols m) (2 * j + 2)} =
      (if 2 * j + 1 < cols m then {2 * j, 2 * j + 1} else {2 * j})"
    by (simp_all only: pair_interval)
  show ?thesis
    unfolding block_vals_def rs cs at
    by (simp add: block_ref_def Let_def min.assoc min.left_commute min.commute)
qed

theorem downsample_min_block_witness:
  "0 < rows (downsample_min test_in_3x3) \<and> 1 < cols (downsample_min test_in_3x3) \<and> (2::nat) < 3 \<and>
   mat_at (downsample_min test_in_3x3) 0 1 2 = Min (block_vals test_in_3x3 0 1 2) \<and>
   Min (block_vals test_in_3x3 0 1 2) = 60"
proof -
  have r3: "rows test_in_3x3 = 3" "cols test_in_3x3 = 3"
    by (simp_all add: test_in_3x3_def mat_of_pixels_def)
  have dims: "0 < rows (downsample_min test_in_3x3)" "1 < cols (downsample_min test_in_3x3)"
    by (simp_all add: downsample_min_def mat_dims r3)
  have iv: "{2 * 0..<min 3 (2 * 0 + 2)} = {0::nat, 1}" "{2 * 1..<min 3 (2 * 1 + 2)} = {2::nat}"
    by auto
  have "block_vals test_in_3x3 0 1 2 = {60, 120}"
    unfolding block_vals_def r3 iv
    by (simp add: test_in_3x3_def mat_of_pixels_def mat_at_def)
  then show ?thesis
    using dims downsample_min_block [of 0 test_in_3x3 1 2] by simp
qed


text \<open>C10: reducing an image whose channel \<open>c\<close> is constant with \<open>DownsampleMax\<close> or \<open>DownsampleMin\<close> gives the same constant in channel \<open>c\<close> (test DownsamplePreservesConstantValue).\<close>

theorem downsample_const:
  assumes "\<forall>r < rows m. \<forall>q < cols m. mat_at m r q c = v"
    and "i < (rows m + 1) div 2" and "j < (cols m + 1) div 2" and "c < 3"
  shows "mat_at (downsample_max m) i j c = v \<and> mat_at (downsample_min m) i j c = v"
proof -
  have "mat_at (downsample fn m) i j c = block_ref fn m i j c" if "is_assoc fn" for fn
    using that assms(2-4) by (intro downsample_at) (simp_all add: mat_dims)
  moreover have "2 * i < rows m" and "2 * j < cols m"
    using assms(2,3) by arith+
  ultimately show ?thesis
    using assms(1) assoc_max_op assoc_min_op
    by (simp add: downsample_max_def downsample_min_def block_ref_def Let_def)
qed

theorem downsample_const_witness:
  "mat_at (downsample_max test_const_2x2) 0 0 1 = 2 \<and> mat_at (downsample_min test_const_2x2) 0 0 1 = 2"
proof -
  have d: "rows test_const_2x2 = 2" "cols test_const_2x2 = 2"
    by (simp_all add: test_const_2x2_def mat_of_pixels_def)
  have h: "\<forall>r < rows test_const_2x2. \<forall>q < cols test_const_2x2. mat_at test_const_2x2 r q 1 = 2"
    unfolding d by (simp add: All_less_Suc numeral_2_eq_2 test_const_2x2_def mat_of_pixels_def mat_at_def)
  show ?thesis
    using downsample_const [OF h, of 0 0] by (simp add: d)
qed

end
