(* ===== verification/Resize.thy ===== *)
theory Resize
  imports Prelude
begin

text \<open>
  The external collaborator \<open>cv::resize(src, dst, dst.size(), 0, 0, cv::INTER_LINEAR)\<close>
  that \<open>PreProcess\<close> calls (src/src/min_max_pyramid.cc, lines 111--114). It is not code of
  this repository: the pyramid is a client of any function \<open>rs r c src\<close> that meets
  the contract \<open>resize_ok\<close>: the result is a continuous \<open>r\<close> by \<open>c\<close> matrix and every
  output channel value lies between the least and the greatest value of that channel in
  the source (linear interpolation forms convex combinations). \<open>resize_linear\<close> is a
  concrete implementation, OpenCV's sampling geometry for \<open>INTER_LINEAR\<close> (pixel centres
  aligned, coordinates clamped at the borders) evaluated exactly in rationals and
  rounded to nearest; OpenCV's 11-bit fixed-point weights are not modelled bit for bit.
  Lemma \<open>resize_linear_ok\<close> shows that it meets the contract, so the contract is
  satisfiable.
\<close>

type_synonym resize_fn = "nat \<Rightarrow> nat \<Rightarrow> mat \<Rightarrow> mat"

definition chan_vals :: "mat \<Rightarrow> nat \<Rightarrow> byte set" where
  "chan_vals m ch = (\<lambda>(i, j). mat_at m i j ch) ` ({0..<rows m} \<times> {0..<cols m})"

definition resize_ok :: "resize_fn \<Rightarrow> bool" where
  "resize_ok rs \<longleftrightarrow>
     (\<forall>r c src. rows (rs r c src) = r \<and> cols (rs r c src) = c \<and> continuous (rs r c src) \<and>
        (0 < rows src \<and> 0 < cols src \<longrightarrow>
           (\<forall>i < r. \<forall>j < c. \<forall>ch < 3.
              Min (chan_vals src ch) \<le> mat_at (rs r c src) i j ch \<and>
              mat_at (rs r c src) i j ch \<le> Max (chan_vals src ch))))"

text \<open>Source coordinates and weight of destination index \<open>x\<close> along an axis of source size
  \<open>S\<close> and destination size \<open>D\<close>: \<open>fx = (x + 0.5) * S / D - 0.5\<close>, \<open>sx = floor(fx)\<close>,
  interpolating between \<open>sx\<close> and \<open>sx + 1\<close> with weight \<open>fx - sx\<close> on the second, and
  clamped at both borders with weight 0 as in OpenCV's \<open>resize\<close>.\<close>

definition lin_coord :: "nat \<Rightarrow> nat \<Rightarrow> nat \<Rightarrow> nat \<times> nat \<times> rat" where
  "lin_coord S D x =
     (let f = (of_nat x + 1 / 2) * of_nat S / of_nat D - 1 / 2; s = \<lfloor>f\<rfloor>
      in if s < 0 then (0, 0, 0)
         else if int S - 1 \<le> s then (S - 1, S - 1, 0)
         else (nat s, Suc (nat s), f - of_int s))"

definition lin_sample :: "mat \<Rightarrow> nat \<Rightarrow> nat \<Rightarrow> nat \<Rightarrow> nat \<Rightarrow> nat \<Rightarrow> byte" where
  "lin_sample src r c i j ch =
     (let (y0, y1, fy) = lin_coord (rows src) r i;
          (x0, x1, fx) = lin_coord (cols src) c j;
          a = (\<lambda>y x. of_nat (unat (mat_at src y x ch)) :: rat);
          v = (1 - fy) * ((1 - fx) * a y0 x0 + fx * a y0 x1) +
              fy * ((1 - fx) * a y1 x0 + fx * a y1 x1)
      in word_of_int \<lfloor>v + 1 / 2\<rfloor>)"

definition resize_linear :: resize_fn where
  "resize_linear r c src =
     \<lparr>rows = r, cols = c, step = 3 * c,
      data = concat (map (\<lambda>i. concat (map (\<lambda>j. map (lin_sample src r c i j) [0..<3]) [0..<c]))
                       [0..<r])\<rparr>"

subsection \<open>The concrete resize meets the contract\<close>

lemma unat_word_of_int_byte:
  assumes "0 \<le> k" and "k < 256"
  shows "unat (word_of_int k :: byte) = nat k"
  using assms by (simp add: unsigned_of_int take_bit_int_eq_self)

lemma round_between:
  fixes v :: rat and lo hi :: byte
  assumes lo: "of_nat (unat lo) \<le> v" and hi: "v \<le> of_nat (unat hi)"
  shows "lo \<le> word_of_int \<lfloor>v + 1 / 2\<rfloor> \<and> word_of_int \<lfloor>v + 1 / 2\<rfloor> \<le> hi"
proof -
  define k where "k = \<lfloor>v + 1 / 2\<rfloor>"
  have k1: "int (unat lo) \<le> k"
    unfolding k_def le_floor_iff using lo by simp
  have k2: "k \<le> int (unat hi)"
    unfolding k_def floor_le_iff using hi by simp
  have "unat hi < 256"
    using unsigned_less [of hi] by simp
  with k1 k2 have "unat (word_of_int k :: byte) = nat k"
    by (intro unat_word_of_int_byte) linarith+
  moreover have "unat lo \<le> nat k" and "nat k \<le> unat hi"
    using nat_mono [OF k1] nat_mono [OF k2] by simp_all
  ultimately show ?thesis
    unfolding k_def [symmetric] by (simp add: word_le_nat_alt)
qed

lemma convex_between:
  fixes a b lo hi t :: rat
  assumes "lo \<le> a" "a \<le> hi" "lo \<le> b" "b \<le> hi" "0 \<le> t" "t \<le> 1"
  shows "lo \<le> (1 - t) * a + t * b \<and> (1 - t) * a + t * b \<le> hi"
proof
  have "(1 - t) * a + t * b \<le> hi"
    using assms by (intro convex_bound_le) simp_all
  moreover have "- ((1 - t) * a + t * b) \<le> - lo"
    using assms convex_bound_le [of "- a" "- lo" "- b" "1 - t" t] by simp
  ultimately show "lo \<le> (1 - t) * a + t * b" "(1 - t) * a + t * b \<le> hi"
    by simp_all
qed

lemma lin_coord_bounds:
  assumes "0 < S" and "lin_coord S D x = (x0, x1, w)"
  shows "x0 < S \<and> x1 < S \<and> 0 \<le> w \<and> w \<le> 1"
proof -
  define f where "f = (of_nat x + 1 / 2) * of_nat S / of_nat D - (1 / 2 :: rat)"
  have "of_int \<lfloor>f\<rfloor> \<le> f" "f < of_int \<lfloor>f\<rfloor> + 1"
    by linarith+
  then show ?thesis
    using assms by (auto simp: lin_coord_def Let_def f_def [symmetric] split: if_splits)
qed

lemma mat_at_resize_linear:
  assumes "i < r" and "j < c" and "ch < 3"
  shows "mat_at (resize_linear r c src) i j ch = lin_sample src r c i j ch"
proof -
  let ?row = "\<lambda>i. concat (map (\<lambda>j. map (lin_sample src r c i j) [0..<3]) [0..<c])"
  have inner: "?row i ! (j * 3 + ch) = lin_sample src r c i j ch"
    using assms by (subst nth_concat_uniform [where w = 3]) simp_all
  have "concat (map ?row [0..<r]) ! (i * (c * 3) + (j * 3 + ch)) = ?row i ! (j * 3 + ch)"
  proof (rule nth_concat_uniform)
    show "length (?row k) = c * 3" for k
      by (subst length_concat_uniform [where w = 3]) simp_all
    show "j * 3 + ch < c * 3"
      using assms by linarith
  qed (use assms in simp)
  with inner show ?thesis
    by (simp add: mat_at_def resize_linear_def algebra_simps)
qed

lemma chan_vals_bounds:
  assumes "y < rows m" and "x < cols m"
  shows "Min (chan_vals m ch) \<le> mat_at m y x ch \<and> mat_at m y x ch \<le> Max (chan_vals m ch)"
proof -
  have "mat_at m y x ch \<in> chan_vals m ch"
    using assms unfolding chan_vals_def by force
  moreover have "finite (chan_vals m ch)"
    by (simp add: chan_vals_def)
  ultimately show ?thesis
    by simp
qed

lemma continuous_resize_linear: "continuous (resize_linear r c src)"
proof -
  have "length (concat (map (\<lambda>j. map (lin_sample src r c i j) [0..<3]) [0..<c])) = c * 3" for i
    by (subst length_concat_uniform [where w = 3]) simp_all
  then have "length (data (resize_linear r c src)) = r * (c * 3)"
    unfolding resize_linear_def mat.simps by (rule length_concat_uniform)
  then show ?thesis
    by (simp add: continuous_def resize_linear_def)
qed

lemma resize_linear_ok: "resize_ok resize_linear"
  unfolding resize_ok_def
proof (intro allI conjI impI)
  fix r c src
  show "rows (resize_linear r c src) = r" and "cols (resize_linear r c src) = c"
    by (simp_all add: resize_linear_def)
  show "continuous (resize_linear r c src)"
    by (rule continuous_resize_linear)
  fix i j ch :: nat
  assume nz: "0 < rows src \<and> 0 < cols src" and ij: "i < r" "j < c" "ch < 3"
  let ?lo = "Min (chan_vals src ch)" and ?hi = "Max (chan_vals src ch)"
  let ?a = "\<lambda>y x. of_nat (unat (mat_at src y x ch)) :: rat"
  obtain y0 y1 fy where cy: "lin_coord (rows src) r i = (y0, y1, fy)"
    by (metis prod_cases3)
  obtain x0 x1 fx where cx: "lin_coord (cols src) c j = (x0, x1, fx)"
    by (metis prod_cases3)
  have yb: "y0 < rows src" "y1 < rows src" "0 \<le> fy" "fy \<le> 1"
    using lin_coord_bounds [OF _ cy] nz by simp_all
  have xb: "x0 < cols src" "x1 < cols src" "0 \<le> fx" "fx \<le> 1"
    using lin_coord_bounds [OF _ cx] nz by simp_all
  have a: "of_nat (unat ?lo) \<le> ?a y x \<and> ?a y x \<le> of_nat (unat ?hi)"
    if "y < rows src" "x < cols src" for y x
  proof -
    have "unat ?lo \<le> unat (mat_at src y x ch)" "unat (mat_at src y x ch) \<le> unat ?hi"
      using chan_vals_bounds [OF that, of ch] by (simp_all add: word_le_nat_alt)
    then show ?thesis
      by (simp only: of_nat_le_iff)
  qed
  have row0: "of_nat (unat ?lo) \<le> (1 - fx) * ?a y0 x0 + fx * ?a y0 x1 \<and>
              (1 - fx) * ?a y0 x0 + fx * ?a y0 x1 \<le> of_nat (unat ?hi)"
    using a [OF yb(1) xb(1)] a [OF yb(1) xb(2)] xb(3,4) by (intro convex_between) simp_all
  have row1: "of_nat (unat ?lo) \<le> (1 - fx) * ?a y1 x0 + fx * ?a y1 x1 \<and>
              (1 - fx) * ?a y1 x0 + fx * ?a y1 x1 \<le> of_nat (unat ?hi)"
    using a [OF yb(2) xb(1)] a [OF yb(2) xb(2)] xb(3,4) by (intro convex_between) simp_all
  have "of_nat (unat ?lo) \<le> (1 - fy) * ((1 - fx) * ?a y0 x0 + fx * ?a y0 x1) +
          fy * ((1 - fx) * ?a y1 x0 + fx * ?a y1 x1) \<and>
        (1 - fy) * ((1 - fx) * ?a y0 x0 + fx * ?a y0 x1) +
          fy * ((1 - fx) * ?a y1 x0 + fx * ?a y1 x1) \<le> of_nat (unat ?hi)"
    using row0 row1 yb(3,4) by (intro convex_between) simp_all
  then have "?lo \<le> lin_sample src r c i j ch \<and> lin_sample src r c i j ch \<le> ?hi"
    unfolding lin_sample_def cy cx Let_def prod.case by (intro round_between) simp_all
  then show "?lo \<le> mat_at (resize_linear r c src) i j ch"
    and "mat_at (resize_linear r c src) i j ch \<le> ?hi"
    using mat_at_resize_linear [OF ij] by simp_all
qed

subsection \<open>The concrete resize is monotone\<close>

lemma unat_byte_rat: "0 \<le> (of_nat (unat (x :: byte)) :: rat) \<and> (of_nat (unat x) :: rat) \<le> 255"
proof
  show "0 \<le> (of_nat (unat x) :: rat)" by (rule of_nat_0_le_iff)
  have "(of_nat (unat x) :: rat) \<le> of_nat 255" using unat_byte_le [of x] by (simp only: of_nat_le_iff)
  then show "(of_nat (unat x) :: rat) \<le> 255" by (simp only: of_nat_numeral)
qed

lemma convex_mono:
  fixes a a' b b' t :: rat
  assumes "a \<le> a'" and "b \<le> b'" and "0 \<le> t" and "t \<le> 1"
  shows "(1 - t) * a + t * b \<le> (1 - t) * a' + t * b'"
  using assms by (intro add_mono mult_left_mono) simp_all

lemma round_byte_mono:
  fixes v w :: rat
  assumes "0 \<le> v" and "v \<le> w" and "w \<le> 255"
  shows "(word_of_int \<lfloor>v + 1 / 2\<rfloor> :: byte) \<le> word_of_int \<lfloor>w + 1 / 2\<rfloor>"
proof -
  define k1 where "k1 = \<lfloor>v + 1 / 2\<rfloor>"
  define k2 where "k2 = \<lfloor>w + 1 / 2\<rfloor>"
  have "0 \<le> k1" unfolding k1_def le_floor_iff using assms(1) by simp
  moreover have "k1 \<le> k2" unfolding k1_def k2_def using assms(2) by (intro floor_mono) simp
  moreover have "k2 < 256" unfolding k2_def floor_less_iff using assms(3) by simp
  ultimately have k: "0 \<le> k1" "k1 \<le> k2" "k2 < 256" by simp_all
  then have "unat (word_of_int k1 :: byte) = nat k1" "unat (word_of_int k2 :: byte) = nat k2"
    by (intro unat_word_of_int_byte; linarith)+
  then show ?thesis
    unfolding k1_def [symmetric] k2_def [symmetric] word_le_nat_alt using k by simp
qed

lemma lin_sample_mono:
  assumes le: "le_mat a b" and nz: "0 < rows a" "0 < cols a" and ch: "ch < 3"
  shows "lin_sample a r c i j ch \<le> lin_sample b r c i j ch"
proof -
  have d: "rows b = rows a" "cols b = cols a" using le by (simp_all add: le_mat_def)
  obtain y0 y1 fy where cy: "lin_coord (rows a) r i = (y0, y1, fy)" by (metis prod_cases3)
  obtain x0 x1 fx where cx: "lin_coord (cols a) c j = (x0, x1, fx)" by (metis prod_cases3)
  have yb: "y0 < rows a" "y1 < rows a" "0 \<le> fy" "fy \<le> 1" using lin_coord_bounds [OF nz(1) cy] by simp_all
  have xb: "x0 < cols a" "x1 < cols a" "0 \<le> fx" "fx \<le> 1" using lin_coord_bounds [OF nz(2) cx] by simp_all
  let ?A = "\<lambda>y x. of_nat (unat (mat_at a y x ch)) :: rat"
  let ?B = "\<lambda>y x. of_nat (unat (mat_at b y x ch)) :: rat"
  have ab: "?A y x \<le> ?B y x" if "y < rows a" "x < cols a" for y x
  proof -
    have "mat_at a y x ch \<le> mat_at b y x ch" using le that ch by (simp add: le_mat_def)
    then show ?thesis by (simp only: word_le_nat_alt of_nat_le_iff)
  qed
  have r: "0 \<le> ?B y x \<and> ?B y x \<le> 255" "0 \<le> ?A y x \<and> ?A y x \<le> 255" for y x
    by (rule unat_byte_rat)+
  define va where "va = (1 - fy) * ((1 - fx) * ?A y0 x0 + fx * ?A y0 x1) + fy * ((1 - fx) * ?A y1 x0 + fx * ?A y1 x1)"
  define vb where "vb = (1 - fy) * ((1 - fx) * ?B y0 x0 + fx * ?B y0 x1) + fy * ((1 - fx) * ?B y1 x0 + fx * ?B y1 x1)"
  have le: "va \<le> vb" unfolding va_def vb_def
    by (intro convex_mono ab yb xb)
  have ra: "0 \<le> (1 - fx) * ?A y x0 + fx * ?A y x1 \<and> (1 - fx) * ?A y x0 + fx * ?A y x1 \<le> 255"
    and rb: "0 \<le> (1 - fx) * ?B y x0 + fx * ?B y x1 \<and> (1 - fx) * ?B y x0 + fx * ?B y x1 \<le> 255" for y
    using r xb(3,4) by (intro convex_between; simp)+
  have a0: "0 \<le> va \<and> va \<le> 255" unfolding va_def
    using ra [of y0] ra [of y1] yb(3,4) by (intro convex_between) simp_all
  have b0: "0 \<le> vb \<and> vb \<le> 255" unfolding vb_def
    using rb [of y0] rb [of y1] yb(3,4) by (intro convex_between) simp_all
  have "(word_of_int \<lfloor>va + 1 / 2\<rfloor> :: byte) \<le> word_of_int \<lfloor>vb + 1 / 2\<rfloor>"
    by (rule round_byte_mono [OF conjunct1 [OF a0] le conjunct2 [OF b0]])
  then show ?thesis
    unfolding lin_sample_def d cy cx Let_def prod.case va_def vb_def .
qed

lemma resize_linear_mono:
  assumes "le_mat a b" and "0 < rows a" and "0 < cols a"
  shows "le_mat (resize_linear r c a) (resize_linear r c b)"
proof -
  have "rows (resize_linear r c x) = r" "cols (resize_linear r c x) = c" for x
    by (simp_all add: resize_linear_def)
  then show ?thesis using lin_sample_mono [OF assms] mat_at_resize_linear by (simp add: le_mat_def)
qed

lemma resize_ok_1x1:
  assumes "resize_ok rs" and "rows src = 1" and "cols src = 1"
    and "i < r" and "j < c" and "ch < 3"
  shows "mat_at (rs r c src) i j ch = mat_at src 0 0 ch"
proof -
  have "chan_vals src ch = {mat_at src 0 0 ch}"
    using assms(2,3) by (auto simp: chan_vals_def)
  moreover have "Min (chan_vals src ch) \<le> mat_at (rs r c src) i j ch \<and>
      mat_at (rs r c src) i j ch \<le> Max (chan_vals src ch)"
    using assms unfolding resize_ok_def by simp
  ultimately show ?thesis by (auto intro: order_antisym)
qed

end
