(* ===== verification/Pyramid.thy ===== *)
theory Pyramid
  imports Downsample Resize
begin

text \<open>
  The state of class \<open>MinMaxPyramid\<close> (src/src/min_max_pyramid.h, lines 24--54) and its
  operation \<open>PreProcess\<close> (src/src/min_max_pyramid.cc, lines 77--119): the reduction
  loop that builds the min and max pyramids (lines 85--97), the heuristic lowest level
  (lines 101--103) and the loop that resizes the retained levels back to the size of the
  original image (lines 107--118). The resizing is the external \<open>cv::resize\<close>, a
  parameter \<open>rs\<close> of the model; theorems that need its behaviour assume the contract
  \<open>resize_ok\<close> of theory \<open>Resize\<close>. Reading a \<open>std::vector\<close> out of range and converting
  an infinite \<open>double\<close> to \<open>int\<close> are undefined behaviour in C++ and are error values here.
\<close>

record pyramid =
  image :: mat
  max_layer :: int
  min_layer :: int
  min_images :: "mat list"
  max_images :: "mat list"

text \<open>\<open>MinMaxPyramid() = default\<close> with the member initialisers of the header.\<close>

definition pyramid_init :: pyramid where
  "pyramid_init =
     \<lparr>image = empty_mat, max_layer = 50, min_layer = 4, min_images = [], max_images = []\<rparr>"

definition min_scale :: "pyramid \<Rightarrow> int" where
  "min_scale st = min_layer st"

definition max_scale :: "pyramid \<Rightarrow> int" where
  "max_scale st = max_layer st"

text \<open>The reduction loop \<open>for (int i = 1; i < max_layer_; i++)\<close> (lines 90--97). It returns
  the new value of \<open>max_layer_\<close> and the two pyramids; the loop only reads
  \<open>max_layer_\<close> until it assigns it and breaks.\<close>

function build_levels :: "int \<Rightarrow> int \<Rightarrow> mat list \<Rightarrow> mat list \<Rightarrow> int \<times> mat list \<times> mat list" where
  "build_levels i max_l min_pyr max_pyr =
     (if i < max_l then
        (if rows (last min_pyr) < 2 \<and> cols (last min_pyr) < 2 then (i - 1, min_pyr, max_pyr)
         else build_levels (i + 1) max_l (min_pyr @ [downsample_min (last min_pyr)])
                (max_pyr @ [downsample_max (last max_pyr)]))
      else (max_l, min_pyr, max_pyr))"
  by pat_completeness auto
termination
  by (relation "measure (\<lambda>(i, max_l, _, _). nat (max_l - i))") auto

declare build_levels.simps [simp del]

text \<open>\<open>std::min(4, std::max(0, static_cast<int>(std::floor(std::log2(image_.rows)) - 4)))\<close>
  (lines 101--103). For zero rows \<open>log2\<close> is \<open>-inf\<close> and the cast to \<open>int\<close> is undefined.\<close>

definition min_layer_of :: "nat \<Rightarrow> error + int" where
  "min_layer_of r =
     (if r = 0 then Inl Float_int_cast
      else Inr (min 4 (max 0 (\<lfloor>log 2 (real r)\<rfloor> - 4))))"

text \<open>The calls \<open>cv::resize(src, dst, dst.size(), 0, 0, INTER_LINEAR)\<close> (lines 111--114) as
  OpenCV runs them: \<open>CV_Assert(!ssize.empty())\<close> throws on a source without rows or
  columns, and a target size without rows or columns, with the scale factors 0 the code
  passes, fails the assertion on the scale factors; otherwise the resize proper \<open>rs\<close>
  computes the image of the requested size (\<open>rows\<close> by \<open>cols\<close>).\<close>

definition cv_resize :: "resize_fn \<Rightarrow> nat \<Rightarrow> nat \<Rightarrow> mat \<Rightarrow> error + mat" where
  "cv_resize rs r c src =
     (if rows src = 0 \<or> cols src = 0 \<or> r = 0 \<or> c = 0 then Inl Cv_resize_empty else Inr (rs r c src))"

text \<open>The resizing loop \<open>for (int layer = min_layer_; layer <= max_layer_; layer++)\<close>
  (lines 107--118): \<open>mins\<close> and \<open>maxs\<close> are \<open>min_images_\<close> and \<open>max_images_\<close>, to which
  each iteration pushes the resized levels \<open>min_pyramid[layer]\<close> and
  \<open>max_pyramid[layer]\<close>.\<close>

function upsample_levels ::
  "resize_fn \<Rightarrow> nat \<Rightarrow> nat \<Rightarrow> mat list \<Rightarrow> mat list \<Rightarrow> int \<Rightarrow> int \<Rightarrow> mat list \<Rightarrow> mat list \<Rightarrow>
   error + mat list \<times> mat list" where
  "upsample_levels rs r c min_pyr max_pyr layer max_l mins maxs =
     (if layer \<le> max_l then
        (if layer < 0 \<or> int (length min_pyr) \<le> layer \<or> int (length max_pyr) \<le> layer
         then Inl Vector_out_of_range
         else (case cv_resize rs r c (min_pyr ! nat layer) of
                 Inl e \<Rightarrow> Inl e
               | Inr min_image \<Rightarrow>
                   (case cv_resize rs r c (max_pyr ! nat layer) of
                      Inl e \<Rightarrow> Inl e
                    | Inr max_image \<Rightarrow>
                        upsample_levels rs r c min_pyr max_pyr (layer + 1) max_l
                          (mins @ [min_image]) (maxs @ [max_image]))))
      else Inr (mins, maxs))"
  by pat_completeness auto
termination
  by (relation "measure (\<lambda>(_, _, _, _, _, layer, max_l, _, _). nat (max_l + 1 - layer))") auto

declare upsample_levels.simps [simp del]

text \<open>\<open>MinMaxPyramid::PreProcess(input)\<close> (lines 77--119).\<close>

definition preprocess :: "resize_fn \<Rightarrow> mat \<Rightarrow> pyramid \<Rightarrow> error + pyramid" where
  "preprocess rs input st =
     (let st = st\<lparr>image := input, min_images := [], max_images := [], max_layer := 50\<rparr>;
          (ml, min_pyr, max_pyr) =
            build_levels 1 (max_layer st) [downsample_min input] [downsample_max input];
          st = st\<lparr>max_layer := ml\<rparr>
      in case min_layer_of (rows (image st)) of
           Inl e \<Rightarrow> Inl e
         | Inr l \<Rightarrow>
             (let st = st\<lparr>min_layer := l\<rparr>
              in case upsample_levels rs (rows (image st)) (cols (image st)) min_pyr max_pyr
                        (min_layer st) (max_layer st) (min_images st) (max_images st) of
                   Inl e \<Rightarrow> Inl e
                 | Inr (mins, maxs) \<Rightarrow> Inr (st\<lparr>min_images := mins, max_images := maxs\<rparr>)))"

text \<open>The input of test RelevelScalesImagePixels (src/src/min_max_pyramid_test.cc).\<close>

definition test_in_4x4 :: mat where
  "test_in_4x4 = mat_of_pixels
     [[(100, 10, 100), (100, 10, 100), (100, 10, 100), (100, 10, 100)],
      [(100, 10, 100), (100, 10, 100), (200, 200, 120), (200, 200, 120)],
      [(200, 200, 120), (200, 200, 120), (200, 200, 120), (200, 200, 120)],
      [(100, 10, 100), (100, 10, 100), (200, 200, 120), (200, 200, 120)]]"

subsection \<open>Reference: the pyramid levels and the class invariant\<close>

text \<open>Level \<open>k\<close> of a pyramid is the \<open>(k+1)\<close>-fold reduction of the original image.\<close>

definition pyr_level :: "combine \<Rightarrow> mat \<Rightarrow> nat \<Rightarrow> mat" where
  "pyr_level fn m k = (downsample fn ^^ Suc k) m"

text \<open>The abstract specification of \<open>PreProcess\<close>: the pyramid it builds from an image
  with \<open>M = max(rows, cols)\<close>. The top level is \<open>ceil(log2 M) - 1\<close> (the first level
  that is at most 1x1), the lowest retained level is the heuristic of the specification,
  and the stored images are the resized reductions of the levels in between.\<close>

definition pyramid_spec :: "resize_fn \<Rightarrow> mat \<Rightarrow> pyramid" where
  "pyramid_spec rs input =
     (let K = ceillog2 (max (rows input) (cols input)) - 1;
          l = min 4 (max 0 (\<lfloor>log 2 (real (rows input))\<rfloor> - 4));
          levels = [nat l..<Suc K]
      in \<lparr>image = input, max_layer = int K, min_layer = l,
          min_images = map (\<lambda>k. rs (rows input) (cols input) (pyr_level min_op input k)) levels,
          max_images = map (\<lambda>k. rs (rows input) (cols input) (pyr_level max_op input k)) levels\<rparr>)"

text \<open>The invariant of a built pyramid (spec, section 3): the layer bounds, one stored
  image per retained level in each array, each of the original image's size.\<close>

definition pyramid_inv :: "pyramid \<Rightarrow> bool" where
  "pyramid_inv st \<longleftrightarrow>
     0 \<le> min_layer st \<and> min_layer st \<le> max_layer st \<and> max_layer st \<le> 50 \<and>
     length (min_images st) = nat (max_layer st - min_layer st + 1) \<and>
     length (max_images st) = length (min_images st) \<and>
     (\<forall>m \<in> set (min_images st) \<union> set (max_images st).
        rows m = rows (image st) \<and> cols m = cols (image st) \<and> continuous m)"

subsection \<open>Level sizes\<close>

lemma half_up_div:
  fixes n a :: nat
  assumes "0 < a"
  shows "((n + a - 1) div a + 1) div 2 = (n + 2 * a - 1) div (2 * a)"
proof -
  have "(n + a - 1 + a) div a = (n + a - 1) div a + 1"
    using assms by (intro div_add_self2) simp
  moreover have "n + 2 * a - 1 = n + a - 1 + a"
    using assms by simp
  ultimately show ?thesis
    by (simp only: div_mult2_eq mult.commute)
qed

lemma pyr_level_0 [simp]: "pyr_level fn m 0 = downsample fn m"
  by (simp add: pyr_level_def)

lemma pyr_level_Suc: "pyr_level fn m (Suc k) = downsample fn (pyr_level fn m k)"
  by (simp add: pyr_level_def)

lemma pyr_level_dims [mat_dims]:
  "rows (pyr_level fn m k) = (rows m + 2 ^ Suc k - 1) div 2 ^ Suc k"
  "cols (pyr_level fn m k) = (cols m + 2 ^ Suc k - 1) div 2 ^ Suc k"
proof (induction k)
  case 0
  show "rows (pyr_level fn m 0) = (rows m + 2 ^ Suc 0 - 1) div 2 ^ Suc 0"
    and "cols (pyr_level fn m 0) = (cols m + 2 ^ Suc 0 - 1) div 2 ^ Suc 0"
    by (simp_all add: mat_dims)
next
  case (Suc k)
  have p: "(0::nat) < 2 ^ Suc k" by simp
  show "rows (pyr_level fn m (Suc k)) = (rows m + 2 ^ Suc (Suc k) - 1) div 2 ^ Suc (Suc k)"
    using Suc.IH(1) half_up_div [OF p, of "rows m"] by (simp add: pyr_level_Suc mat_dims)
  show "cols (pyr_level fn m (Suc k)) = (cols m + 2 ^ Suc (Suc k) - 1) div 2 ^ Suc (Suc k)"
    using Suc.IH(2) half_up_div [OF p, of "cols m"] by (simp add: pyr_level_Suc mat_dims)
qed

lemma ceil_div_less_2:
  fixes n a :: nat
  assumes "0 < a"
  shows "(n + a - 1) div a < 2 \<longleftrightarrow> n \<le> a"
  using assms by (simp add: div_less_iff_less_mult) linarith

lemma pyr_level_small:
  "(rows (pyr_level fn m k) < 2 \<and> cols (pyr_level fn m k) < 2) \<longleftrightarrow>
   max (rows m) (cols m) \<le> 2 ^ Suc k"
  using ceil_div_less_2 [of "2 ^ Suc k" "rows m"] ceil_div_less_2 [of "2 ^ Suc k" "cols m"]
  by (simp add: mat_dims del: power_Suc)

subsection \<open>The reduction loop\<close>

lemma last_map_upt: "0 < j \<Longrightarrow> last (map f [0..<j]) = f (j - 1)"
  by (cases j) simp_all

lemma build_levels_break:
  assumes "1 \<le> j" and "j \<le> Suc K" and "K \<le> 48"
    and small: "max (rows m) (cols m) \<le> 2 ^ Suc K"
    and big: "\<forall>k < K. 2 ^ Suc k < max (rows m) (cols m)"
  shows "build_levels (int j) 50 (map (pyr_level min_op m) [0..<j]) (map (pyr_level max_op m) [0..<j]) =
         (int K, map (pyr_level min_op m) [0..<Suc K], map (pyr_level max_op m) [0..<Suc K])"
  using assms(1,2)
proof (induction "Suc K - j" arbitrary: j)
  case 0
  then have j: "j = Suc K" by simp
  have "rows (pyr_level min_op m K) < 2 \<and> cols (pyr_level min_op m K) < 2"
    using small by (simp only: pyr_level_small)
  with j assms(3) show ?case
    by (subst build_levels.simps) (simp add: last_map_upt)
next
  case (Suc d)
  then have jK: "j \<le> K" and j1: "1 \<le> j" by simp_all
  have "2 ^ Suc (j - 1) < max (rows m) (cols m)"
    using big jK j1 by (intro big [rule_format]) simp
  then have "\<not> (rows (pyr_level min_op m (j - 1)) < 2 \<and> cols (pyr_level min_op m (j - 1)) < 2)"
    by (simp only: pyr_level_small not_le)
  moreover have "downsample_min (pyr_level min_op m (j - 1)) = pyr_level min_op m j"
    and "downsample_max (pyr_level max_op m (j - 1)) = pyr_level max_op m j"
    using j1 by (simp_all add: downsample_min_def downsample_max_def pyr_level_Suc [symmetric])
  moreover have "build_levels (int (Suc j)) 50 (map (pyr_level min_op m) [0..<Suc j])
      (map (pyr_level max_op m) [0..<Suc j]) =
      (int K, map (pyr_level min_op m) [0..<Suc K], map (pyr_level max_op m) [0..<Suc K])"
    using Suc.hyps(1) [of "Suc j"] Suc.hyps(2) jK by simp
  ultimately show ?case
    using jK j1 assms(3)
    by (subst build_levels.simps) (simp add: last_map_upt add.commute)
qed

subsection \<open>The resizing loop\<close>

lemma cv_resize_nonempty [simp]:
  "0 < r \<Longrightarrow> 0 < c \<Longrightarrow> 0 < rows src \<Longrightarrow> 0 < cols src \<Longrightarrow> cv_resize rs r c src = Inr (rs r c src)"
  by (simp add: cv_resize_def)

lemma upsample_levels_ok:
  assumes "0 \<le> lo" and "hi < int (length min_pyr)" and "hi < int (length max_pyr)"
    and "0 < r" and "0 < c"
    and "\<forall>m \<in> set min_pyr. 0 < rows m \<and> 0 < cols m" and "\<forall>m \<in> set max_pyr. 0 < rows m \<and> 0 < cols m"
  shows "upsample_levels rs r c min_pyr max_pyr lo hi mins maxs =
    Inr (mins @ map (\<lambda>k. rs r c (min_pyr ! k)) [nat lo..<nat (hi + 1)],
         maxs @ map (\<lambda>k. rs r c (max_pyr ! k)) [nat lo..<nat (hi + 1)])"
  using assms
proof (induction rs r c min_pyr max_pyr lo hi mins maxs rule: upsample_levels.induct)
  case (1 rs r c min_pyr max_pyr lo hi mins maxs)
  show ?case
  proof (cases "lo \<le> hi")
    case True
    have "nat lo < nat (hi + 1)"
      using True "1.prems"(1) by simp
    then have "[nat lo..<nat (hi + 1)] = nat lo # [Suc (nat lo)..<nat (hi + 1)]"
      by (rule upt_conv_Cons)
    moreover have "nat (lo + 1) = Suc (nat lo)"
      using "1.prems"(1) by simp
    ultimately have "[nat lo..<nat (hi + 1)] = nat lo # [nat (lo + 1)..<nat (hi + 1)]"
      by simp
    moreover have "0 < rows (min_pyr ! nat lo) \<and> 0 < cols (min_pyr ! nat lo)"
      and "0 < rows (max_pyr ! nat lo) \<and> 0 < cols (max_pyr ! nat lo)"
      using True "1.prems" by (simp_all add: nat_less_iff)
    ultimately show ?thesis
      using True "1.prems" "1.IH"
      by (subst upsample_levels.simps) simp
  next
    case False
    then show ?thesis
      by (subst upsample_levels.simps) simp
  qed
qed

text \<open>An empty target size makes the first \<open>cv::resize\<close> of the loop throw.\<close>

lemma upsample_levels_empty_target:
  assumes "0 \<le> lo" and "lo \<le> hi" and "hi < int (length min_pyr)" and "hi < int (length max_pyr)"
    and "c = 0"
  shows "upsample_levels rs r c min_pyr max_pyr lo hi mins maxs = Inl Cv_resize_empty"
  using assms by (subst upsample_levels.simps) (simp add: cv_resize_def)

subsection \<open>Layer bounds\<close>

lemma ceillog2_layer:
  assumes "M \<le> 2 ^ 49"
  shows "ceillog2 M - 1 \<le> 48 \<and> M \<le> 2 ^ Suc (ceillog2 M - 1) \<and>
         (\<forall>k < ceillog2 M - 1. 2 ^ Suc k < M)"
proof (cases "M = 0")
  case True
  then show ?thesis by simp
next
  case False
  then have M: "0 < M" by simp
  have "ceillog2 M \<le> 49"
    using assms M by (simp add: ceillog2_le_iff)
  moreover have "M \<le> 2 ^ Suc (ceillog2 M - 1)"
  proof -
    have "(2::nat) ^ ceillog2 M \<le> 2 ^ Suc (ceillog2 M - 1)"
      by (intro power_increasing) simp_all
    with le_two_power_ceillog2 [of M] show ?thesis
      by (rule order.trans)
  qed
  moreover have "2 ^ Suc k < M" if "k < ceillog2 M - 1" for k
  proof (rule ccontr)
    assume "\<not> 2 ^ Suc k < M"
    then have "ceillog2 M \<le> Suc k"
      using M by (simp add: ceillog2_le_iff not_less)
    with that show False by simp
  qed
  ultimately show ?thesis by simp
qed

lemma floor_log2_floorlog:
  assumes "0 < R"
  shows "\<lfloor>log 2 (real R)\<rfloor> = int (floorlog 2 R) - 1"
proof -
  have "0 \<le> log 2 (real R)"
    using assms by simp
  then have "0 \<le> \<lfloor>log 2 (real R)\<rfloor>"
    by simp
  then show ?thesis
    using assms by (simp add: floorlog_def)
qed

lemma min_layer_le_max_layer:
  assumes "0 < R" and "R \<le> M"
  shows "min 4 (max 0 (\<lfloor>log 2 (real R)\<rfloor> - 4)) \<le> int (ceillog2 M - 1)"
proof (cases "floorlog 2 R \<le> 5")
  case True
  then show ?thesis
    using assms by (simp add: floor_log2_floorlog)
next
  case False
  let ?L = "floorlog 2 R - 1"
  have "2 ^ ?L \<le> R"
    using floorlog_bounds [of R 2] assms by simp
  with assms have "2 ^ ?L < 2 * M"
    by simp
  then have "?L \<le> ceillog2 M"
    using assms by (simp add: ceillog2_ge_iff)
  with False assms show ?thesis
    by (simp add: floor_log2_floorlog)
qed

subsection \<open>PreProcess computes its specification\<close>

lemma min_layer_of_pos:
  "0 < r \<Longrightarrow> min_layer_of r = Inr (min 4 (max 0 (\<lfloor>log 2 (real r)\<rfloor> - 4)))"
  by (simp add: min_layer_of_def)

lemma preprocess_unfold:
  fixes input :: mat
  defines "M \<equiv> max (rows input) (cols input)"
    and "l \<equiv> min 4 (max 0 (\<lfloor>log 2 (real (rows input))\<rfloor> - 4))"
  defines "K \<equiv> ceillog2 M - 1"
  assumes rows: "0 < rows input" and bound: "M \<le> 2 ^ 49"
  shows "preprocess rs input st =
    (case upsample_levels rs (rows input) (cols input) (map (pyr_level min_op input) [0..<Suc K])
            (map (pyr_level max_op input) [0..<Suc K]) l (int K) [] [] of
       Inl e \<Rightarrow> Inl e
     | Inr (mins, maxs) \<Rightarrow>
         Inr \<lparr>image = input, max_layer = int K, min_layer = l, min_images = mins, max_images = maxs\<rparr>)"
proof -
  have K: "K \<le> 48" "M \<le> 2 ^ Suc K" "\<forall>k < K. 2 ^ Suc k < M"
    using ceillog2_layer [OF bound] unfolding K_def by simp_all
  have "build_levels (int 1) 50 (map (pyr_level min_op input) [0..<1])
      (map (pyr_level max_op input) [0..<1]) =
      (int K, map (pyr_level min_op input) [0..<Suc K], map (pyr_level max_op input) [0..<Suc K])"
    using K unfolding M_def by (intro build_levels_break) simp_all
  then have bl: "build_levels 1 50 [downsample_min input] [downsample_max input] =
      (int K, map (pyr_level min_op input) [0..<Suc K], map (pyr_level max_op input) [0..<Suc K])"
    by (simp add: downsample_min_def downsample_max_def)
  have ml: "min_layer_of (rows input) = Inr l"
    using rows by (simp add: l_def min_layer_of_pos)
  show ?thesis
    by (cases st) (simp add: preprocess_def Let_def bl ml split: sum.split)
qed

lemma pyr_level_nonempty:
  "0 < rows m \<Longrightarrow> 0 < cols m \<Longrightarrow> 0 < rows (pyr_level fn m k) \<and> 0 < cols (pyr_level fn m k)"
  by (simp add: pyr_level_dims div_greater_zero_iff) arith

lemma preprocess_eq:
  fixes input :: mat
  assumes rows: "0 < rows input" and cols: "0 < cols input"
    and bound: "max (rows input) (cols input) \<le> 2 ^ 49"
  shows "preprocess rs input st = Inr (pyramid_spec rs input)"
proof -
  define K where "K = ceillog2 (max (rows input) (cols input)) - 1"
  define l where "l = min 4 (max 0 (\<lfloor>log 2 (real (rows input))\<rfloor> - 4))"
  let ?mins = "map (pyr_level min_op input) [0..<Suc K]"
  let ?maxs = "map (pyr_level max_op input) [0..<Suc K]"
  have l0: "0 \<le> l"
    by (simp add: l_def)
  have "upsample_levels rs (rows input) (cols input) ?mins ?maxs l (int K) [] [] =
    Inr ([] @ map (\<lambda>k. rs (rows input) (cols input) (?mins ! k)) [nat l..<nat (int K + 1)],
         [] @ map (\<lambda>k. rs (rows input) (cols input) (?maxs ! k)) [nat l..<nat (int K + 1)])"
    using l0 rows cols pyr_level_nonempty [OF rows cols] by (intro upsample_levels_ok) auto
  moreover have "map (\<lambda>k. rs (rows input) (cols input) (?mins ! k)) [nat l..<Suc K] =
      map (\<lambda>k. rs (rows input) (cols input) (pyr_level min_op input k)) [nat l..<Suc K]"
    and "map (\<lambda>k. rs (rows input) (cols input) (?maxs ! k)) [nat l..<Suc K] =
      map (\<lambda>k. rs (rows input) (cols input) (pyr_level max_op input k)) [nat l..<Suc K]"
    by (auto intro!: map_cong simp del: upt_Suc)
  moreover have "nat (int K + 1) = Suc K"
    by simp
  ultimately have up: "upsample_levels rs (rows input) (cols input) ?mins ?maxs l (int K) [] [] =
    Inr (map (\<lambda>k. rs (rows input) (cols input) (pyr_level min_op input k)) [nat l..<Suc K],
         map (\<lambda>k. rs (rows input) (cols input) (pyr_level max_op input k)) [nat l..<Suc K])"
    by simp
  show ?thesis
    unfolding preprocess_unfold [OF rows bound] pyramid_spec_def Let_def K_def [symmetric] l_def [symmetric]
    by (simp only: up sum.case prod.case)
qed

lemma resize_ok_shape:
  "resize_ok rs \<Longrightarrow>
   rows (rs r c src) = r \<and> cols (rs r c src) = c \<and> continuous (rs r c src)"
  by (simp add: resize_ok_def)

lemma pyramid_spec_inv:
  assumes "resize_ok rs" and "0 < rows input" and "max (rows input) (cols input) \<le> 2 ^ 49"
  shows "pyramid_inv (pyramid_spec rs input)"
proof -
  define K where "K = ceillog2 (max (rows input) (cols input)) - 1"
  define l where "l = min 4 (max 0 (\<lfloor>log 2 (real (rows input))\<rfloor> - 4))"
  have spec: "pyramid_spec rs input =
    \<lparr>image = input, max_layer = int K, min_layer = l,
     min_images = map (\<lambda>k. rs (rows input) (cols input) (pyr_level min_op input k)) [nat l..<Suc K],
     max_images = map (\<lambda>k. rs (rows input) (cols input) (pyr_level max_op input k)) [nat l..<Suc K]\<rparr>"
    by (simp only: pyramid_spec_def Let_def K_def l_def)
  have K: "K \<le> 48"
    using ceillog2_layer [OF assms(3)] by (simp add: K_def)
  have le: "l \<le> int K" and l0: "0 \<le> l"
    using assms(2) min_layer_le_max_layer [of "rows input" "max (rows input) (cols input)"]
    by (simp_all add: K_def l_def)
  have len: "Suc K - nat l = nat (int K - l + 1)"
    using le l0 by linarith
  show ?thesis
    unfolding pyramid_inv_def spec pyramid.simps
  proof (intro conjI)
    show "0 \<le> l" and "l \<le> int K" and "int K \<le> 50"
      using l0 le K by simp_all
    show "length (map (\<lambda>k. rs (rows input) (cols input) (pyr_level min_op input k)) [nat l..<Suc K]) =
        nat (int K - l + 1)"
      using len by (simp del: upt_Suc)
    show "length (map (\<lambda>k. rs (rows input) (cols input) (pyr_level max_op input k)) [nat l..<Suc K]) =
        length (map (\<lambda>k. rs (rows input) (cols input) (pyr_level min_op input k)) [nat l..<Suc K])"
      by (simp del: upt_Suc)
    show "\<forall>m \<in> set (map (\<lambda>k. rs (rows input) (cols input) (pyr_level min_op input k)) [nat l..<Suc K]) \<union>
        set (map (\<lambda>k. rs (rows input) (cols input) (pyr_level max_op input k)) [nat l..<Suc K]).
        rows m = rows input \<and> cols m = cols input \<and> continuous m"
      using resize_ok_shape [OF assms(1)] by (auto simp del: upt_Suc)
  qed
qed


subsection \<open>The min levels lie below the max levels\<close>

lemma block_ref_min_le: "block_ref min_op m i j c \<le> mat_at m (2 * i) (2 * j) c"
  by (auto simp: block_ref_def Let_def min_le_iff_disj)

lemma block_ref_max_ge: "mat_at m (2 * i) (2 * j) c \<le> block_ref max_op m i j c"
  by (auto simp: block_ref_def Let_def le_max_iff_disj)

lemma downsample_le:
  assumes le: "le_mat a b"
  shows "le_mat (downsample min_op a) (downsample max_op b)"
proof -
  have d: "rows b = rows a" "cols b = cols a" using le by (simp_all add: le_mat_def)
  have "mat_at (downsample min_op a) i j c \<le> mat_at (downsample max_op b) i j c"
    if "i < rows (downsample min_op a)" "j < cols (downsample min_op a)" "c < 3" for i j c
  proof -
    have ij: "2 * i < rows a" "2 * j < cols a" using that(1,2) by (simp_all add: downsample_dims)
    have "mat_at a (2 * i) (2 * j) c \<le> mat_at b (2 * i) (2 * j) c"
      using le ij that(3) by (simp add: le_mat_def)
    moreover have "i < rows (downsample max_op b)" "j < cols (downsample max_op b)"
      using that(1,2) d by (simp_all add: downsample_dims)
    ultimately show ?thesis
      using downsample_at [OF assoc_min_op that] downsample_at [OF assoc_max_op _ _ that(3)]
        block_ref_min_le [of a i j c] block_ref_max_ge [of b i j c] by (metis order_trans)
  qed
  then show ?thesis using d by (simp add: le_mat_def downsample_dims)
qed

lemma pyr_level_le: "le_mat (pyr_level min_op m k) (pyr_level max_op m k)"
proof (induction k)
  case 0
  show ?case using downsample_le [OF le_mat_refl] by (simp only: pyr_level_0)
next
  case (Suc k)
  show ?case using downsample_le [OF Suc.IH] by (simp only: pyr_level_Suc)
qed

subsection \<open>Properties\<close>

text \<open>C4: refinement: whenever the image has at least one row and one column and no dimension beyond \<open>2^49\<close> (every image with \<open>int\<close> dimensions), \<open>PreProcess\<close> succeeds and its reduction loop, layer heuristic and resizing loop together build exactly the abstract pyramid \<open>pyramid_spec\<close>: top level \<open>ceil(log2 max(rows, cols)) - 1\<close>, lowest level \<open>clamp(floor(log2 rows) - 4, 0, 4)\<close>, and the resized min and max reductions of every level in between.\<close>

theorem preprocess_refines_spec:
  assumes "0 < rows input" and "0 < cols input" and "max (rows input) (cols input) \<le> 2 ^ 49"
  shows "preprocess rs input st = Inr (pyramid_spec rs input)"
  using assms by (rule preprocess_eq)

theorem preprocess_refines_spec_witness:
  "0 < rows test_in_4x4 \<and> 0 < cols test_in_4x4 \<and> max (rows test_in_4x4) (cols test_in_4x4) \<le> 2 ^ 49 \<and>
   preprocess resize_linear test_in_4x4 pyramid_init = Inr (pyramid_spec resize_linear test_in_4x4)"
proof -
  have d: "rows test_in_4x4 = 4" "cols test_in_4x4 = 4"
    by (simp_all add: test_in_4x4_def mat_of_pixels_def)
  then show ?thesis
    using preprocess_refines_spec [of test_in_4x4 resize_linear pyramid_init] by simp
qed

text \<open>C5: under the contract of \<open>cv::resize\<close> on non-empty images, \<open>PreProcess\<close> of an image with rows and columns establishes the class invariant: \<open>0 <= min_layer <= max_layer <= 50\<close>, one stored min and one stored max image per retained level, each of the original image's size.\<close>

theorem preprocess_inv:
  assumes "resize_ok rs" and "0 < rows input" and "0 < cols input"
    and "max (rows input) (cols input) \<le> 2 ^ 49"
  shows "\<exists>st'. preprocess rs input st = Inr st' \<and> pyramid_inv st'"
  using preprocess_eq [OF assms(2-4), of rs st] pyramid_spec_inv [OF assms(1,2,4)] by blast

theorem preprocess_inv_witness:
  "resize_ok resize_linear \<and> 0 < rows test_in_4x4 \<and> 0 < cols test_in_4x4 \<and>
   max (rows test_in_4x4) (cols test_in_4x4) \<le> 2 ^ 49 \<and>
   (\<exists>st'. preprocess resize_linear test_in_4x4 pyramid_init = Inr st' \<and> pyramid_inv st')"
proof -
  have d: "rows test_in_4x4 = 4" "cols test_in_4x4 = 4"
    by (simp_all add: test_in_4x4_def mat_of_pixels_def)
  then show ?thesis
    using preprocess_inv [OF resize_linear_ok, of test_in_4x4 pyramid_init] resize_linear_ok by simp
qed

text \<open>C6: for an image with rows and columns, the top level \<open>max_layer\<close> that \<open>PreProcess\<close> keeps is the first reduction that is smaller than 2x2 in both dimensions (a single pixel), every lower level being at least 2 pixels in some dimension: the undersized level is kept, not discarded.\<close>

theorem preprocess_top_level_1x1:
  assumes "0 < rows input" and "0 < cols input" and "max (rows input) (cols input) \<le> 2 ^ 49"
  shows "\<exists>st'. preprocess rs input st = Inr st' \<and>
    rows (pyr_level min_op input (nat (max_scale st'))) < 2 \<and>
    cols (pyr_level min_op input (nat (max_scale st'))) < 2 \<and>
    (\<forall>k < nat (max_scale st'). 2 \<le> rows (pyr_level min_op input k) \<or> 2 \<le> cols (pyr_level min_op input k))"
proof -
  define K where "K = ceillog2 (max (rows input) (cols input)) - 1"
  have mx: "max_scale (pyramid_spec rs input) = int K"
    by (simp add: max_scale_def pyramid_spec_def Let_def K_def)
  have K: "max (rows input) (cols input) \<le> 2 ^ Suc K"
    "\<forall>k < K. 2 ^ Suc k < max (rows input) (cols input)"
    using ceillog2_layer [OF assms(3)] by (simp_all add: K_def)
  have "rows (pyr_level min_op input K) < 2 \<and> cols (pyr_level min_op input K) < 2"
    using K(1) by (simp only: pyr_level_small)
  moreover have "2 \<le> rows (pyr_level min_op input k) \<or> 2 \<le> cols (pyr_level min_op input k)"
    if "k < K" for k
    using K(2) that pyr_level_small [of min_op input k] by (auto simp: not_less)
  ultimately show ?thesis
    using preprocess_eq [OF assms, of rs st] mx by auto
qed

theorem preprocess_top_level_1x1_witness:
  "0 < rows test_in_4x4 \<and> 0 < cols test_in_4x4 \<and> max (rows test_in_4x4) (cols test_in_4x4) \<le> 2 ^ 49 \<and>
   (\<exists>st'. preprocess resize_linear test_in_4x4 pyramid_init = Inr st' \<and> max_scale st' = 1 \<and>
      rows (pyr_level min_op test_in_4x4 1) < 2 \<and> cols (pyr_level min_op test_in_4x4 1) < 2 \<and>
      2 \<le> rows (pyr_level min_op test_in_4x4 0))"
proof -
  have d: "rows test_in_4x4 = 4" "cols test_in_4x4 = 4"
    by (simp_all add: test_in_4x4_def mat_of_pixels_def)
  have "ceillog2 4 = 2"
    using ceillog2_2_power [of 2] by simp
  with d have "max_scale (pyramid_spec resize_linear test_in_4x4) = 1"
    by (simp add: max_scale_def pyramid_spec_def Let_def)
  moreover have "preprocess resize_linear test_in_4x4 pyramid_init = Inr (pyramid_spec resize_linear test_in_4x4)"
    using d by (intro preprocess_eq) simp_all
  ultimately show ?thesis
    using d preprocess_top_level_1x1 [of test_in_4x4 resize_linear pyramid_init]
    by (auto simp: mat_dims)
qed

text \<open>C7: an image with rows but no columns (such as \<open>cv::Mat(3, 0, CV_8UC3)\<close>) makes
  \<open>PreProcess\<close> throw: the reduction loop and the layer heuristic succeed, but the first
  \<open>cv::resize\<close> of the resizing loop gets an empty source and an empty target size, and
  OpenCV's assertion raises a \<open>cv::Exception\<close>, whatever the resize function and the
  previous state.\<close>

theorem preprocess_no_cols:
  assumes "0 < rows input" and "cols input = 0" and "rows input \<le> 2 ^ 49"
  shows "preprocess rs input st = Inl Cv_resize_empty"
proof -
  define K where "K = ceillog2 (max (rows input) (cols input)) - 1"
  define l where "l = min 4 (max 0 (\<lfloor>log 2 (real (rows input))\<rfloor> - 4))"
  have bound: "max (rows input) (cols input) \<le> 2 ^ 49"
    using assms(2,3) by simp
  have "l \<le> int K"
    unfolding l_def K_def using assms(1) by (intro min_layer_le_max_layer) simp_all
  then have "upsample_levels rs (rows input) (cols input) (map (pyr_level min_op input) [0..<Suc K])
      (map (pyr_level max_op input) [0..<Suc K]) l (int K) [] [] = Inl Cv_resize_empty"
    using assms(2) by (intro upsample_levels_empty_target) (simp_all add: l_def)
  then show ?thesis
    unfolding preprocess_unfold [OF assms(1) bound] K_def [symmetric] l_def [symmetric] by simp
qed

theorem preprocess_no_cols_witness:
  "0 < rows \<lparr>rows = 3, cols = 0, step = 0, data = []\<rparr> \<and> cols \<lparr>rows = 3, cols = 0, step = 0, data = []\<rparr> = 0 \<and>
   rows \<lparr>rows = 3, cols = 0, step = 0, data = []\<rparr> \<le> 2 ^ 49 \<and>
   preprocess resize_linear \<lparr>rows = 3, cols = 0, step = 0, data = []\<rparr> pyramid_init = Inl Cv_resize_empty"
  using preprocess_no_cols [of "\<lparr>rows = 3, cols = 0, step = 0, data = []\<rparr>" resize_linear pyramid_init]
  by simp



text \<open>C34: \<open>PreProcess\<close> of an image without rows reaches undefined behaviour: whatever its bounded reduction loop builds, \<open>log2(0)\<close> is \<open>-inf\<close> and its cast to \<open>int\<close> for \<open>min_layer_\<close> is undefined, whatever the columns, the resize function and the previous state.\<close>

theorem preprocess_no_rows:
  "rows input = 0 \<Longrightarrow> preprocess rs input st = Inl Float_int_cast"
  by (simp add: preprocess_def Let_def min_layer_of_def split: prod.split)

theorem preprocess_no_rows_witness:
  "rows empty_mat = 0 \<and> preprocess resize_linear empty_mat pyramid_init = Inl Float_int_cast"
  using preprocess_no_rows [of empty_mat resize_linear pyramid_init] by (simp add: empty_mat_def)

text \<open>C36: with bilinear resizing, \<open>PreProcess\<close> stores at every retained level a min image that lies below the max image, pixel by pixel and channel by channel: the reductions keep min below max, and the resize is monotone. So the range \<open>max_img - min_img\<close> that \<open>Relevel\<close> computes never saturates, and a zero range means equal local min and max.\<close>

theorem preprocess_min_le_max:
  assumes "0 < rows input" and "0 < cols input" and "max (rows input) (cols input) \<le> 2 ^ 49"
    and "preprocess resize_linear input st = Inr p"
  shows "list_all2 le_mat (min_images p) (max_images p)"
proof -
  have p: "p = pyramid_spec resize_linear input" using preprocess_eq [OF assms(1-3)] assms(4) by simp
  have "le_mat (resize_linear (rows input) (cols input) (pyr_level min_op input k))
               (resize_linear (rows input) (cols input) (pyr_level max_op input k))" for k
  proof (rule resize_linear_mono [OF pyr_level_le])
    show "0 < rows (pyr_level min_op input k)" "0 < cols (pyr_level min_op input k)"
      using assms(1,2) by (simp_all add: pyr_level_dims div_greater_zero_iff)
  qed
  then show ?thesis
    unfolding p pyramid_spec_def Let_def by (simp add: list_all2_map1 list_all2_map2 list.rel_refl)
qed

theorem preprocess_min_le_max_witness:
  "0 < rows test_in_4x4 \<and> 0 < cols test_in_4x4 \<and> max (rows test_in_4x4) (cols test_in_4x4) \<le> 2 ^ 49 \<and>
   preprocess resize_linear test_in_4x4 pyramid_init = Inr (pyramid_spec resize_linear test_in_4x4) \<and>
   list_all2 le_mat (min_images (pyramid_spec resize_linear test_in_4x4))
     (max_images (pyramid_spec resize_linear test_in_4x4))"
proof -
  have d: "rows test_in_4x4 = 4" "cols test_in_4x4 = 4"
    by (simp_all add: test_in_4x4_def mat_of_pixels_def)
  then have pre: "preprocess resize_linear test_in_4x4 pyramid_init = Inr (pyramid_spec resize_linear test_in_4x4)"
    by (intro preprocess_eq) simp_all
  show ?thesis using preprocess_min_le_max [OF _ _ _ pre] pre d by simp
qed

end
