(* ===== verification/Float32.thy ===== *)
theory Float32
  imports Prelude
begin

text \<open>
  The single-precision arithmetic that \<open>Relevel\<close> relies on (src/src/min_max_pyramid.cc,
  lines 139--143): IEEE-754 binary32 values, rounding of an exact rational result to the
  nearest binary32 value with ties to even (the rounding of every \<open>float\<close> operation),
  division and multiplication with their infinite and not-a-number results, and the
  conversion of a \<open>float\<close> to \<open>uchar\<close> performed by \<open>convertTo(CV_8U)\<close>, that is
  \<open>saturate_cast<uchar>(cvRound(v))\<close>. The conversion is the one of x86-64 (SSE2
  \<open>cvtss2si\<close>): round half to even, and the integer indefinite value \<open>INT_MIN\<close> for a
  not-a-number, an infinity or a value outside the \<open>int\<close> range, which saturates to 0.
  Signed zeros are not distinguished: every value \<open>Relevel\<close> divides by is a converted
  \<open>uchar\<close>, hence \<open>+0\<close>. The lemmas bound the rounding error (\<open>fl32_error\<close>).
\<close>

subsection \<open>Rounding to nearest, ties to even\<close>

definition round_even :: "rat \<Rightarrow> int" where
  "round_even x =
     (let f = \<lfloor>x\<rfloor>; d = x - of_int f
      in if d < 1/2 then f else if 1/2 < d then f + 1 else if even f then f else f + 1)"

text \<open>\<open>\<lfloor>log2 x\<rfloor>\<close> of a positive rational, from the bit lengths of its numerator and
  denominator.\<close>

definition flog2 :: "rat \<Rightarrow> int" where
  "flog2 x =
     (let (a, b) = quotient_of x;
          k = int (floorlog 2 (nat a)) - int (floorlog 2 (nat b))
      in if x < power_int 2 k then k - 1 else k)"

text \<open>The binary32 value nearest to \<open>x\<close>, ties to even, with an unbounded exponent range
  above: 24 significant bits for normal values, a fixed quantum of \<open>2^-149\<close> for
  subnormal ones.\<close>

definition fl32 :: "rat \<Rightarrow> rat" where
  "fl32 x =
     (if x = 0 then 0
      else let e = max (flog2 \<bar>x\<bar> - 23) (-149)
           in of_int (round_even (x / power_int 2 e)) * power_int 2 e)"

subsection \<open>binary32 values\<close>

datatype f32 = F32 rat | PosInf | NegInf | NaN

text \<open>The result of an operation whose exact value is \<open>x\<close>: rounded, and infinite when
  the rounded magnitude reaches \<open>2^128\<close>.\<close>

definition f32_of_rat :: "rat \<Rightarrow> f32" where
  "f32_of_rat x =
     (let y = fl32 x
      in if power_int 2 128 \<le> y then PosInf else if y \<le> - power_int 2 128 then NegInf else F32 y)"

text \<open>The sign of an infinite result.\<close>

definition f32_inf :: "bool \<Rightarrow> f32" where
  "f32_inf pos = (if pos then PosInf else NegInf)"

fun f32_div :: "f32 \<Rightarrow> f32 \<Rightarrow> f32" where
  "f32_div (F32 a) (F32 b) =
     (if b \<noteq> 0 then f32_of_rat (a / b) else if a = 0 then NaN else f32_inf (0 < a))"
| "f32_div (F32 a) PosInf = F32 0"
| "f32_div (F32 a) NegInf = F32 0"
| "f32_div PosInf (F32 b) = f32_inf (0 \<le> b)"
| "f32_div NegInf (F32 b) = f32_inf (b < 0)"
| "f32_div _ _ = NaN"

fun f32_mul :: "f32 \<Rightarrow> f32 \<Rightarrow> f32" where
  "f32_mul (F32 a) (F32 b) = f32_of_rat (a * b)"
| "f32_mul (F32 a) PosInf = (if a = 0 then NaN else f32_inf (0 < a))"
| "f32_mul (F32 a) NegInf = (if a = 0 then NaN else f32_inf (a < 0))"
| "f32_mul PosInf (F32 b) = (if b = 0 then NaN else f32_inf (0 < b))"
| "f32_mul NegInf (F32 b) = (if b = 0 then NaN else f32_inf (b < 0))"
| "f32_mul PosInf PosInf = PosInf"
| "f32_mul NegInf NegInf = PosInf"
| "f32_mul PosInf NegInf = NegInf"
| "f32_mul NegInf PosInf = NegInf"
| "f32_mul _ _ = NaN"

text \<open>\<open>cvRound(float)\<close> on x86-64: \<open>_mm_cvtss_si32\<close>, round half to even, and \<open>INT_MIN\<close>
  when the result is not representable.\<close>

definition int_min :: int where
  "int_min = - (2 ^ 31)"

fun cv_round :: "f32 \<Rightarrow> int" where
  "cv_round (F32 x) =
     (let n = round_even x in if - (2 ^ 31) \<le> n \<and> n < 2 ^ 31 then n else int_min)"
| "cv_round _ = int_min"

text \<open>\<open>saturate_cast<uchar>(int)\<close>.\<close>

definition saturate_u8 :: "int \<Rightarrow> byte" where
  "saturate_u8 n = word_of_int (min 255 (max 0 n))"

text \<open>\<open>saturate_cast<uchar>(float)\<close>, the per-element operation of \<open>convertTo(CV_8U)\<close>.\<close>

definition f32_to_u8 :: "f32 \<Rightarrow> byte" where
  "f32_to_u8 v = saturate_u8 (cv_round v)"

text \<open>Conversion of a \<open>uchar\<close> to \<open>float\<close> (\<open>convertTo(CV_32F)\<close>) is exact.\<close>

definition u8_to_f32 :: "byte \<Rightarrow> f32" where
  "u8_to_f32 b = F32 (of_nat (unat b))"

subsection \<open>Rounding error\<close>

lemma round_even_error: "\<bar>of_int (round_even x) - x\<bar> \<le> 1 / 2"
proof -
  define f where "f = \<lfloor>x\<rfloor>"
  have h: "of_int f \<le> x" "x < of_int f + 1" unfolding f_def by linarith+
  have r: "round_even x =
    (if x - of_int f < 1/2 then f else if 1/2 < x - of_int f then f + 1 else if even f then f else f + 1)"
    by (simp add: round_even_def f_def Let_def)
  consider "x - of_int f < 1/2" | "1/2 < x - of_int f" | "x - of_int f = 1/2" by linarith
  then show ?thesis
  proof cases
    case 1
    then show ?thesis using h by (simp add: r abs_le_iff)
  next
    case 2
    then show ?thesis using h by (simp add: r abs_le_iff)
  next
    case 3
    then have x: "x = of_int f + 1/2" by simp
    show ?thesis unfolding r by (cases "even f") (simp_all add: x)
  qed
qed

lemma floorlog_pos_bounds:
  assumes "0 < n"
  shows "2 ^ (floorlog 2 n - 1) \<le> n \<and> n < 2 ^ floorlog 2 n"
  using floorlog_bounds[of n 2] assms by simp

lemma power_int_2_nat_bounds:
  assumes "0 < n"
  shows "power_int 2 (int (floorlog 2 n) - 1) \<le> (of_nat n :: rat) \<and>
         (of_nat n :: rat) < power_int 2 (int (floorlog 2 n))"
proof -
  define e where "e = floorlog 2 n"
  have "0 < e" using assms by (simp add: e_def floorlog_def)
  then have eq: "int e - 1 = int (e - 1)" by simp
  have "of_nat (2 ^ (e - 1)) \<le> (of_nat n :: rat)" "(of_nat n :: rat) < of_nat (2 ^ e)"
    using floorlog_pos_bounds[OF assms] unfolding e_def[symmetric]
    by (simp_all only: of_nat_le_iff of_nat_less_iff)
  then show ?thesis
    unfolding e_def[symmetric] eq power_int_of_nat by (simp only: of_nat_power of_nat_numeral)
qed

lemma flog2_bounds:
  assumes "0 < x"
  shows "power_int 2 (flog2 x) \<le> x \<and> x < power_int 2 (flog2 x + 1)"
proof -
  obtain a b where q: "quotient_of x = (a, b)" by fastforce
  have b: "0 < b" using quotient_of_denom_pos[OF q] .
  have x: "x = of_int a / of_int b" using quotient_of_div[OF q] .
  have a: "0 < a" using assms b by (simp add: x zero_less_divide_iff)
  define ea where "ea = int (floorlog 2 (nat a))"
  define eb where "eb = int (floorlog 2 (nat b))"
  define k where "k = ea - eb"
  have ra: "power_int 2 (ea - 1) \<le> (of_int a :: rat)" "(of_int a :: rat) < power_int 2 ea"
    using power_int_2_nat_bounds[of "nat a"] a unfolding ea_def by simp_all
  have rb: "power_int 2 (eb - 1) \<le> (of_int b :: rat)" "(of_int b :: rat) < power_int 2 eb"
    using power_int_2_nat_bounds[of "nat b"] b unfolding eb_def by simp_all
  have "k - 1 = (ea - 1) - eb" by (simp add: k_def)
  then have "power_int (2::rat) (k - 1) = power_int 2 (ea - 1) / power_int 2 eb"
    by (simp add: power_int_diff)
  also have "\<dots> < x"
  proof -
    have "power_int 2 (ea - 1) * of_int b < of_int a * (power_int 2 eb :: rat)"
      using ra rb b by (intro mult_le_less_imp_less) simp_all
    then show ?thesis unfolding x using b by (simp add: divide_simps)
  qed
  finally have lo: "power_int 2 (k - 1) < x" .
  have "x < power_int 2 ea / power_int 2 (eb - 1)"
  proof -
    have "of_int a * power_int 2 (eb - 1) < power_int 2 ea * (of_int b :: rat)"
      using ra rb a by (intro mult_less_le_imp_less) simp_all
    then show ?thesis unfolding x using b by (simp add: divide_simps)
  qed
  also have "\<dots> = power_int (2::rat) (ea - (eb - 1))"
    by (rule power_int_diff [symmetric]) simp
  also have "ea - (eb - 1) = k + 1"
    by (simp add: k_def)
  finally have hi: "x < power_int 2 (k + 1)" .
  have fl: "flog2 x = (if x < power_int 2 k then k - 1 else k)"
    unfolding flog2_def q ea_def eb_def k_def Let_def by simp
  show ?thesis
  proof (cases "x < power_int 2 k")
    case True
    then show ?thesis using lo by (simp add: fl less_imp_le)
  next
    case False
    then show ?thesis using hi by (simp add: fl)
  qed
qed
lemma fl32_error:
  assumes "power_int 2 (-126) \<le> \<bar>x\<bar>"
  shows "\<bar>fl32 x - x\<bar> \<le> \<bar>x\<bar> / 2 ^ 24"
proof -
  define L where "L = flog2 \<bar>x\<bar>"
  have x0: "x \<noteq> 0" using assms by auto
  have bL: "power_int 2 L \<le> \<bar>x\<bar>" "\<bar>x\<bar> < power_int 2 (L + 1)"
    using flog2_bounds[of "\<bar>x\<bar>"] x0 unfolding L_def by auto
  have "power_int (2::rat) (-126) < power_int 2 (L + 1)" using assms bL(2) by linarith
  then have "-126 < L + 1"
    using power_int_increasing[of "L + 1" "-126" "2::rat"] by linarith
  then have e: "max (L - 23) (-149) = L - 23" by simp
  define P :: rat where "P = power_int 2 (L - 23)"
  have P0: "0 < P" by (simp add: P_def)
  have fl: "fl32 x = of_int (round_even (x / P)) * P"
    using x0 e by (simp add: fl32_def P_def L_def Let_def)
  have "of_int (round_even (x / P)) * P - x = (of_int (round_even (x / P)) - x / P) * P"
    using P0 by (simp add: field_simps)
  then have "\<bar>fl32 x - x\<bar> = \<bar>of_int (round_even (x / P)) - x / P\<bar> * P"
    using P0 by (simp add: fl abs_mult)
  also have "\<dots> \<le> 1 / 2 * P"
    using P0 round_even_error by (intro mult_right_mono) simp_all
  also have "P = power_int 2 L / 2 ^ 23"
    unfolding P_def by (simp add: power_int_diff)
  finally show ?thesis using bL(1) by simp
qed

lemma round_near_ratio:
  fixes n :: int and z r :: nat and p :: rat
  assumes r: "0 < r" and n: "\<bar>of_int n - p\<bar> \<le> 1 / 2"
    and p: "\<bar>p - of_nat z * 255 / of_nat r\<bar> < 1 / (2 * of_nat r)"
  shows "\<bar>of_int n - of_nat z * 255 / of_nat r :: rat\<bar> \<le> 1 / 2"
proof -
  define Y :: rat where "Y = of_nat z * 255 / of_nat r"
  define d where "d = n * int r - 255 * int z"
  have R: "(0::rat) < of_nat r" using r by simp
  have "of_nat r * (of_int n - Y) = of_int d"
    using R unfolding Y_def d_def by (simp add: algebra_simps)
  then have dY: "of_nat r * \<bar>of_int n - Y\<bar> = \<bar>of_int d\<bar>"
    using R by (metis abs_mult abs_of_pos)
  have "\<bar>of_int n - Y\<bar> < 1 / 2 + 1 / (2 * of_nat r)"
    using n p unfolding Y_def by linarith
  then have "2 * of_nat r * \<bar>of_int n - Y\<bar> < 2 * of_nat r * (1 / 2 + 1 / (2 * of_nat r))"
    using R by (intro mult_strict_left_mono) simp_all
  also have "\<dots> = of_nat r + 1"
    using R by (simp add: distrib_left)
  finally have "2 * \<bar>of_int d\<bar> < (of_nat r + 1 :: rat)"
    using dY by (simp add: mult.assoc)
  then have "2 * \<bar>d\<bar> \<le> int r" by linarith
  then have "of_nat r * \<bar>of_int n - Y\<bar> \<le> of_nat r * (1 / 2)"
    using dY by simp
  then show ?thesis
    using R unfolding Y_def by (simp add: mult_le_cancel_left_pos)
qed

lemma fl32_zero [simp]: "fl32 0 = 0"
  by (simp add: fl32_def)

lemma f32_of_rat_zero [simp]: "f32_of_rat 0 = F32 0"
  by (simp add: f32_of_rat_def)

lemma fl32_range:
  assumes "power_int 2 (-126) \<le> x" and "x \<le> 2 ^ 100"
  shows "\<bar>fl32 x - x\<bar> \<le> x / 2 ^ 24" and "f32_of_rat x = F32 (fl32 x)"
proof -
  have "0 < power_int (2::rat) (-126)" by simp
  then have x0: "0 < x" using assms(1) by linarith
  show e: "\<bar>fl32 x - x\<bar> \<le> x / 2 ^ 24"
    using fl32_error[of x] assms x0 by simp
  have u: "fl32 x - x \<le> x / 2 ^ 24" "x - fl32 x \<le> x / 2 ^ 24"
    using abs_le_D1[OF e] abs_le_D2[OF e] by simp_all
  have "0 < fl32 x" using u(2) x0 by (simp add: field_simps)
  moreover have "fl32 x < 2 ^ 128" using u(1) assms(2) by (simp; linarith)
  moreover have "power_int (2::rat) 128 = 2 ^ 128" by simp
  ultimately have "fl32 x < power_int 2 128" "- power_int 2 128 < fl32 x"
    by linarith+
  then show "f32_of_rat x = F32 (fl32 x)"
    by (simp add: f32_of_rat_def Let_def)
qed

text \<open>Rounding an approximation \<open>p\<close> of \<open>Y\<close> that is itself within one rounding error of
  \<open>Y\<close>: the two errors add up to at most three units of \<open>2^-24\<close> relative to \<open>Y\<close>.\<close>

lemma fl32_compose_error:
  fixes p Y :: rat
  assumes pY: "\<bar>p - Y\<bar> \<le> Y / 2 ^ 24" and lo: "1 / 2 \<le> p" and hi: "p \<le> 2 ^ 20" and Y0: "0 \<le> Y"
  shows "\<bar>fl32 p - Y\<bar> \<le> 3 * Y / 2 ^ 24" and "\<bar>fl32 p\<bar> \<le> 2 ^ 30"
    and "f32_of_rat p = F32 (fl32 p)"
proof -
  have p126: "power_int (2::rat) (-126) \<le> 1 / 2" by (simp add: power_int_minus)
  have pe: "\<bar>fl32 p - p\<bar> \<le> p / 2 ^ 24" and pf: "f32_of_rat p = F32 (fl32 p)"
    using fl32_range[of p] lo hi p126 by simp_all
  have e: "(2::rat) ^ 24 = 16777216" "(2::rat) ^ 20 = 1048576" "(2::rat) ^ 30 = 1073741824"
    by simp_all
  have l: "fl32 p - p \<le> p / 16777216" "p - fl32 p \<le> p / 16777216"
    "p - Y \<le> Y / 16777216" "Y - p \<le> Y / 16777216"
    using abs_le_D1 [OF pe] abs_le_D2 [OF pe] abs_le_D1 [OF pY] abs_le_D2 [OF pY]
    unfolding e by simp_all
  show "\<bar>fl32 p - Y\<bar> \<le> 3 * Y / 2 ^ 24"
    unfolding e abs_le_iff using l Y0 lo by (intro conjI) linarith+
  show "\<bar>fl32 p\<bar> \<le> 2 ^ 30"
    unfolding e abs_le_iff using l lo hi unfolding e by (intro conjI) linarith+
  show "f32_of_rat p = F32 (fl32 p)" by (rule pf)
qed

lemma uint_saturate_u8: "uint (saturate_u8 n) = min 255 (max 0 n)"
  unfolding saturate_u8_def by (simp add: uint_word_of_int_eq take_bit_int_eq_self)

lemma cv_round_small:
  assumes "\<bar>x\<bar> \<le> 2 ^ 30"
  shows "cv_round (F32 x) = round_even x"
proof -
  have "\<bar>of_int (round_even x) - x\<bar> \<le> 1 / 2" by (rule round_even_error)
  then have "\<bar>(of_int (round_even x) :: rat)\<bar> < 2 ^ 31" using assms by (simp; linarith)
  then have "\<bar>round_even x\<bar> < 2 ^ 31"
    by (metis of_int_abs of_int_less_iff of_int_numeral of_int_power)
  then show ?thesis by (simp add: Let_def abs_less_iff)
qed

lemma uint_near:
  assumes "\<bar>of_int (uint b) - of_int n :: rat\<bar> \<le> 1 / 2"
  shows "uint b = n"
proof -
  have "(of_int \<bar>uint b - n\<bar> :: rat) \<le> 1 / 2"
    using assms by (simp only: of_int_diff [symmetric] of_int_abs [symmetric])
  then have "(of_int \<bar>uint b - n\<bar> :: rat) < of_int 1" by simp
  then have "\<bar>uint b - n\<bar> < 1" by (simp only: of_int_less_iff)
  then show ?thesis by simp
qed

end
