(* ===== verification/Relevel.thy ===== *)
theory Relevel
  imports Pyramid Float32
begin

text \<open>
  \<open>MinMaxPyramid::Relevel(scale)\<close> (src/src/min_max_pyramid.cc, lines 121--145): the
  fallback for a scale outside \<open>[min_layer_, max_layer_]\<close>, the two reads of the stored
  images, the saturating \<open>uchar\<close> subtractions \<open>max_img - min_img\<close> and
  \<open>image_ - min_img\<close>, and the single-precision stretch \<open>zeroed_f.mul(255.f / range_f)\<close>
  converted back to \<open>CV_8U\<close>. Each OpenCV matrix operation is its own definition over a
  continuous result matrix; \<open>relevel_px\<close> is their composition on one element.
\<close>

subsection \<open>The OpenCV matrix operations\<close>

text \<open>\<open>saturate_cast<uchar>(a - b)\<close>, the element operation of \<open>cv::Mat\<close> subtraction.\<close>

definition sat_sub :: "byte \<Rightarrow> byte \<Rightarrow> byte" where
  "sat_sub a b = (if b \<le> a then a - b else 0)"

text \<open>\<open>a - b\<close> on two \<open>CV_8UC3\<close> matrices: a new continuous matrix, or the exception of
  \<open>cv::subtract\<close> when the sizes differ.\<close>

definition mat_sub :: "mat \<Rightarrow> mat \<Rightarrow> error + mat" where
  "mat_sub a b =
     (if rows a = rows b \<and> cols a = cols b
      then Inr \<lparr>rows = rows a, cols = cols a, step = 3 * cols a,
                data = mat_elems (\<lambda>i j c. sat_sub (mat_at a i j c) (mat_at b i j c)) (rows a) (cols a)\<rparr>
      else Inl Cv_size_mismatch)"

text \<open>A continuous \<open>CV_32FC3\<close> matrix.\<close>

record fmat =
  frows :: nat
  fcols :: nat
  fdata :: "f32 list"

text \<open>\<open>m.convertTo(f, CV_32F)\<close>.\<close>

definition convert_f32 :: "mat \<Rightarrow> fmat" where
  "convert_f32 m =
     \<lparr>frows = rows m, fcols = cols m,
      fdata = mat_elems (\<lambda>i j c. u8_to_f32 (mat_at m i j c)) (rows m) (cols m)\<rparr>"

text \<open>\<open>s / f\<close> for a scalar \<open>s\<close>: \<open>cv::divide(s, f)\<close>, element-wise IEEE division. The
  expression \<open>zeroed_f.mul(255.f / range_f)\<close> (line 142) is taken as written: this quotient
  matrix first, then the product, each rounded once.\<close>

definition fmat_recip :: "rat \<Rightarrow> fmat \<Rightarrow> fmat" where
  "fmat_recip s f = f\<lparr>fdata := map (f32_div (F32 s)) (fdata f)\<rparr>"

text \<open>\<open>a.mul(b)\<close>: element-wise product, or the exception when the sizes differ.\<close>

definition fmat_mul :: "fmat \<Rightarrow> fmat \<Rightarrow> error + fmat" where
  "fmat_mul a b =
     (if frows a = frows b \<and> fcols a = fcols b
      then Inr (a\<lparr>fdata := map2 f32_mul (fdata a) (fdata b)\<rparr>) else Inl Cv_size_mismatch)"

text \<open>\<open>f.convertTo(m, CV_8U)\<close> on a three-channel float matrix.\<close>

definition convert_u8 :: "fmat \<Rightarrow> mat" where
  "convert_u8 f = \<lparr>rows = frows f, cols = fcols f, step = 3 * fcols f, data = map f32_to_u8 (fdata f)\<rparr>"

subsection \<open>\<open>Relevel\<close>\<close>

text \<open>Lines 121--145. The unused \<open>output\<close> matrix of line 124 has no effect. Indexing
  \<open>max_images_\<close> (line 126) and \<open>min_images_\<close> (line 127) out of range is undefined
  behaviour, the error \<open>Vector_out_of_range\<close>.\<close>

definition relevel :: "pyramid \<Rightarrow> int \<Rightarrow> error + mat" where
  "relevel st scale =
     (if scale < min_layer st \<or> scale > max_layer st then Inr (image st)
      else
        let k = scale - min_layer st
        in if int (length (max_images st)) \<le> k then Inl Vector_out_of_range
           else if int (length (min_images st)) \<le> k then Inl Vector_out_of_range
           else
             let max_img = max_images st ! nat k;
                 min_img = min_images st ! nat k
             in case mat_sub max_img min_img of
                  Inl e \<Rightarrow> Inl e
                | Inr range_img \<Rightarrow>
                    (case mat_sub (image st) min_img of
                       Inl e \<Rightarrow> Inl e
                     | Inr zeroed \<Rightarrow>
                         (let zeroed_f = convert_f32 zeroed;
                              range_f = convert_f32 range_img
                          in case fmat_mul zeroed_f (fmat_recip 255 range_f) of
                               Inl e \<Rightarrow> Inl e
                             | Inr resultf \<Rightarrow> Inr (convert_u8 resultf))))"

text \<open>The computation of one output element from the zeroed value \<open>z\<close> and the range
  \<open>r\<close> of that element (lines 139--143).\<close>

definition relevel_px :: "byte \<Rightarrow> byte \<Rightarrow> byte" where
  "relevel_px z r = f32_to_u8 (f32_mul (u8_to_f32 z) (f32_div (F32 255) (u8_to_f32 r)))"

text \<open>The reference of the stretch: the continuous matrix whose every element is
  \<open>relevel_px\<close> of the saturated differences \<open>image - min\<close> and \<open>max - min\<close> at that
  element.\<close>

definition relevel_ref :: "mat \<Rightarrow> mat \<Rightarrow> mat \<Rightarrow> mat" where
  "relevel_ref im mn mx =
     \<lparr>rows = rows im, cols = cols im, step = 3 * cols im,
      data = mat_elems (\<lambda>i j c. relevel_px (sat_sub (mat_at im i j c) (mat_at mn i j c))
                                          (sat_sub (mat_at mx i j c) (mat_at mn i j c)))
               (rows im) (cols im)\<rparr>"

text \<open>The expected output of test RelevelScalesImagePixels
  (src/src/min_max_pyramid_test.cc).\<close>

definition test_out_4x4 :: mat where
  "test_out_4x4 = mat_of_pixels
     [[(0, 0, 0), (0, 0, 0), (0, 0, 0), (0, 0, 0)],
      [(0, 0, 0), (0, 0, 0), (255, 255, 255), (255, 255, 255)],
      [(255, 255, 255), (255, 255, 255), (255, 255, 255), (255, 255, 255)],
      [(0, 0, 0), (0, 0, 0), (255, 255, 255), (255, 255, 255)]]"

text \<open>A one-pixel pyramid with a single level whose three channels exercise a half-way
  value, a full range and an empty range.\<close>

definition relevel_demo :: pyramid where
  "relevel_demo =
     \<lparr>image = mat_of_pixels [[(1, 3, 200)]], max_layer = 0, min_layer = 0,
      min_images = [mat_of_pixels [[(0, 0, 100)]]], max_images = [mat_of_pixels [[(2, 3, 100)]]]\<rparr>"

text \<open>A one-pixel pyramid whose pixel lies below its local range in channel 0 and above it
  in channel 1.\<close>

definition relevel_clamp_demo :: pyramid where
  "relevel_clamp_demo =
     \<lparr>image = mat_of_pixels [[(0, 9, 0)]], max_layer = 0, min_layer = 0,
      min_images = [mat_of_pixels [[(4, 2, 0)]]], max_images = [mat_of_pixels [[(6, 5, 0)]]]\<rparr>"

subsection \<open>One element\<close>

lemma relevel_px_zero_range: "relevel_px z 0 = 0"
  by (simp add: relevel_px_def u8_to_f32_def f32_inf_def f32_to_u8_def saturate_u8_def int_min_def)

lemma relevel_px_value:
  assumes r: "0 < unat r"
  shows "\<exists>p. relevel_px z r = saturate_u8 (round_even p) \<and> \<bar>p\<bar> \<le> 2 ^ 30 \<and>
     \<bar>p - of_nat (unat z) * 255 / of_nat (unat r)\<bar> \<le> 3 * (of_nat (unat z) * 255 / of_nat (unat r)) / 2 ^ 24"
proof -
  define zn where "zn = unat z"
  define rn where "rn = unat r"
  have zb: "zn \<le> 255" and rb: "rn \<le> 255" and r0: "0 < rn"
    using unat_byte_le[of z] unat_byte_le[of r] r unfolding zn_def rn_def by simp_all
  define q :: rat where "q = 255 / of_nat rn"
  have q1: "1 \<le> q" "q \<le> 255" using r0 rb by (simp_all add: q_def field_simps)
  have p126: "power_int (2::rat) (-126) \<le> 1 / 2" by (simp add: power_int_minus)
  have qe: "\<bar>fl32 q - q\<bar> \<le> q / 2 ^ 24" and qf: "f32_of_rat q = F32 (fl32 q)"
    using fl32_range[of q] q1 p126 by simp_all
  have div: "f32_div (F32 255) (u8_to_f32 r) = F32 (fl32 q)"
  proof -
    have "(of_nat rn :: rat) \<noteq> 0" using r0 by simp
    then show ?thesis using qf by (simp add: u8_to_f32_def rn_def q_def)
  qed
  define p where "p = of_nat zn * fl32 q"
  define Y where "Y = of_nat zn * q"
  have Y: "Y = of_nat zn * 255 / of_nat rn" by (simp add: Y_def q_def)
  have pY: "\<bar>p - Y\<bar> \<le> Y / 2 ^ 24"
  proof -
    have "\<bar>p - Y\<bar> = of_nat zn * \<bar>fl32 q - q\<bar>"
      by (simp add: p_def Y_def abs_mult flip: right_diff_distrib)
    also have "\<dots> \<le> of_nat zn * (q / 2 ^ 24)" by (rule mult_left_mono [OF qe]) simp
    finally show ?thesis by (simp add: Y_def)
  qed
  have z255: "(of_nat zn :: rat) \<le> 255" using zb by simp
  have Yb: "0 \<le> Y" "Y \<le> 255 * 255"
    using q1 by (simp add: Y_def) (unfold Y_def, rule mult_mono [OF z255 q1(2)], use q1 in simp_all)
  show ?thesis
  proof (cases "zn = 0")
    case True
    then show ?thesis
      unfolding relevel_px_def div
      by (intro exI [of _ 0]) (simp add: u8_to_f32_def zn_def f32_to_u8_def round_even_def)
  next
    case False
    have "fl32 q - q \<le> q / 16777216" "q - fl32 q \<le> q / 16777216"
      using abs_le_D1 [OF qe] abs_le_D2 [OF qe] by simp_all
    then have fq: "1 / 2 \<le> fl32 q" "fl32 q \<le> 256"
      using q1 by linarith+
    have z1: "(1::rat) \<le> of_nat zn" using False by simp
    have pb: "1 / 2 \<le> p" "p \<le> 2 ^ 20"
      using mult_mono [OF z1 fq(1)] mult_mono [OF z255 fq(2)] fq by (simp_all add: p_def)
    note c = fl32_compose_error [OF pY pb Yb(1)]
    note err = c(1) and big = c(2) and pf = c(3)
    have "relevel_px z r = saturate_u8 (round_even (fl32 p))"
      unfolding relevel_px_def div f32_to_u8_def using pf cv_round_small [OF big]
      by (simp add: u8_to_f32_def p_def zn_def)
    with err big show ?thesis unfolding Y zn_def rn_def by blast
  qed
qed

lemma relevel_px_bound:
  assumes r: "0 < unat r"
  shows "\<bar>of_int (uint (relevel_px z r)) - min 255 (of_nat (unat z) * 255 / of_nat (unat r))\<bar> \<le> (1 / 2 :: rat)"
proof -
  define zn where "zn = unat z"
  define rn where "rn = unat r"
  define Y :: rat where "Y = of_nat zn * 255 / of_nat rn"
  have zb: "zn \<le> 255" and rb: "rn \<le> 255" and r0: "0 < rn"
    using unat_byte_le[of z] unat_byte_le[of r] r unfolding zn_def rn_def by simp_all
  have Yr: "Y * of_nat rn = 255 * of_nat zn" using r0 by (simp add: Y_def)
  have Y0: "0 \<le> Y" by (simp add: Y_def)
  have "Y \<le> of_nat zn * 255" unfolding Y_def using r0 by (simp add: divide_le_eq mult_le_cancel_left1)
  then have Yb: "Y \<le> 65025" using zb by simp
  obtain p where px: "relevel_px z r = saturate_u8 (round_even p)" and pb: "\<bar>p\<bar> \<le> 2 ^ 30"
    and pY: "\<bar>p - Y\<bar> \<le> 3 * Y / 2 ^ 24"
    using relevel_px_value [OF r] unfolding Y_def zn_def rn_def by blast
  define n where "n = round_even p"
  have np: "\<bar>of_int n - p\<bar> \<le> 1 / 2" unfolding n_def by (rule round_even_error)
  have u: "uint (relevel_px z r) = min 255 (max 0 n)" by (simp add: px n_def uint_saturate_u8)
  have pY': "p - Y \<le> 3 * Y / 16777216" "Y - p \<le> 3 * Y / 16777216"
    using abs_le_D1 [OF pY] abs_le_D2 [OF pY] by simp_all
  show ?thesis
  proof (cases "zn \<le> rn")
    case True
    have "Y * of_nat rn \<le> 255 * of_nat rn" using True by (simp add: Yr)
    then have Y255: "Y \<le> 255" using r0 by simp
    have "(1::rat) / 510 \<le> 1 / (2 * of_nat rn)"
      using rb r0 by (simp add: divide_simps)
    moreover have "3 * Y / 16777216 < 1 / 510" using Y255 by linarith
    ultimately have "3 * Y / 16777216 < 1 / (2 * of_nat rn)" by linarith
    then have "\<bar>p - of_nat zn * 255 / of_nat rn\<bar> < 1 / (2 * of_nat rn)"
      using pY' unfolding Y_def[symmetric] abs_less_iff by linarith
    then have nY: "\<bar>of_int n - Y\<bar> \<le> 1 / 2"
      using round_near_ratio [OF r0 np] unfolding Y_def by blast
    then have "0 \<le> n" "n \<le> 255" using Y0 Y255 unfolding abs_le_iff by linarith+
    then show ?thesis using nY Y255 unfolding u zn_def[symmetric] rn_def[symmetric] Y_def[symmetric] by simp
  next
    case False
    have "256 * of_nat rn \<le> Y * of_nat rn" using False rb by (simp add: Yr)
    then have Y256: "256 \<le> Y" using r0 by simp
    have "255 < (of_int n :: rat)" using np pY' Y256 Yb unfolding abs_le_iff by linarith
    then have "255 < n" by simp
    then show ?thesis using Y256 unfolding u zn_def[symmetric] rn_def[symmetric] Y_def[symmetric] by simp
  qed
qed

lemma relevel_px_low: "relevel_px 0 r = 0"
proof (cases "unat r = 0")
  case True
  then show ?thesis using relevel_px_zero_range by (simp add: unat_eq_zero)
next
  case False
  have "\<bar>of_int (uint (relevel_px 0 r)) - min 255 (of_nat (unat (0::byte)) * 255 / of_nat (unat r))\<bar> \<le> (1 / 2 :: rat)"
    using False by (intro relevel_px_bound) simp
  then have "\<bar>of_int (uint (relevel_px 0 r)) - of_int 0\<bar> \<le> (1 / 2 :: rat)"
    by (simp only: unat_0 of_nat_0 mult_zero_left div_0 min_def) simp
  then have "uint (relevel_px 0 r) = 0" by (rule uint_near)
  then show ?thesis by (simp only: uint_0_iff)
qed

text \<open>A zeroed value at or above the range is stretched to at least 255 and saturates.\<close>

lemma relevel_px_above:
  assumes r: "0 < unat r" and zr: "unat r \<le> unat z"
  shows "relevel_px z r = 255"
proof -
  have "(of_nat (unat r) :: rat) * 255 \<le> of_nat (unat z) * 255"
    by (rule mult_right_mono [OF of_nat_mono [OF zr]]) simp
  moreover have rpos: "(0::rat) < of_nat (unat r)" using r by (simp only: of_nat_0_less_iff)
  ultimately have "(255::rat) \<le> of_nat (unat z) * 255 / of_nat (unat r)"
    by (subst pos_le_divide_eq [OF rpos]) (simp only: mult.commute)
  then have e: "min 255 (of_nat (unat z) * 255 / of_nat (unat r) :: rat) = of_int 255"
    by (simp only: min_absorb1 of_int_numeral)
  have "\<bar>of_int (uint (relevel_px z r)) - of_int 255 :: rat\<bar> \<le> 1 / 2"
    using relevel_px_bound [OF r, of z] unfolding e .
  then have "uint (relevel_px z r) = 255" by (rule uint_near)
  then show ?thesis by (simp add: word_uint_eq_iff)
qed

lemma relevel_px_high: "0 < unat r \<Longrightarrow> relevel_px r r = 255"
  using relevel_px_above [of r r] by (simp only: order_refl)

subsection \<open>The matrix pipeline computes the element-wise stretch\<close>

lemma convert_f32_mat_sub:
  assumes "mat_sub a b = Inr m"
  shows "convert_f32 m =
    \<lparr>frows = rows a, fcols = cols a,
     fdata = mat_elems (\<lambda>i j c. u8_to_f32 (sat_sub (mat_at a i j c) (mat_at b i j c))) (rows a) (cols a)\<rparr>"
proof -
  have m: "m = \<lparr>rows = rows a, cols = cols a, step = 3 * cols a,
                data = mat_elems (\<lambda>i j c. sat_sub (mat_at a i j c) (mat_at b i j c)) (rows a) (cols a)\<rparr>"
    using assms by (simp add: mat_sub_def split: if_splits)
  show ?thesis
    unfolding convert_f32_def
    by (simp add: m, intro mat_elems_cong) (simp add: mat_at_elems)
qed

lemma relevel_in_range:
  fixes st :: pyramid and scale :: int
  defines "k \<equiv> nat (scale - min_layer st)"
  assumes "min_layer st \<le> scale" and "scale \<le> max_layer st"
    and "k < length (min_images st)" and "k < length (max_images st)"
    and "rows (min_images st ! k) = rows (image st)" and "cols (min_images st ! k) = cols (image st)"
    and "rows (max_images st ! k) = rows (image st)" and "cols (max_images st ! k) = cols (image st)"
  shows "relevel st scale = Inr (relevel_ref (image st) (min_images st ! k) (max_images st ! k))"
proof -
  let ?mn = "min_images st ! k" and ?mx = "max_images st ! k" and ?im = "image st"
  obtain R where R: "mat_sub ?mx ?mn = Inr R" using assms(6-9) by (simp add: mat_sub_def)
  obtain Z where Z: "mat_sub ?im ?mn = Inr Z" using assms(6-9) by (simp add: mat_sub_def)
  have kk: "int k = scale - min_layer st" using assms(2) unfolding k_def by simp
  have mul: "fmat_mul (convert_f32 Z) (fmat_recip 255 (convert_f32 R)) =
    Inr \<lparr>frows = rows ?im, fcols = cols ?im,
         fdata = mat_elems (\<lambda>i j c. f32_mul (u8_to_f32 (sat_sub (mat_at ?im i j c) (mat_at ?mn i j c)))
                     (f32_div (F32 255) (u8_to_f32 (sat_sub (mat_at ?mx i j c) (mat_at ?mn i j c)))))
                   (rows ?im) (cols ?im)\<rparr>"
    using assms(8,9)
    by (simp add: convert_f32_mat_sub [OF R] convert_f32_mat_sub [OF Z] fmat_recip_def fmat_mul_def
          map_mat_elems map2_mat_elems)
  have "\<not> (scale < min_layer st \<or> scale > max_layer st)" using assms(2,3) by simp
  then show ?thesis
    using assms(4,5) R Z mul kk
    by (simp add: relevel_def Let_def k_def [symmetric] convert_u8_def relevel_ref_def map_mat_elems
          relevel_px_def)
qed

lemma relevel_inv_eq:
  assumes inv: "pyramid_inv st" and lo: "min_scale st \<le> scale" and hi: "scale \<le> max_scale st"
  shows "relevel st scale = Inr (relevel_ref (image st) (min_images st ! nat (scale - min_scale st))
                                   (max_images st ! nat (scale - min_scale st)))"
proof -
  define k where "k = nat (scale - min_layer st)"
  have kl: "k < length (min_images st)" "k < length (max_images st)"
    using inv lo hi unfolding pyramid_inv_def min_scale_def max_scale_def k_def by auto
  then have "min_images st ! k \<in> set (min_images st)" "max_images st ! k \<in> set (max_images st)"
    by simp_all
  then have d: "rows (min_images st ! k) = rows (image st)" "cols (min_images st ! k) = cols (image st)"
    "rows (max_images st ! k) = rows (image st)" "cols (max_images st ! k) = cols (image st)"
    using inv unfolding pyramid_inv_def by blast+
  show ?thesis
    using relevel_in_range [of st scale] lo hi kl d
    unfolding k_def min_scale_def max_scale_def by simp
qed

lemma test_level1_min: "pyr_level min_op test_in_4x4 1 = mat_of_pixels [[(100, 10, 100)]]"
  unfolding One_nat_def pyr_level_Suc pyr_level_0 by (simp add: test_in_4x4_def downsample_eval)
lemma test_level1_max: "pyr_level max_op test_in_4x4 1 = mat_of_pixels [[(200, 200, 120)]]"
  unfolding One_nat_def pyr_level_Suc pyr_level_0 by (simp add: test_in_4x4_def downsample_eval)

lemma relevel_demo_inv: "pyramid_inv relevel_demo"
  by (simp add: pyramid_inv_def relevel_demo_def mat_of_pixels_def continuous_def)

lemma relevel_demo_eq:
  "relevel relevel_demo 0 =
     Inr (relevel_ref (image relevel_demo) (min_images relevel_demo ! 0) (max_images relevel_demo ! 0))"
  using relevel_inv_eq [OF relevel_demo_inv, of 0]
  by (simp add: relevel_demo_def min_scale_def max_scale_def)

lemma relevel_clamp_demo_inv: "pyramid_inv relevel_clamp_demo"
  by (simp add: pyramid_inv_def relevel_clamp_demo_def mat_of_pixels_def continuous_def)

lemma relevel_clamp_demo_eq:
  "relevel relevel_clamp_demo 0 =
     Inr (relevel_ref (image relevel_clamp_demo) (min_images relevel_clamp_demo ! 0)
            (max_images relevel_clamp_demo ! 0))"
  using relevel_inv_eq [OF relevel_clamp_demo_inv, of 0]
  by (simp add: relevel_clamp_demo_def min_scale_def max_scale_def)

subsection \<open>One output element\<close>

lemma unat_sat_sub: "unat (sat_sub a b) = unat a - unat b"
  by (simp add: sat_sub_def unat_sub word_le_nat_alt)

lemma relevel_at:
  assumes "pyramid_inv st" and "min_scale st \<le> scale" and "scale \<le> max_scale st"
    and "relevel st scale = Inr out"
    and "i < rows (image st)" and "j < cols (image st)" and "c < 3"
  shows "mat_at out i j c =
    relevel_px (sat_sub (mat_at (image st) i j c) (mat_at (min_images st ! nat (scale - min_scale st)) i j c))
      (sat_sub (mat_at (max_images st ! nat (scale - min_scale st)) i j c)
               (mat_at (min_images st ! nat (scale - min_scale st)) i j c))"
proof -
  have "out = relevel_ref (image st) (min_images st ! nat (scale - min_scale st))
                                     (max_images st ! nat (scale - min_scale st))"
    using relevel_inv_eq [OF assms(1-3)] assms(4) by simp
  then show ?thesis
    using assms(5-7) by (simp add: relevel_ref_def mat_at_elems)
qed

lemma test_4x4_spec:
  "pyramid_spec rs test_in_4x4 =
     \<lparr>image = test_in_4x4, max_layer = 1, min_layer = 0,
      min_images = [rs 4 4 (pyr_level min_op test_in_4x4 0), rs 4 4 (mat_of_pixels [[(100, 10, 100)]])],
      max_images = [rs 4 4 (pyr_level max_op test_in_4x4 0), rs 4 4 (mat_of_pixels [[(200, 200, 120)]])]\<rparr>"
proof -
  have d: "rows test_in_4x4 = 4" "cols test_in_4x4 = 4" by (simp_all add: test_in_4x4_def mat_of_pixels_def)
  have c4: "ceillog2 4 = 2" using ceillog2_2_power [of 2] by simp
  have "log 2 (2 ^ 2) = real (2::nat)" by (rule log_pow_cancel) simp_all
  then have l4: "\<lfloor>log 2 (4::real)\<rfloor> = 2" by simp
  show ?thesis
    by (simp add: pyramid_spec_def Let_def d c4 l4 test_level1_min [unfolded One_nat_def]
          test_level1_max [unfolded One_nat_def] upt_rec)
qed

lemma test_4x4_preprocess:
  "preprocess rs test_in_4x4 st = Inr (pyramid_spec rs test_in_4x4)"
proof -
  have d: "rows test_in_4x4 = 4" "cols test_in_4x4 = 4" by (simp_all add: test_in_4x4_def mat_of_pixels_def)
  then show ?thesis by (intro preprocess_eq) simp_all
qed

lemma test_4x4_relevel:
  assumes rs: "resize_ok rs"
  shows "relevel (pyramid_spec rs test_in_4x4) 1 = Inr test_out_4x4"
proof -
  let ?T = "test_in_4x4"
  let ?L = "mat_of_pixels [[(100, 10, 100)]]" and ?H = "mat_of_pixels [[(200, 200, 120)]]"
  have d: "rows ?T = 4" "cols ?T = 4" by (simp_all add: test_in_4x4_def mat_of_pixels_def)
  have inv: "pyramid_inv (pyramid_spec rs ?T)"
    using d by (intro pyramid_spec_inv rs) simp_all
  have rel: "relevel (pyramid_spec rs ?T) 1 = Inr (relevel_ref ?T (rs 4 4 ?L) (rs 4 4 ?H))"
    using relevel_inv_eq [OF inv, of 1] by (simp add: test_4x4_spec min_scale_def max_scale_def)
  have one: "rows ?L = 1" "cols ?L = 1" "rows ?H = 1" "cols ?H = 1"
    by (simp_all add: mat_of_pixels_def)
  have px: "relevel_px 100 100 = 255" "relevel_px 190 190 = 255" "relevel_px 20 20 = 255"
    by (simp_all add: relevel_px_high)
  have "mat_elems (\<lambda>i j c. relevel_px (sat_sub (mat_at ?T i j c) (mat_at (rs 4 4 ?L) i j c))
          (sat_sub (mat_at (rs 4 4 ?H) i j c) (mat_at (rs 4 4 ?L) i j c))) 4 4 =
        mat_elems (\<lambda>i j c. relevel_px (sat_sub (mat_at ?T i j c) (mat_at ?L 0 0 c))
          (sat_sub (mat_at ?H 0 0 c) (mat_at ?L 0 0 c))) 4 4"
    using resize_ok_1x1 [OF rs one(1,2)] resize_ok_1x1 [OF rs one(3,4)]
    by (intro mat_elems_cong) simp
  also have "\<dots> = data test_out_4x4"
    by (simp add: mat_elems_def test_in_4x4_def test_out_4x4_def mat_of_pixels_def mat_at_def
          sat_sub_def px relevel_px_low upt_rec)
  finally show ?thesis
    using rel by (simp add: relevel_ref_def d test_out_4x4_def mat_of_pixels_def)
qed

subsection \<open>Properties\<close>

text \<open>C12: contrary to the comment on \<open>MinScale()\<close> (min_max_pyramid.h, lines 33--34), which
  says that smaller scales are treated the same as the min value, \<open>Relevel\<close> at a scale below
  \<open>MinScale()\<close> returns the original image, as it does above \<open>MaxScale()\<close>. On a pyramid built
  by \<open>PreProcess\<close> it therefore equals \<open>Relevel(MinScale())\<close> exactly when the stretch at the
  lowest level leaves the image unchanged.\<close>

theorem relevel_fallback:
  assumes "pyramid_inv st" and "scale < min_scale st \<or> max_scale st < scale"
  shows "relevel st scale = Inr (image st) \<and>
         (relevel st scale = relevel st (min_scale st) \<longleftrightarrow>
            relevel_ref (image st) (min_images st ! 0) (max_images st ! 0) = image st)"
proof -
  have out: "relevel st scale = Inr (image st)"
    using assms(2) by (auto simp: relevel_def min_scale_def max_scale_def)
  have "min_scale st \<le> max_scale st"
    using assms(1) by (simp add: pyramid_inv_def min_scale_def max_scale_def)
  then have "relevel st (min_scale st) =
      Inr (relevel_ref (image st) (min_images st ! 0) (max_images st ! 0))"
    using relevel_inv_eq [OF assms(1), of "min_scale st"] by simp
  with out show ?thesis
    by auto
qed

theorem relevel_fallback_witness:
  "pyramid_inv relevel_clamp_demo \<and> (-1 < min_scale relevel_clamp_demo \<or> max_scale relevel_clamp_demo < -1) \<and>
   relevel relevel_clamp_demo (-1) = Inr (image relevel_clamp_demo) \<and>
   relevel relevel_clamp_demo (-1) \<noteq> relevel relevel_clamp_demo (min_scale relevel_clamp_demo)"
proof -
  let ?P = relevel_clamp_demo
  have sc: "min_scale ?P = 0" "max_scale ?P = 0"
    by (simp_all add: relevel_clamp_demo_def min_scale_def max_scale_def)
  have "relevel_px (sat_sub 9 2) (sat_sub 5 2) = 255"
    by (rule relevel_px_above) (simp_all add: sat_sub_def)
  then have "mat_at (relevel_ref (image ?P) (min_images ?P ! 0) (max_images ?P ! 0)) 0 0 1 = 255"
    by (simp add: relevel_ref_def relevel_clamp_demo_def mat_of_pixels_def mat_elems_def mat_at_def)
  moreover have "mat_at (image ?P) 0 0 1 = 9"
    by (simp add: relevel_clamp_demo_def mat_of_pixels_def mat_at_def)
  ultimately have ne: "relevel_ref (image ?P) (min_images ?P ! 0) (max_images ?P ! 0) \<noteq> image ?P"
    by auto
  have lt: "-1 < min_scale ?P"
    by (simp add: sc)
  have "relevel ?P (-1) = Inr (image ?P) \<and>
        (relevel ?P (-1) = relevel ?P (min_scale ?P) \<longleftrightarrow>
           relevel_ref (image ?P) (min_images ?P ! 0) (max_images ?P ! 0) = image ?P)"
    using lt by (intro relevel_fallback [OF relevel_clamp_demo_inv]) simp
  then show ?thesis
    using ne lt relevel_clamp_demo_inv by blast
qed

text \<open>C13: on a pyramid that satisfies the class invariant (as built by \<open>PreProcess\<close>), \<open>Relevel\<close> at every scale in \<open>[MinScale(), MaxScale()]\<close> reads its stored images in range, raises no size-mismatch exception and returns a continuous image of the original's size.\<close>

theorem relevel_total:
  assumes "pyramid_inv st" and "min_scale st \<le> scale" and "scale \<le> max_scale st"
  shows "\<exists>out. relevel st scale = Inr out \<and> rows out = rows (image st) \<and>
                cols out = cols (image st) \<and> continuous out"
  using relevel_inv_eq [OF assms] by (simp add: relevel_ref_def continuous_def length_mat_elems)

theorem relevel_total_witness:
  "pyramid_inv relevel_demo \<and> min_scale relevel_demo \<le> 0 \<and> 0 \<le> max_scale relevel_demo \<and>
   (\<exists>out. relevel relevel_demo 0 = Inr out \<and> rows out = rows (image relevel_demo) \<and>
          cols out = cols (image relevel_demo) \<and> continuous out)"
  using relevel_total [OF relevel_demo_inv, of 0] relevel_demo_inv
  by (simp add: relevel_demo_def min_scale_def max_scale_def)

text \<open>C14: at every element whose local maximum exceeds its local minimum, the output of \<open>Relevel\<close> is within one half of \<open>min(255, 255 * (v - min) / (max - min))\<close>, \<open>v - min\<close> saturated at 0: the single-precision pipeline rounds the exact linear stretch to nearest.\<close>

theorem relevel_stretch:
  assumes "pyramid_inv st" and "min_scale st \<le> scale" and "scale \<le> max_scale st"
    and "relevel st scale = Inr out"
    and "i < rows (image st)" and "j < cols (image st)" and "c < 3"
    and "mat_at (min_images st ! nat (scale - min_scale st)) i j c = mn"
    and "mat_at (max_images st ! nat (scale - min_scale st)) i j c = mx"
    and "mn < mx"
  shows "\<bar>of_int (uint (mat_at out i j c)) -
           min 255 (of_nat (unat (mat_at (image st) i j c) - unat mn) * 255 / of_nat (unat mx - unat mn))\<bar>
         \<le> (1 / 2 :: rat)"
proof -
  have r: "0 < unat (sat_sub mx mn)"
    using assms(10) by (simp add: unat_sat_sub word_less_nat_alt)
  show ?thesis
    using relevel_px_bound [OF r, of "sat_sub (mat_at (image st) i j c) mn"]
      relevel_at [OF assms(1-7)] assms(8,9) by (simp add: unat_sat_sub)
qed

theorem relevel_stretch_witness:
  "let out = relevel_ref (image relevel_demo) (min_images relevel_demo ! 0) (max_images relevel_demo ! 0)
   in pyramid_inv relevel_demo \<and> min_scale relevel_demo \<le> 0 \<and> 0 \<le> max_scale relevel_demo \<and>
      relevel relevel_demo 0 = Inr out \<and>
      0 < rows (image relevel_demo) \<and> 0 < cols (image relevel_demo) \<and> (0::nat) < 3 \<and>
      mat_at (min_images relevel_demo ! nat (0 - min_scale relevel_demo)) 0 0 0 = 0 \<and>
      mat_at (max_images relevel_demo ! nat (0 - min_scale relevel_demo)) 0 0 0 = 2 \<and> (0::byte) < 2 \<and>
      \<bar>of_int (uint (mat_at out 0 0 0)) -
         min 255 (of_nat (unat (mat_at (image relevel_demo) 0 0 0) - unat (0::byte)) * 255 /
                  of_nat (unat (2::byte) - unat (0::byte)))\<bar> \<le> (1 / 2 :: rat)"
proof -
  have d: "min_scale relevel_demo = 0" "max_scale relevel_demo = 0"
    "rows (image relevel_demo) = 1" "cols (image relevel_demo) = 1"
    "mat_at (min_images relevel_demo ! 0) 0 0 0 = 0" "mat_at (max_images relevel_demo ! 0) 0 0 0 = 2"
    by (simp_all add: relevel_demo_def min_scale_def max_scale_def mat_of_pixels_def mat_at_def)
  show ?thesis
    using relevel_stretch [OF relevel_demo_inv _ _ relevel_demo_eq, where i = 0 and j = 0 and c = 0 and mn = 0 and mx = 2] relevel_demo_inv
      relevel_demo_eq d by (simp add: Let_def)
qed

text \<open>C15: at every element where the local maximum does not exceed the local minimum, \<open>Relevel\<close> outputs 0 whatever the original value: \<open>255.f / 0\<close> is \<open>+inf\<close>, times the zeroed value it is \<open>+inf\<close> or NaN, and the x86 conversion to \<open>uchar\<close> maps both to 0.\<close>

theorem relevel_zero_range:
  assumes "pyramid_inv st" and "min_scale st \<le> scale" and "scale \<le> max_scale st"
    and "relevel st scale = Inr out"
    and "i < rows (image st)" and "j < cols (image st)" and "c < 3"
    and "mat_at (max_images st ! nat (scale - min_scale st)) i j c \<le>
         mat_at (min_images st ! nat (scale - min_scale st)) i j c"
  shows "mat_at out i j c = 0"
proof -
  have "sat_sub (mat_at (max_images st ! nat (scale - min_scale st)) i j c)
                (mat_at (min_images st ! nat (scale - min_scale st)) i j c) = 0"
    using assms(8) by (auto simp: sat_sub_def)
  then show ?thesis
    using relevel_at [OF assms(1-7)] by (simp add: relevel_px_zero_range)
qed

theorem relevel_zero_range_witness:
  "let out = relevel_ref (image relevel_demo) (min_images relevel_demo ! 0) (max_images relevel_demo ! 0)
   in pyramid_inv relevel_demo \<and> min_scale relevel_demo \<le> 0 \<and> 0 \<le> max_scale relevel_demo \<and>
      relevel relevel_demo 0 = Inr out \<and>
      0 < rows (image relevel_demo) \<and> 0 < cols (image relevel_demo) \<and> (2::nat) < 3 \<and>
      mat_at (max_images relevel_demo ! nat (0 - min_scale relevel_demo)) 0 0 2 \<le>
      mat_at (min_images relevel_demo ! nat (0 - min_scale relevel_demo)) 0 0 2 \<and>
      mat_at (image relevel_demo) 0 0 2 = 200 \<and> mat_at out 0 0 2 = 0"
proof -
  have d: "min_scale relevel_demo = 0" "max_scale relevel_demo = 0"
    "rows (image relevel_demo) = 1" "cols (image relevel_demo) = 1"
    "mat_at (min_images relevel_demo ! 0) 0 0 2 = 100" "mat_at (max_images relevel_demo ! 0) 0 0 2 = 100"
    "mat_at (image relevel_demo) 0 0 2 = 200"
    by (simp_all add: relevel_demo_def min_scale_def max_scale_def mat_of_pixels_def mat_at_def)
  show ?thesis
    using relevel_zero_range [OF relevel_demo_inv _ _ relevel_demo_eq, where i = 0 and j = 0 and c = 2] relevel_demo_inv
      relevel_demo_eq d by (simp add: Let_def)
qed

text \<open>C16: \<open>Relevel\<close> maps an element equal to its local minimum to 0, and an element equal to its local maximum to 255 when the maximum exceeds the minimum.\<close>

theorem relevel_ends:
  assumes "pyramid_inv st" and "min_scale st \<le> scale" and "scale \<le> max_scale st"
    and "relevel st scale = Inr out"
    and "i < rows (image st)" and "j < cols (image st)" and "c < 3"
    and "mat_at (min_images st ! nat (scale - min_scale st)) i j c = mn"
    and "mat_at (max_images st ! nat (scale - min_scale st)) i j c = mx"
  shows "(mat_at (image st) i j c = mn \<longrightarrow> mat_at out i j c = 0) \<and>
         (mat_at (image st) i j c = mx \<and> mn < mx \<longrightarrow> mat_at out i j c = 255)"
proof (intro conjI impI)
  assume "mat_at (image st) i j c = mn"
  then show "mat_at out i j c = 0"
    using relevel_at [OF assms(1-7)] assms(8) by (simp add: sat_sub_def relevel_px_low)
next
  assume h: "mat_at (image st) i j c = mx \<and> mn < mx"
  then have "0 < unat (sat_sub mx mn)" by (simp add: unat_sat_sub word_less_nat_alt)
  then show "mat_at out i j c = 255"
    using relevel_at [OF assms(1-7)] assms(8,9) h by (simp add: relevel_px_high)
qed

theorem relevel_ends_witness:
  "let out = relevel_ref (image relevel_demo) (min_images relevel_demo ! 0) (max_images relevel_demo ! 0)
   in pyramid_inv relevel_demo \<and> min_scale relevel_demo \<le> 0 \<and> 0 \<le> max_scale relevel_demo \<and>
      relevel relevel_demo 0 = Inr out \<and>
      0 < rows (image relevel_demo) \<and> 0 < cols (image relevel_demo) \<and> (1::nat) < 3 \<and>
      mat_at (min_images relevel_demo ! nat (0 - min_scale relevel_demo)) 0 0 1 = 0 \<and>
      mat_at (max_images relevel_demo ! nat (0 - min_scale relevel_demo)) 0 0 1 = 3 \<and>
      mat_at (image relevel_demo) 0 0 1 = 3 \<and> (0::byte) < 3 \<and> mat_at out 0 0 1 = 255"
proof -
  have d: "min_scale relevel_demo = 0" "max_scale relevel_demo = 0"
    "rows (image relevel_demo) = 1" "cols (image relevel_demo) = 1"
    "mat_at (min_images relevel_demo ! 0) 0 0 1 = 0" "mat_at (max_images relevel_demo ! 0) 0 0 1 = 3"
    "mat_at (image relevel_demo) 0 0 1 = 3"
    by (simp_all add: relevel_demo_def min_scale_def max_scale_def mat_of_pixels_def mat_at_def)
  show ?thesis
    using relevel_ends [OF relevel_demo_inv _ _ relevel_demo_eq, where i = 0 and j = 0 and c = 1 and mn = 0 and mx = 3] relevel_demo_inv
      relevel_demo_eq d by (simp add: Let_def)
qed

text \<open>C33: values outside the local range are clamped: a value below its local min gives 0, because \<open>image_ - min_img\<close> on \<open>uchar\<close> matrices saturates at 0 instead of wrapping around to a large byte, and a value above its local max (with max > min) gives 255, because the stretch exceeds 255 and the conversion saturates. Both happen in real pyramids, where the resized local min and max are blurred across block boundaries.\<close>

theorem relevel_clamps:
  assumes "pyramid_inv st" and "min_scale st \<le> scale" and "scale \<le> max_scale st"
    and "relevel st scale = Inr out"
    and "i < rows (image st)" and "j < cols (image st)" and "c < 3"
    and "mat_at (min_images st ! nat (scale - min_scale st)) i j c = mn"
    and "mat_at (max_images st ! nat (scale - min_scale st)) i j c = mx"
  shows "(mat_at (image st) i j c < mn \<longrightarrow> mat_at out i j c = 0) \<and>
         (mx < mat_at (image st) i j c \<and> mn < mx \<longrightarrow> mat_at out i j c = 255)"
proof (intro conjI impI)
  assume "mat_at (image st) i j c < mn"
  then have "sat_sub (mat_at (image st) i j c) mn = 0" by (auto simp: sat_sub_def)
  then show "mat_at out i j c = 0"
    using relevel_at [OF assms(1-7)] assms(8) by (simp add: relevel_px_low)
next
  assume h: "mx < mat_at (image st) i j c \<and> mn < mx"
  then have "0 < unat (sat_sub mx mn)" "unat (sat_sub mx mn) \<le> unat (sat_sub (mat_at (image st) i j c) mn)"
    by (auto simp: unat_sat_sub word_less_nat_alt intro!: diff_le_mono)
  then show "mat_at out i j c = 255"
    using relevel_at [OF assms(1-7)] assms(8,9) by (simp add: relevel_px_above)
qed

theorem relevel_clamps_witness:
  "let out = relevel_ref (image relevel_clamp_demo) (min_images relevel_clamp_demo ! 0)
               (max_images relevel_clamp_demo ! 0)
   in pyramid_inv relevel_clamp_demo \<and> min_scale relevel_clamp_demo \<le> 0 \<and> 0 \<le> max_scale relevel_clamp_demo \<and>
      relevel relevel_clamp_demo 0 = Inr out \<and>
      0 < rows (image relevel_clamp_demo) \<and> 0 < cols (image relevel_clamp_demo) \<and> (0::nat) < 3 \<and> (1::nat) < 3 \<and>
      mat_at (image relevel_clamp_demo) 0 0 0 < 4 \<and> mat_at out 0 0 0 = 0 \<and>
      (5::byte) < mat_at (image relevel_clamp_demo) 0 0 1 \<and> (2::byte) < 5 \<and> mat_at out 0 0 1 = 255"
proof -
  have d: "min_scale relevel_clamp_demo = 0" "max_scale relevel_clamp_demo = 0"
    "rows (image relevel_clamp_demo) = 1" "cols (image relevel_clamp_demo) = 1"
    "mat_at (min_images relevel_clamp_demo ! 0) 0 0 0 = 4" "mat_at (max_images relevel_clamp_demo ! 0) 0 0 0 = 6"
    "mat_at (min_images relevel_clamp_demo ! 0) 0 0 1 = 2" "mat_at (max_images relevel_clamp_demo ! 0) 0 0 1 = 5"
    "mat_at (image relevel_clamp_demo) 0 0 0 = 0" "mat_at (image relevel_clamp_demo) 0 0 1 = 9"
    by (simp_all add: relevel_clamp_demo_def min_scale_def max_scale_def mat_of_pixels_def mat_at_def)
  show ?thesis
    using relevel_clamps [OF relevel_clamp_demo_inv _ _ relevel_clamp_demo_eq, where i = 0 and j = 0 and c = 0
        and mn = 4 and mx = 6]
      relevel_clamps [OF relevel_clamp_demo_inv _ _ relevel_clamp_demo_eq, where i = 0 and j = 0 and c = 1
        and mn = 2 and mx = 5]
      relevel_clamp_demo_inv relevel_clamp_demo_eq d by (simp add: Let_def)
qed

text \<open>C17: on a default-constructed \<open>MinMaxPyramid\<close> (no \<open>PreProcess\<close> yet), \<open>MinScale() = 4\<close> and \<open>MaxScale() = 50\<close>, and \<open>Relevel\<close> at any scale between them indexes the empty \<open>max_images_\<close> out of range.\<close>

theorem relevel_uninitialised:
  "4 \<le> scale \<Longrightarrow> scale \<le> 50 \<Longrightarrow> relevel pyramid_init scale = Inl Vector_out_of_range"
  by (simp add: relevel_def pyramid_init_def)

theorem relevel_uninitialised_witness:
  "4 \<le> (4::int) \<and> (4::int) \<le> 50 \<and> relevel pyramid_init 4 = Inl Vector_out_of_range"
  using relevel_uninitialised [of 4] by simp

end
