(* ===== verification/FileDialog.thy ===== *)
theory FileDialog
  imports Prelude
begin

text \<open>
  The file dialogs of the editor: Qt's \<open>QFileDialog\<close> as far as the program configures and
  reads it, and \<open>initializeImageFileDialog\<close> (src/src/editor.cc, lines 44--59), which sets
  the starting directory of the first dialog of the run only (a function-static flag) and
  gives save dialogs the default suffix "jpg". A dialog is its starting directory
  (\<open>None\<close>: Qt's default, the last visited directory), its accept mode and its default
  suffix; the name the user chooses becomes \<open>selectedFiles().constFirst()\<close> after Qt adds
  the default suffix.
\<close>

datatype accept_mode = Accept_open | Accept_save

record file_dialog =
  dlg_directory :: "string option"
  dlg_accept_mode :: accept_mode
  dlg_default_suffix :: string

text \<open>\<open>QFileDialog dialog(this, caption)\<close>: no directory of its own, \<open>AcceptOpen\<close>, no default
  suffix.\<close>

definition file_dialog_new :: file_dialog where
  "file_dialog_new = \<lparr>dlg_directory = None, dlg_accept_mode = Accept_open, dlg_default_suffix = []\<rparr>"

text \<open>\<open>initializeImageFileDialog(dialog, acceptMode)\<close> (lines 44--59), with the flag
  \<open>firstDialog\<close> passed in and returned, and the environment's
  \<open>QStandardPaths::standardLocations(PicturesLocation)\<close> and \<open>QDir::currentPath()\<close>.\<close>

definition init_image_file_dialog ::
  "string list \<Rightarrow> string \<Rightarrow> bool \<Rightarrow> file_dialog \<Rightarrow> accept_mode \<Rightarrow> bool \<times> file_dialog" where
  "init_image_file_dialog pictures_locations current_path first_dialog dialog accept =
     (let (first_dialog, dialog) =
            (if first_dialog
             then (False, dialog\<lparr>dlg_directory :=
                     Some (if pictures_locations = [] then current_path else last pictures_locations)\<rparr>)
             else (first_dialog, dialog));
          dialog = dialog\<lparr>dlg_accept_mode := accept\<rparr>
      in (first_dialog,
          if accept = Accept_save then dialog\<lparr>dlg_default_suffix := ''jpg''\<rparr> else dialog))"

text \<open>\<open>selectedFiles()\<close> of an accepted dialog (Qt's \<open>addDefaultSuffixToFiles\<close>): when a
  default suffix is set and the chosen path contains no dot, a dot and the suffix are
  appended. The test is on the whole path, directories included.\<close>

definition selected_file :: "file_dialog \<Rightarrow> string \<Rightarrow> string" where
  "selected_file dialog name =
     (if dlg_default_suffix dialog \<noteq> [] \<and> CHR ''.'' \<notin> set name
      then name @ ''.'' @ dlg_default_suffix dialog else name)"

text \<open>The directory the first dialog of a run starts in.\<close>

definition first_directory :: "string list \<Rightarrow> string \<Rightarrow> string" where
  "first_directory pictures_locations current_path =
     (if pictures_locations = [] then current_path else last pictures_locations)"

subsection \<open>Lemmas\<close>

lemma init_image_file_dialog_eq:
  "init_image_file_dialog pl cp fd d a =
     (False, d\<lparr>dlg_directory := (if fd then Some (first_directory pl cp) else dlg_directory d),
               dlg_accept_mode := a,
               dlg_default_suffix := (if a = Accept_save then ''jpg'' else dlg_default_suffix d)\<rparr>)"
  by (cases fd; cases a) (simp_all add: init_image_file_dialog_def first_directory_def)

lemma init_new_dialog [simp]:
  "init_image_file_dialog pl cp fd file_dialog_new a =
     (False, \<lparr>dlg_directory = (if fd then Some (first_directory pl cp) else None), dlg_accept_mode = a,
              dlg_default_suffix = (if a = Accept_save then ''jpg'' else [])\<rparr>)"
  by (simp add: init_image_file_dialog_eq file_dialog_new_def)

lemma selected_file_no_suffix [simp]: "dlg_default_suffix d = [] \<Longrightarrow> selected_file d f = f"
  by (simp add: selected_file_def)

lemma selected_file_jpg:
  "dlg_default_suffix d = ''jpg'' \<Longrightarrow>
   selected_file d f = (if CHR ''.'' \<in> set f then f else f @ ''.jpg'')"
  by (simp add: selected_file_def)

lemma selected_file_idem: "selected_file d (selected_file d f) = selected_file d f"
  by (simp add: selected_file_def)

end
