(* ===== verification/Editor.thy ===== *)
theory Editor
  imports Relevel FileDialog
begin

text \<open>
  The Qt front end (src/src/editor.h, src/src/editor.cc) and the command line
  (src/src/main.cc) as a deterministic state machine. The state is the \<open>Editor\<close> object
  with the \<open>MinMaxPyramid\<close> it drives; an event is one user action the Qt event loop
  delivers (a menu action with the answers given to its file dialog, a key press, a move
  of the locality slider). The environment holds what the program only calls: the image
  decoder \<open>cv::imread\<close>, whether \<open>QImageWriter\<close> succeeds on a file name, and
  \<open>cv::resize\<close>. Qt's \<open>QSlider\<close> is modelled by its range and value and the
  \<open>valueChanged\<close> signal it emits synchronously when \<open>setRange\<close> or \<open>setValue\<close> changes the
  value; the slot connected to it is \<open>localitySliderChanged\<close>. Dialog boxes, window
  geometry, pixmaps and the status bar's rendering are not state of the model.
\<close>

subsection \<open>The locality slider (\<open>QAbstractSlider\<close>)\<close>

record slider =
  smin :: int
  smax :: int
  sval :: int

text \<open>\<open>QAbstractSlider::setValue\<close>: the value is bounded to the range; \<open>valueChanged\<close> is
  emitted, with the new value, only when the value changes.\<close>

definition slider_set_value :: "int \<Rightarrow> slider \<Rightarrow> slider \<times> int option" where
  "slider_set_value v s =
     (let v' = max (smin s) (min (smax s) v)
      in if v' = sval s then (s, None) else (s\<lparr>sval := v'\<rparr>, Some v'))"

text \<open>\<open>QAbstractSlider::setRange\<close>: the maximum is raised to the minimum if needed; when the
  range changes the current value is bounded again through \<open>setValue\<close>.\<close>

definition slider_set_range :: "int \<Rightarrow> int \<Rightarrow> slider \<Rightarrow> slider \<times> int option" where
  "slider_set_range lo hi s =
     (if smin s = lo \<and> smax s = max lo hi then (s, None)
      else slider_set_value (sval s) (s\<lparr>smin := lo, smax := max lo hi\<rparr>))"

subsection \<open>State, environment and events\<close>

text \<open>The members of class \<open>Editor\<close> (editor.h, lines 37--56), the pyramid it points to,
  and the observable effects: the window title, whether the window is closed, the files
  written and the last status message. \<open>q_image\<close> is the \<open>QImage image_\<close> shown and
  saved; it views the bytes of \<open>cv_image_\<close> it was made from. \<open>first_dialog\<close> is the
  function-static \<open>firstDialog\<close> of \<open>initializeImageFileDialog\<close> (editor.cc, line 46),
  global to the run, and \<open>dialogs\<close> the file dialogs shown so far, in order.\<close>

record editor =
  batch_mode :: bool
  batch_input_file :: string
  batch_output_file :: string
  pyr :: pyramid
  cv_image :: mat
  q_image :: mat
  locality_slider :: slider
  save_enabled :: bool
  view_visible :: bool
  window_title :: string
  closed :: bool
  written :: "(string \<times> mat) list"
  status_message :: string
  first_dialog :: bool
  dialogs :: "file_dialog list"

record env =
  imread :: "string \<Rightarrow> mat"
  write_ok :: "string \<Rightarrow> bool"
  env_resize :: resize_fn
  pictures_locations :: "string list"
  current_path :: string

datatype key = Key_Space | Key_Escape | Key_Other

text \<open>A menu action carries the answers to the file dialog it opens, one per round of
  its loop: \<open>Some f\<close> accepts file \<open>f\<close>, \<open>None\<close> cancels.\<close>

datatype event = Open "string option list" | Save "string option list" | Quit | Key key | Slide int

text \<open>\<open>cv::cvtColor(m, m, cv::COLOR_BGR2RGB)\<close> (editor.cc, line 97): the first and third
  channel of every pixel exchanged, into a continuous matrix.\<close>

definition bgr2rgb :: "mat \<Rightarrow> mat" where
  "bgr2rgb m =
     \<lparr>rows = rows m, cols = cols m, step = 3 * cols m,
      data = mat_elems (\<lambda>i j c. mat_at m i j (2 - c)) (rows m) (cols m)\<rparr>"

text \<open>\<open>cv::Mat::empty()\<close>: no elements.\<close>

definition mat_empty :: "mat \<Rightarrow> bool" where
  "mat_empty m \<longleftrightarrow> rows m = 0 \<or> cols m = 0"

subsection \<open>The editor's operations\<close>

text \<open>\<open>createActions\<close> (editor.cc, lines 131--164): the \<open>Save\<close> action starts disabled and
  the locality slider is created at 0 in \<open>[0, 100]\<close>, then connected to
  \<open>localitySliderChanged\<close> (the connection is \<open>slider_update\<close>).\<close>

definition create_actions :: "editor \<Rightarrow> editor" where
  "create_actions st = st\<lparr>save_enabled := False, locality_slider := \<lparr>smin = 0, smax = 100, sval = 0\<rparr>\<rparr>"

text \<open>The constructor (lines 20--41): title "UnderSee", the image view hidden, then
  \<open>createActions\<close>; the pyramid is \<open>main\<close>'s default-constructed \<open>MinMaxPyramid\<close>. The
  action and the slider do not exist before \<open>createActions\<close>; their fields start from
  placeholders that it overwrites.\<close>

definition editor_new :: editor where
  "editor_new =
     create_actions
       \<lparr>batch_mode = False, batch_input_file = [], batch_output_file = [], pyr = pyramid_init,
        cv_image = empty_mat, q_image = empty_mat,
        locality_slider = \<lparr>smin = 0, smax = 0, sval = 0\<rparr>,
        save_enabled = False, view_visible = False, window_title = ''UnderSee'', closed = False,
        written = [], status_message = [], first_dialog = True, dialogs = []\<rparr>"

text \<open>\<open>localitySliderChanged(value)\<close> (lines 166--175): \<open>Relevel(MaxScale() - value)\<close> becomes
  both \<open>cv_image_\<close> and the displayed \<open>image_\<close>.\<close>

definition slider_changed :: "editor \<Rightarrow> int \<Rightarrow> error + editor" where
  "slider_changed st v =
     (case relevel (pyr st) (max_scale (pyr st) - v) of
        Inl e \<Rightarrow> Inl e
      | Inr m \<Rightarrow> Inr (st\<lparr>cv_image := m, q_image := m\<rparr>))"

text \<open>A change of the slider and the synchronous call of the connected slot
  (lines 150--151).\<close>

definition slider_update :: "slider \<times> int option \<Rightarrow> editor \<Rightarrow> error + editor" where
  "slider_update r st =
     (case r of
        (s, None) \<Rightarrow> Inr (st\<lparr>locality_slider := s\<rparr>)
      | (s, Some v) \<Rightarrow> slider_changed (st\<lparr>locality_slider := s\<rparr>) v)"

text \<open>\<open>loadFile(fileName)\<close> (lines 84--113): an empty decode result shows a message and
  returns false; otherwise the image, converted to RGB, is pre-processed, the slider's
  range and value are reset (each may call \<open>localitySliderChanged\<close>), and the view shows
  \<open>cv_image_\<close> as it is after those calls.\<close>

definition load_file :: "env \<Rightarrow> string \<Rightarrow> editor \<Rightarrow> error + bool \<times> editor" where
  "load_file ev f st =
     (let image = imread ev f
      in if mat_empty image then Inr (False, st)
         else
           let st = st\<lparr>window_title := ''UnderSee - '' @ f, cv_image := bgr2rgb image\<rparr>
           in case preprocess (env_resize ev) (cv_image st) (pyr st) of
                Inl e \<Rightarrow> Inl e
              | Inr p \<Rightarrow>
                  (let st = st\<lparr>pyr := p\<rparr>
                   in case slider_update
                             (slider_set_range 0 (max_scale p - min_scale p) (locality_slider st)) st of
                        Inl e \<Rightarrow> Inl e
                      | Inr st \<Rightarrow>
                          (case slider_update (slider_set_value 0 (locality_slider st)) st of
                             Inl e \<Rightarrow> Inl e
                           | Inr st \<Rightarrow>
                               Inr (True, st\<lparr>q_image := cv_image st, save_enabled := True,
                                             view_visible := True\<rparr>))))"

text \<open>\<open>saveFile(fileName)\<close> (lines 115--129): \<open>image_\<close> is written, or a message box reports
  the failure.\<close>

definition save_file :: "env \<Rightarrow> string \<Rightarrow> editor \<Rightarrow> bool \<times> editor" where
  "save_file ev f st =
     (if write_ok ev f
      then (True, st\<lparr>written := written st @ [(f, q_image st)],
                     status_message := ''Wrote '' @ [CHR 0x22] @ f @ [CHR 0x22]\<rparr>)
      else (False, st))"

text \<open>The dialog loop of \<open>open()\<close> (lines 65--67): repeat while the dialog is accepted and
  the selected file fails to load. The answers are the user's, one per round of the loop
  (\<open>Some f\<close> accepts \<open>f\<close>, \<open>None\<close> cancels); when they run out the user has stopped
  answering and the loop is left.\<close>

fun open_loop :: "env \<Rightarrow> file_dialog \<Rightarrow> string option list \<Rightarrow> editor \<Rightarrow> error + editor" where
  "open_loop ev dialog [] st = Inr st"
| "open_loop ev dialog (None # _) st = Inr st"
| "open_loop ev dialog (Some f # fs) st =
     (case load_file ev (selected_file dialog f) st of
        Inl e \<Rightarrow> Inl e
      | Inr (True, st') \<Rightarrow> Inr st'
      | Inr (False, st') \<Rightarrow> open_loop ev dialog fs st')"

text \<open>\<open>open()\<close> (lines 61--73): a new dialog initialised for opening, its loop, and batch
  mode left in any case.\<close>

definition open_file :: "env \<Rightarrow> string option list \<Rightarrow> editor \<Rightarrow> error + editor" where
  "open_file ev answers st =
     (let (fd, dialog) = init_image_file_dialog (pictures_locations ev) (current_path ev)
                           (first_dialog st) file_dialog_new Accept_open;
          st = st\<lparr>first_dialog := fd, dialogs := dialogs st @ [dialog]\<rparr>
      in case open_loop ev dialog answers st of
           Inl e \<Rightarrow> Inl e
         | Inr st' \<Rightarrow> Inr (st'\<lparr>batch_mode := False\<rparr>))"

text \<open>The dialog loop of \<open>save()\<close> (lines 79--80).\<close>

fun save_loop :: "env \<Rightarrow> file_dialog \<Rightarrow> string option list \<Rightarrow> editor \<Rightarrow> editor" where
  "save_loop ev dialog [] st = st"
| "save_loop ev dialog (None # _) st = st"
| "save_loop ev dialog (Some f # fs) st =
     (case save_file ev (selected_file dialog f) st of
        (True, st') \<Rightarrow> st'
      | (False, st') \<Rightarrow> save_loop ev dialog fs st')"

text \<open>\<open>save()\<close> (lines 75--82): a new dialog initialised for saving, and its loop.\<close>

definition save :: "env \<Rightarrow> string option list \<Rightarrow> editor \<Rightarrow> editor" where
  "save ev answers st =
     (let (fd, dialog) = init_image_file_dialog (pictures_locations ev) (current_path ev)
                           (first_dialog st) file_dialog_new Accept_save;
          st = st\<lparr>first_dialog := fd, dialogs := dialogs st @ [dialog]\<rparr>
      in save_loop ev dialog answers st)"

text \<open>\<open>runAsBatch(in, out)\<close> (lines 177--183).\<close>

definition run_as_batch :: "env \<Rightarrow> string \<Rightarrow> string \<Rightarrow> editor \<Rightarrow> error + bool \<times> editor" where
  "run_as_batch ev in_file out_file st =
     load_file ev in_file (st\<lparr>batch_mode := True, batch_input_file := in_file, batch_output_file := out_file\<rparr>)"

text \<open>\<open>keyPressEvent\<close> (lines 185--195): in batch mode Space saves to the batch output and
  closes, Escape closes; any other key goes to \<open>QMainWindow\<close>, which ignores it.\<close>

definition key_press :: "env \<Rightarrow> key \<Rightarrow> editor \<Rightarrow> editor" where
  "key_press ev k st =
     (if batch_mode st \<and> k = Key_Space then (snd (save_file ev (batch_output_file st) st))\<lparr>closed := True\<rparr>
      else if batch_mode st \<and> k = Key_Escape then st\<lparr>closed := True\<rparr>
      else st)"

text \<open>One event. A closed window receives no more events; the slider can only be moved
  while the view that holds it is visible; the \<open>Save\<close> action only while it is enabled;
  \<open>Quit\<close> is the \<open>Exit\<close> action, \<open>QWidget::close\<close> (line 142).\<close>

fun editor_step :: "env \<Rightarrow> editor \<Rightarrow> event \<Rightarrow> error + editor" where
  "editor_step ev st e =
     (if closed st then Inr st
      else case e of
        Open answers \<Rightarrow> open_file ev answers st
      | Save answers \<Rightarrow> Inr (if save_enabled st then save ev answers st else st)
      | Quit \<Rightarrow> Inr (st\<lparr>closed := True\<rparr>)
      | Key k \<Rightarrow> Inr (key_press ev k st)
      | Slide v \<Rightarrow> (if view_visible st then slider_update (slider_set_value v (locality_slider st)) st
                    else Inr st))"

fun editor_run :: "env \<Rightarrow> editor \<Rightarrow> event list \<Rightarrow> error + editor" where
  "editor_run ev st [] = Inr st"
| "editor_run ev st (e # es) =
     (case editor_step ev st e of Inl err \<Rightarrow> Inl err | Inr st' \<Rightarrow> editor_run ev st' es)"

subsection \<open>\<open>main\<close>\<close>

datatype outcome = Exit int | Running editor

text \<open>\<open>main(argc, argv)\<close> (main.cc, lines 24--42), with \<open>args\<close> the arguments after the
  program name: two arguments start a batch run, which exits with status 1 when the input
  cannot be loaded; otherwise the window is shown and the event loop runs.\<close>

definition main_start :: "env \<Rightarrow> string list \<Rightarrow> error + outcome" where
  "main_start ev args =
     (if length args = 2 then
        (case run_as_batch ev (args ! 0) (args ! 1) editor_new of
           Inl e \<Rightarrow> Inl e
         | Inr (False, _) \<Rightarrow> Inr (Exit 1)
         | Inr (True, st) \<Rightarrow> Inr (Running st))
      else Inr (Running editor_new))"

text \<open>The states the program can reach: the editor \<open>main\<close> starts, and every state one
  event leads to from a reachable one.\<close>

inductive reachable :: "env \<Rightarrow> editor \<Rightarrow> bool" for ev :: env where
  start: "main_start ev args = Inr (Running st) \<Longrightarrow> reachable ev st"
| step: "reachable ev st \<Longrightarrow> editor_step ev st e = Inr st' \<Longrightarrow> reachable ev st'"

text \<open>What the environment promises: \<open>cv::imread\<close> returns an empty matrix or a
  continuous one with \<open>int\<close>-sized dimensions.\<close>

definition decoder_ok :: "env \<Rightarrow> bool" where
  "decoder_ok ev \<longleftrightarrow>
     (\<forall>f. mat_empty (imread ev f) \<or>
          (continuous (imread ev f) \<and> rows (imread ev f) < 2 ^ 31 \<and> cols (imread ev f) < 2 ^ 31))"

text \<open>The editor's invariant: the slider's value lies in its range, and once an image is
  shown the pyramid satisfies its class invariant and the slider spans
  \<open>[0, MaxScale() - MinScale()]\<close>.\<close>

definition slider_ok :: "slider \<Rightarrow> bool" where
  "slider_ok s \<longleftrightarrow> smin s \<le> sval s \<and> sval s \<le> smax s"

definition editor_inv :: "editor \<Rightarrow> bool" where
  "editor_inv st \<longleftrightarrow>
     slider_ok (locality_slider st) \<and>
     (view_visible st \<longrightarrow>
        pyramid_inv (pyr st) \<and> smin (locality_slider st) = 0 \<and>
        smax (locality_slider st) = max_scale (pyr st) - min_scale (pyr st))"

text \<open>An environment whose decoder returns, for every file name, the 4x4 image of test
  RelevelScalesImagePixels in OpenCV's BGR channel order, and whose writer always
  succeeds.\<close>

definition demo_env :: "resize_fn \<Rightarrow> env" where
  "demo_env rs = \<lparr>imread = (\<lambda>_. bgr2rgb test_in_4x4), write_ok = (\<lambda>_. True), env_resize = rs,
                  pictures_locations = [''/home/user/Pictures''], current_path = ''/home/user''\<rparr>"

text \<open>An editor showing the one-pixel demo pyramid of theory \<open>Relevel\<close>, its slider at 0
  in \<open>[0, 0]\<close>.\<close>

definition slide_demo :: editor where
  "slide_demo = editor_new\<lparr>pyr := relevel_demo, view_visible := True,
                             locality_slider := \<lparr>smin = 0, smax = 0, sval = 0\<rparr>\<rparr>"

subsection \<open>The invariant holds in every reachable state\<close>

lemma slider_set_value_ok:
  assumes "smin s \<le> smax s" and "slider_set_value v s = (s', em)"
  shows "smin s' = smin s \<and> smax s' = smax s \<and> slider_ok s' \<and> (\<forall>w. em = Some w \<longrightarrow> w = sval s')"
  using assms by (auto simp: slider_set_value_def slider_ok_def Let_def split: if_splits)

lemma slider_set_range_ok:
  assumes "slider_ok s" and "lo \<le> hi" and "slider_set_range lo hi s = (s', em)"
  shows "smin s' = lo \<and> smax s' = hi \<and> slider_ok s' \<and> (\<forall>w. em = Some w \<longrightarrow> w = sval s')"
proof (cases "smin s = lo \<and> smax s = max lo hi")
  case True
  then show ?thesis using assms by (simp add: slider_set_range_def)
next
  case False
  then have "slider_set_value (sval s) (s\<lparr>smin := lo, smax := max lo hi\<rparr>) = (s', em)"
    using assms(3) by (simp only: slider_set_range_def if_not_P [OF False] if_False)
  from slider_set_value_ok [OF _ this] show ?thesis using assms(2) by simp
qed

lemma slider_changed_ok:
  assumes "pyramid_inv (pyr st)" and "0 \<le> v" and "v \<le> max_scale (pyr st) - min_scale (pyr st)"
  shows "\<exists>m. slider_changed st v = Inr (st\<lparr>cv_image := m, q_image := m\<rparr>)"
proof -
  obtain m where "relevel (pyr st) (max_scale (pyr st) - v) = Inr m"
    using relevel_inv_eq [OF assms(1), of "max_scale (pyr st) - v"] assms(2,3) by simp
  then show ?thesis by (intro exI [of _ m]) (simp add: slider_changed_def)
qed

lemma slider_update_ok:
  assumes "pyramid_inv (pyr st)" and "\<forall>w. em = Some w \<longrightarrow> 0 \<le> w \<and> w \<le> max_scale (pyr st) - min_scale (pyr st)"
  shows "\<exists>m1 m2. slider_update (s, em) st = Inr (st\<lparr>locality_slider := s, cv_image := m1, q_image := m2\<rparr>)"
proof (cases em)
  case None
  then show ?thesis
    by (intro exI [of _ "cv_image st"] exI [of _ "q_image st"]) (simp add: slider_update_def)
next
  case (Some w)
  then show ?thesis
    using slider_changed_ok [of "st\<lparr>locality_slider := s\<rparr>" w] assms by (auto simp: slider_update_def)
qed

lemma bgr2rgb_dims [simp]: "rows (bgr2rgb m) = rows m" "cols (bgr2rgb m) = cols m"
  by (simp_all add: bgr2rgb_def)

lemma pyramid_inv_scales: "pyramid_inv p \<Longrightarrow> min_scale p \<le> max_scale p"
  by (simp add: pyramid_inv_def min_scale_def max_scale_def)

text \<open>A decoded image within the decoder's promise pre-processes into the abstract pyramid.\<close>

lemma decoder_preprocess:
  assumes "decoder_ok ev" and "\<not> mat_empty (imread ev f)"
  shows "preprocess rs (bgr2rgb (imread ev f)) p = Inr (pyramid_spec rs (bgr2rgb (imread ev f)))"
    and "0 < rows (bgr2rgb (imread ev f))" and "0 < cols (bgr2rgb (imread ev f))"
    and "max (rows (bgr2rgb (imread ev f))) (cols (bgr2rgb (imread ev f))) \<le> 2 ^ 49"
proof -
  have b: "rows (imread ev f) < 2 ^ 31" "cols (imread ev f) < 2 ^ 31"
    using assms unfolding decoder_ok_def by blast+
  have "(2::nat) ^ 31 \<le> 2 ^ 49" by simp
  then show dims: "0 < rows (bgr2rgb (imread ev f))" "0 < cols (bgr2rgb (imread ev f))"
    "max (rows (bgr2rgb (imread ev f))) (cols (bgr2rgb (imread ev f))) \<le> 2 ^ 49"
    using assms(2) b unfolding mat_empty_def by simp_all
  show "preprocess rs (bgr2rgb (imread ev f)) p = Inr (pyramid_spec rs (bgr2rgb (imread ev f)))"
    using dims by (rule preprocess_eq)
qed

lemma load_file_ok:
  assumes dec: "decoder_ok ev" and rs: "resize_ok (env_resize ev)"
    and sl: "slider_ok (locality_slider st)"
  shows "load_file ev f st = Inr (False, st) \<or>
    (\<exists>st'. load_file ev f st = Inr (True, st') \<and> editor_inv st' \<and> view_visible st' \<and>
       closed st' = closed st \<and> batch_mode st' = batch_mode st \<and>
       batch_output_file st' = batch_output_file st \<and> written st' = written st)"
proof (cases "mat_empty (imread ev f)")
  case True
  then show ?thesis by (simp add: load_file_def)
next
  case False
  define I where "I = bgr2rgb (imread ev f)"
  define p where "p = pyramid_spec (env_resize ev) I"
  note d = decoder_preprocess(2,4) [OF dec False, folded I_def]
  have pre: "preprocess (env_resize ev) I (pyr st) = Inr p"
    unfolding p_def I_def by (rule decoder_preprocess(1) [OF dec False])
  have inv: "pyramid_inv p" unfolding p_def using rs d by (rule pyramid_spec_inv)
  define n where "n = max_scale p - min_scale p"
  have n0: "0 \<le> n" using pyramid_inv_scales [OF inv] by (simp add: n_def)
  define title where "title = ''UnderSee - '' @ f"
  define st1 where "st1 = st\<lparr>window_title := title, cv_image := I\<rparr>\<lparr>pyr := p\<rparr>"
  obtain s1 em1 where r1: "slider_set_range 0 n (locality_slider st) = (s1, em1)" by fastforce
  have s1: "smin s1 = 0" "smax s1 = n" "slider_ok s1" "\<forall>w. em1 = Some w \<longrightarrow> w = sval s1"
    using slider_set_range_ok [OF sl n0 r1] by simp_all
  obtain m1 m2 where u1: "slider_update (s1, em1) st1 =
      Inr (st1\<lparr>locality_slider := s1, cv_image := m1, q_image := m2\<rparr>)"
    using slider_update_ok [of st1 em1 s1] inv s1 unfolding slider_ok_def n_def st1_def by auto
  define st2 where "st2 = st1\<lparr>locality_slider := s1, cv_image := m1, q_image := m2\<rparr>"
  obtain s2 em2 where r2: "slider_set_value 0 s1 = (s2, em2)" by fastforce
  have s2: "smin s2 = 0" "smax s2 = n" "slider_ok s2" "\<forall>w. em2 = Some w \<longrightarrow> w = sval s2"
    using slider_set_value_ok [OF _ r2] s1 n0 by simp_all
  obtain m3 m4 where u2: "slider_update (s2, em2) st2 =
      Inr (st2\<lparr>locality_slider := s2, cv_image := m3, q_image := m4\<rparr>)"
    using slider_update_ok [of st2 em2 s2] inv s2 unfolding slider_ok_def n_def st2_def st1_def by auto
  define st3 where "st3 = st2\<lparr>locality_slider := s2, cv_image := m3, q_image := m4\<rparr>"
  have ls: "locality_slider st1 = locality_slider st" "locality_slider st2 = s1"
    by (simp_all add: st1_def st2_def)
  have "load_file ev f st = Inr (True, st3\<lparr>q_image := cv_image st3, save_enabled := True, view_visible := True\<rparr>)"
    unfolding load_file_def Let_def title_def [symmetric] if_not_P [OF False] I_def [symmetric]
    using pre r1 r2 u1 u2 ls
    by (simp add: st1_def [symmetric] st2_def [symmetric] st3_def [symmetric] n_def [symmetric])
  moreover have "editor_inv (st3\<lparr>q_image := cv_image st3, save_enabled := True, view_visible := True\<rparr>)"
    using inv s2 by (simp add: editor_inv_def st3_def st2_def st1_def n_def)
  ultimately show ?thesis by (simp add: st3_def st2_def st1_def)
qed

lemma editor_inv_frame:
  "locality_slider st' = locality_slider st \<Longrightarrow> view_visible st' = view_visible st \<Longrightarrow>
   pyr st' = pyr st \<Longrightarrow> editor_inv st' = editor_inv st"
  by (simp add: editor_inv_def)

lemma editor_inv_slider: "editor_inv st \<Longrightarrow> slider_ok (locality_slider st)"
  by (simp add: editor_inv_def)

lemma open_loop_ok:
  assumes dec: "decoder_ok ev" and rs: "resize_ok (env_resize ev)"
  shows "editor_inv st \<Longrightarrow>
    \<exists>st'. open_loop ev dialog answers st = Inr st' \<and> editor_inv st' \<and> closed st' = closed st"
proof (induction answers arbitrary: st)
  case Nil
  then show ?case by simp
next
  case (Cons a answers)
  show ?case
  proof (cases a)
    case None
    then show ?thesis using Cons.prems by simp
  next
    case (Some f)
    from load_file_ok [OF dec rs editor_inv_slider [OF Cons.prems], of "selected_file dialog f"]
    consider (fail) "load_file ev (selected_file dialog f) st = Inr (False, st)"
      | (ok) st' where "load_file ev (selected_file dialog f) st = Inr (True, st')" "editor_inv st'"
          "closed st' = closed st"
      by blast
    then show ?thesis
    proof cases
      case fail
      then show ?thesis using Cons.IH [OF Cons.prems] Some by simp
    next
      case ok
      then show ?thesis using Some by simp
    qed
  qed
qed

lemma save_loop_frame:
  "locality_slider (save_loop ev d answers st) = locality_slider st \<and> pyr (save_loop ev d answers st) = pyr st \<and>
   view_visible (save_loop ev d answers st) = view_visible st \<and> closed (save_loop ev d answers st) = closed st"
  by (induction ev d answers st rule: save_loop.induct) (auto simp: save_file_def split: if_splits)

lemma save_frame:
  "locality_slider (save ev answers st) = locality_slider st \<and> pyr (save ev answers st) = pyr st \<and>
   view_visible (save ev answers st) = view_visible st \<and> closed (save ev answers st) = closed st"
  using save_loop_frame by (simp add: save_def init_image_file_dialog_eq)

lemma key_press_frame:
  "locality_slider (key_press ev k st) = locality_slider st \<and> pyr (key_press ev k st) = pyr st \<and>
   view_visible (key_press ev k st) = view_visible st"
  by (simp add: key_press_def save_file_def)

lemma slide_ok:
  assumes "editor_inv st" and "view_visible st"
  shows "\<exists>st'. slider_update (slider_set_value v (locality_slider st)) st = Inr st' \<and> editor_inv st'"
proof -
  obtain s em where r: "slider_set_value v (locality_slider st) = (s, em)" by fastforce
  have inv: "pyramid_inv (pyr st)" "smin (locality_slider st) = 0"
    "smax (locality_slider st) = max_scale (pyr st) - min_scale (pyr st)" "slider_ok (locality_slider st)"
    using assms unfolding editor_inv_def by simp_all
  then have s: "smin s = 0" "smax s = max_scale (pyr st) - min_scale (pyr st)" "slider_ok s"
    "\<forall>w. em = Some w \<longrightarrow> w = sval s"
    using slider_set_value_ok [OF _ r] unfolding slider_ok_def by auto
  then obtain m1 m2 where "slider_update (s, em) st = Inr (st\<lparr>locality_slider := s, cv_image := m1, q_image := m2\<rparr>)"
    using slider_update_ok [of st em s] inv(1) unfolding slider_ok_def by auto
  then show ?thesis
    using r s inv assms(2) by (simp add: editor_inv_def)
qed

lemma editor_step_ok:
  assumes dec: "decoder_ok ev" and rs: "resize_ok (env_resize ev)" and inv: "editor_inv st"
  shows "\<exists>st'. editor_step ev st e = Inr st' \<and> editor_inv st'"
proof (cases "closed st")
  case True
  then show ?thesis using inv by simp
next
  case False
  show ?thesis
  proof (cases e)
    case (Open answers)
    define d where "d = snd (init_image_file_dialog (pictures_locations ev) (current_path ev)
                           (first_dialog st) file_dialog_new Accept_open)"
    define st0 where "st0 = st\<lparr>first_dialog := False, dialogs := dialogs st @ [d]\<rparr>"
    have inv0: "editor_inv st0" using inv editor_inv_frame [of st0 st] by (simp add: st0_def)
    obtain st' where o: "open_loop ev d answers st0 = Inr st'" "editor_inv st'"
      using open_loop_ok [OF dec rs inv0, of d answers] by blast
    have "editor_inv (st'\<lparr>batch_mode := False\<rparr>)"
      using o(2) editor_inv_frame [of "st'\<lparr>batch_mode := False\<rparr>" st'] by simp
    then show ?thesis using Open False o(1)
      by (simp add: open_file_def init_image_file_dialog_eq d_def st0_def)
  next
    case (Save answers)
    define S where "S = (if save_enabled st then save ev answers st else st)"
    have "locality_slider S = locality_slider st" "view_visible S = view_visible st" "pyr S = pyr st"
      using save_frame [of ev answers st] unfolding S_def by simp_all
    then have "editor_inv S" using editor_inv_frame [of S st] inv by simp
    then show ?thesis using Save False by (simp add: S_def [symmetric])
  next
    case Quit
    have "editor_inv (st\<lparr>closed := True\<rparr>)"
      using inv editor_inv_frame [of "st\<lparr>closed := True\<rparr>" st] by simp
    then show ?thesis using Quit False by simp
  next
    case (Key k)
    have "editor_inv (key_press ev k st)"
      using key_press_frame [of ev k st] editor_inv_frame [of "key_press ev k st" st] inv by simp
    then show ?thesis using Key False by simp
  next
    case (Slide v)
    show ?thesis
    proof (cases "view_visible st")
      case True
      then show ?thesis using slide_ok [OF inv True, of v] Slide False by simp
    next
      case vis: False
      then show ?thesis using Slide False inv by simp
    qed
  qed
qed

lemma editor_new_inv: "editor_inv editor_new"
  by (simp add: editor_inv_def editor_new_def create_actions_def slider_ok_def)

lemma main_start_inv:
  assumes dec: "decoder_ok ev" and rs: "resize_ok (env_resize ev)"
    and "main_start ev args = Inr (Running st)"
  shows "editor_inv st"
proof (cases "length args = 2")
  case True
  have sl: "slider_ok (locality_slider (editor_new\<lparr>batch_mode := True, batch_input_file := args ! 0,
                                      batch_output_file := args ! 1\<rparr>))"
    by (simp add: editor_new_def create_actions_def slider_ok_def)
  show ?thesis
    using load_file_ok [OF dec rs sl, of "args ! 0"] assms(3) True
    by (auto simp: main_start_def run_as_batch_def)
next
  case False
  then show ?thesis using assms(3) editor_new_inv by (simp add: main_start_def)
qed

lemma reachable_editor_inv:
  assumes dec: "decoder_ok ev" and rs: "resize_ok (env_resize ev)"
  shows "reachable ev st \<Longrightarrow> editor_inv st"
proof (induction rule: reachable.induct)
  case (start args st)
  then show ?case by (rule main_start_inv [OF dec rs])
next
  case (step st e st')
  then show ?case using editor_step_ok [OF dec rs step.IH, of e] by auto
qed

lemma demo_env_decoder_ok: "decoder_ok (demo_env rs)"
  by (simp add: decoder_ok_def demo_env_def bgr2rgb_def continuous_def length_mat_elems
        test_in_4x4_def mat_of_pixels_def)

lemma start_reachable: "reachable ev editor_new"
  by (rule reachable.start [of ev "[]"]) (simp add: main_start_def)

lemma slider_update_frame:
  assumes "slider_update r st = Inr st'"
  shows "batch_mode st' = batch_mode st \<and> batch_output_file st' = batch_output_file st \<and>
         written st' = written st \<and> closed st' = closed st \<and> pyr st' = pyr st"
  using assms by (auto simp: slider_update_def slider_changed_def split: prod.splits option.splits sum.splits)

lemma load_file_frame:
  assumes "load_file ev f st = Inr (b, st')"
  shows "batch_mode st' = batch_mode st \<and> batch_output_file st' = batch_output_file st \<and>
         written st' = written st \<and> closed st' = closed st"
  using assms
  by (auto simp: load_file_def Let_def split: if_splits sum.splits dest!: slider_update_frame)

lemma slide_demo_inv: "editor_inv slide_demo"
  using relevel_demo_inv
  by (simp add: editor_inv_def slide_demo_def slider_ok_def relevel_demo_def min_scale_def max_scale_def)

lemma demo_image: "bgr2rgb (bgr2rgb test_in_4x4) = test_in_4x4"
  by (simp add: bgr2rgb_def mat_elems_def test_in_4x4_def mat_of_pixels_def mat_at_def upt_rec)

lemma batch_demo:
  "run_as_batch (demo_env rs) ''in.png'' ''out.png'' editor_new =
     Inr (True, editor_new\<lparr>batch_mode := True, batch_input_file := ''in.png'', batch_output_file := ''out.png'',
       window_title := ''UnderSee - in.png'', cv_image := test_in_4x4, pyr := pyramid_spec rs test_in_4x4,
       locality_slider := \<lparr>smin = 0, smax = 1, sval = 0\<rparr>, q_image := test_in_4x4, save_enabled := True,
       view_visible := True\<rparr>)"
proof -
  have sc: "max_scale (pyramid_spec rs test_in_4x4) = 1" "min_scale (pyramid_spec rs test_in_4x4) = 0"
    by (simp_all add: test_4x4_spec min_scale_def max_scale_def)
  have ne: "\<not> mat_empty (bgr2rgb test_in_4x4)"
    by (simp add: mat_empty_def bgr2rgb_def test_in_4x4_def mat_of_pixels_def)
  show ?thesis
    using ne by (simp add: run_as_batch_def editor_new_def create_actions_def demo_env_def load_file_def
          Let_def demo_image test_4x4_preprocess sc slider_set_range_def slider_set_value_def slider_update_def)
qed

subsection \<open>Properties\<close>

text \<open>C18: in every state the program can reach (from \<open>main\<close> through any sequence of user events), given a decoder that returns empty or \<open>int\<close>-sized continuous images and a resize meeting its contract, the slider's value lies in its range, and once an image is shown the pyramid satisfies its class invariant and the slider spans exactly \<open>[0, MaxScale() - MinScale()]\<close>.\<close>

theorem editor_reachable_inv:
  assumes "decoder_ok ev" and "resize_ok (env_resize ev)" and "reachable ev st"
  shows "smin (locality_slider st) \<le> sval (locality_slider st) \<and>
         sval (locality_slider st) \<le> smax (locality_slider st) \<and>
         (view_visible st \<longrightarrow> pyramid_inv (pyr st) \<and> smin (locality_slider st) = 0 \<and>
            smax (locality_slider st) = max_scale (pyr st) - min_scale (pyr st))"
  using reachable_editor_inv [OF assms] by (simp add: editor_inv_def slider_ok_def)

theorem editor_reachable_inv_witness:
  "let st = editor_new\<lparr>batch_mode := True, batch_input_file := ''in.png'', batch_output_file := ''out.png'',
         window_title := ''UnderSee - in.png'', cv_image := test_in_4x4,
         pyr := pyramid_spec resize_linear test_in_4x4,
         locality_slider := \<lparr>smin = 0, smax = 1, sval = 0\<rparr>, q_image := test_in_4x4, save_enabled := True,
         view_visible := True\<rparr>
   in decoder_ok (demo_env resize_linear) \<and> resize_ok (env_resize (demo_env resize_linear)) \<and>
      reachable (demo_env resize_linear) st \<and> view_visible st \<and>
      smin (locality_slider st) \<le> sval (locality_slider st) \<and>
      sval (locality_slider st) \<le> smax (locality_slider st) \<and>
      pyramid_inv (pyr st) \<and> smin (locality_slider st) = 0 \<and>
      smax (locality_slider st) = max_scale (pyr st) - min_scale (pyr st)"
proof -
  define st where "st = editor_new\<lparr>batch_mode := True, batch_input_file := ''in.png'',
         batch_output_file := ''out.png'', window_title := ''UnderSee - in.png'', cv_image := test_in_4x4,
         pyr := pyramid_spec resize_linear test_in_4x4,
         locality_slider := \<lparr>smin = 0, smax = 1, sval = 0\<rparr>, q_image := test_in_4x4, save_enabled := True,
         view_visible := True\<rparr>"
  have r: "reachable (demo_env resize_linear) st"
    by (rule reachable.start [of _ "[''in.png'', ''out.png'']"])
       (simp add: main_start_def batch_demo st_def)
  have rs: "resize_ok (env_resize (demo_env resize_linear))"
    using resize_linear_ok by (simp add: demo_env_def)
  have v: "view_visible st" by (simp add: st_def)
  show ?thesis
    using editor_reachable_inv [OF demo_env_decoder_ok rs r] demo_env_decoder_ok rs r v
    unfolding st_def [symmetric] Let_def by simp
qed



text \<open>C20: the image shown for slider position 0 depends on history: opening the 4x4 test image shows the original, but after moving the slider to 1 and opening the same file again, \<open>setValue(0)\<close> fires \<open>localitySliderChanged(0)\<close> and the view shows \<open>Relevel(MaxScale())\<close>, the fully stretched image.\<close>

theorem slider_history:
  assumes rs: "resize_ok rs"
  shows "(\<exists>st. editor_run (demo_env rs) editor_new [Open [Some f]] = Inr st \<and>
              sval (locality_slider st) = 0 \<and> q_image st = test_in_4x4) \<and>
         (\<exists>st. editor_run (demo_env rs) editor_new [Open [Some f], Slide 1, Open [Some f]] = Inr st \<and>
              sval (locality_slider st) = 0 \<and> q_image st = test_out_4x4) \<and>
         test_in_4x4 \<noteq> test_out_4x4"
proof -
  let ?P = "pyramid_spec rs test_in_4x4"
  have inv: "pyramid_inv ?P"
    by (intro pyramid_spec_inv rs) (simp_all add: test_in_4x4_def mat_of_pixels_def)
  obtain X where r0: "relevel ?P 0 = Inr X"
    using relevel_inv_eq [OF inv, of 0] by (simp add: test_4x4_spec min_scale_def max_scale_def)
  note r1 = test_4x4_relevel [OF rs]
  have sc: "max_scale ?P = 1" "min_scale ?P = 0" by (simp_all add: test_4x4_spec min_scale_def max_scale_def)
  have ne: "\<not> mat_empty (bgr2rgb test_in_4x4)"
    by (simp add: mat_empty_def bgr2rgb_def test_in_4x4_def mat_of_pixels_def)
  have "test_in_4x4 \<noteq> test_out_4x4"
    by (simp add: test_in_4x4_def test_out_4x4_def mat_of_pixels_def)
  moreover have "\<exists>st. editor_run (demo_env rs) editor_new [Open [Some f]] = Inr st \<and>
              sval (locality_slider st) = 0 \<and> q_image st = test_in_4x4"
    using ne by (simp add: editor_new_def create_actions_def demo_env_def open_file_def load_file_def
          Let_def demo_image test_4x4_preprocess sc slider_set_range_def slider_set_value_def slider_update_def)
  moreover have "\<exists>st. editor_run (demo_env rs) editor_new [Open [Some f], Slide 1, Open [Some f]] = Inr st \<and>
              sval (locality_slider st) = 0 \<and> q_image st = test_out_4x4"
    using ne r0 r1 by (simp add: editor_new_def create_actions_def demo_env_def open_file_def load_file_def
          Let_def demo_image test_4x4_preprocess sc slider_set_range_def slider_set_value_def slider_update_def
          slider_changed_def)
  ultimately show ?thesis by blast
qed

theorem slider_history_witness:
  "resize_ok resize_linear \<and>
   (\<exists>st. editor_run (demo_env resize_linear) editor_new [Open [Some ''in.png'']] = Inr st \<and>
        sval (locality_slider st) = 0 \<and> q_image st = test_in_4x4) \<and>
   (\<exists>st. editor_run (demo_env resize_linear) editor_new [Open [Some ''in.png''], Slide 1, Open [Some ''in.png'']] =
        Inr st \<and> sval (locality_slider st) = 0 \<and> q_image st = test_out_4x4) \<and>
   test_in_4x4 \<noteq> test_out_4x4"
  using slider_history [OF resize_linear_ok, of "''in.png''"] resize_linear_ok by blast

text \<open>C21: contrary to the comment of \<open>localitySliderChanged\<close> (lines 167--169), which says the
  leftmost slider value is out of range and returns the original image, a slider move that
  changes the display to position \<open>w\<close> shows \<open>Relevel(MaxScale() - w)\<close> at a scale inside
  \<open>[MinScale(), MaxScale()]\<close>: the leftmost position 0 shows \<open>Relevel(MaxScale())\<close>, and no
  position reaches the out-of-range fallback.\<close>

theorem slider_shows_relevel_in_range:
  assumes "editor_inv st" and "view_visible st" and "\<not> closed st"
    and "editor_step ev st (Slide v) = Inr st'"
  shows "q_image st' = q_image st \<or>
         (min_scale (pyr st) \<le> max_scale (pyr st) - sval (locality_slider st') \<and>
          max_scale (pyr st) - sval (locality_slider st') \<le> max_scale (pyr st) \<and>
          relevel (pyr st) (max_scale (pyr st) - sval (locality_slider st')) = Inr (q_image st'))"
proof -
  obtain s em where r: "slider_set_value v (locality_slider st) = (s, em)" by fastforce
  have sl: "smin (locality_slider st) = 0" "smax (locality_slider st) = max_scale (pyr st) - min_scale (pyr st)"
    "slider_ok (locality_slider st)"
    using assms(1,2) unfolding editor_inv_def by simp_all
  then have s: "smin s = 0" "smax s = max_scale (pyr st) - min_scale (pyr st)" "slider_ok s"
    "\<forall>w. em = Some w \<longrightarrow> w = sval s"
    using slider_set_value_ok [OF _ r] unfolding slider_ok_def by auto
  have up: "slider_update (s, em) st = Inr st'" using assms(2-4) r by simp
  show ?thesis
  proof (cases em)
    case None
    then show ?thesis using up by (auto simp: slider_update_def)
  next
    case (Some w)
    then have w: "w = sval s" using s(4) by simp
    then have "min_scale (pyr st) \<le> max_scale (pyr st) - w" "max_scale (pyr st) - w \<le> max_scale (pyr st)"
      using s unfolding slider_ok_def by auto
    moreover have "relevel (pyr st) (max_scale (pyr st) - w) = Inr (q_image st')"
      and "locality_slider st' = s"
      using up Some by (auto simp: slider_update_def slider_changed_def split: sum.splits)
    ultimately show ?thesis using w by simp
  qed
qed

theorem slider_shows_relevel_in_range_witness:
  "editor_inv slide_demo \<and> view_visible slide_demo \<and> \<not> closed slide_demo \<and>
   editor_step (demo_env resize_linear) slide_demo (Slide 0) = Inr slide_demo \<and>
   (q_image slide_demo = q_image slide_demo \<or>
    (min_scale (pyr slide_demo) \<le> max_scale (pyr slide_demo) - sval (locality_slider slide_demo) \<and>
     max_scale (pyr slide_demo) - sval (locality_slider slide_demo) \<le> max_scale (pyr slide_demo) \<and>
     relevel (pyr slide_demo) (max_scale (pyr slide_demo) - sval (locality_slider slide_demo)) =
       Inr (q_image slide_demo)))"
proof -
  note inv = slide_demo_inv
  have st: "editor_step (demo_env resize_linear) slide_demo (Slide 0) = Inr slide_demo"
    by (simp add: slide_demo_def editor_new_def create_actions_def slider_set_value_def slider_update_def)
  have "view_visible slide_demo" "\<not> closed slide_demo"
    by (simp_all add: slide_demo_def editor_new_def create_actions_def)
  then show ?thesis using slider_shows_relevel_in_range [OF inv _ _ st] inv st by blast
qed

text \<open>C22: after a successful \<open>runAsBatch(in, out)\<close>, Space writes the displayed image to \<open>out\<close> (when the writer succeeds) and closes the window, and Escape closes it without writing.\<close>

theorem batch_keys:
  assumes "run_as_batch ev in_file out_file st = Inr (True, st')"
  shows "closed (key_press ev Key_Space st') \<and>
         written (key_press ev Key_Space st') =
           written st @ (if write_ok ev out_file then [(out_file, q_image st')] else []) \<and>
         closed (key_press ev Key_Escape st') \<and> written (key_press ev Key_Escape st') = written st"
  using load_file_frame [OF assms [unfolded run_as_batch_def]]
  by (simp add: key_press_def save_file_def)

theorem batch_keys_witness:
  "\<exists>st'. run_as_batch (demo_env resize_linear) ''in.png'' ''out.png'' editor_new = Inr (True, st') \<and>
     closed (key_press (demo_env resize_linear) Key_Space st') \<and>
     written (key_press (demo_env resize_linear) Key_Space st') =
       written editor_new @ (if write_ok (demo_env resize_linear) ''out.png'' then [(''out.png'', q_image st')] else []) \<and>
     closed (key_press (demo_env resize_linear) Key_Escape st') \<and>
     written (key_press (demo_env resize_linear) Key_Escape st') = written editor_new"
  using batch_keys [OF batch_demo [of resize_linear]] batch_demo [of resize_linear] by blast

text \<open>C23: after the \<open>Open\<close> action, whatever its dialog answers, batch mode is off: Space and Escape no longer save or close.\<close>

theorem open_leaves_batch:
  assumes "\<not> closed st" and "editor_step ev st (Open answers) = Inr st'"
  shows "key_press ev k st' = st'"
  using assms by (auto simp: open_file_def key_press_def split: sum.splits)

theorem open_leaves_batch_witness:
  "let st' = editor_new\<lparr>first_dialog := False,
               dialogs := [\<lparr>dlg_directory = Some ''/home/user/Pictures'', dlg_accept_mode = Accept_open,
                             dlg_default_suffix = []\<rparr>]\<rparr>
   in \<not> closed editor_new \<and>
      editor_step (demo_env resize_linear) editor_new (Open [None]) = Inr st' \<and>
      key_press (demo_env resize_linear) Key_Space st' = st'"
proof -
  define st' where "st' = editor_new\<lparr>first_dialog := False,
               dialogs := [\<lparr>dlg_directory = Some ''/home/user/Pictures'', dlg_accept_mode = Accept_open,
                             dlg_default_suffix = []\<rparr>]\<rparr>"
  have "editor_step (demo_env resize_linear) editor_new (Open [None]) = Inr st'"
    by (simp add: editor_new_def create_actions_def open_file_def demo_env_def first_directory_def st'_def)
  moreover have "\<not> closed editor_new" by (simp add: editor_new_def create_actions_def)
  ultimately show ?thesis using open_leaves_batch [of editor_new] unfolding st'_def [symmetric] Let_def by blast
qed

text \<open>C24: with two arguments whose input cannot be decoded, \<open>main\<close> exits with status 1 before showing the window.\<close>

theorem main_batch_exit:
  "mat_empty (imread ev in_file) \<Longrightarrow> main_start ev [in_file, out_file] = Inr (Exit 1)"
  by (simp add: main_start_def run_as_batch_def load_file_def)

theorem main_batch_exit_witness:
  "mat_empty (imread \<lparr>imread = \<lambda>_. empty_mat, write_ok = \<lambda>_. True, env_resize = resize_linear, pictures_locations = [], current_path = []\<rparr> ''in.png'') \<and>
   main_start \<lparr>imread = \<lambda>_. empty_mat, write_ok = \<lambda>_. True, env_resize = resize_linear, pictures_locations = [], current_path = []\<rparr> [''in.png'', ''out.png''] =
     Inr (Exit 1)"
  using main_batch_exit [of "\<lparr>imread = \<lambda>_. empty_mat, write_ok = \<lambda>_. True, env_resize = resize_linear, pictures_locations = [], current_path = []\<rparr>" "''in.png''"]
  by (simp add: mat_empty_def empty_mat_def)



end
