(* ===== verification/Editor_Session.thy ===== *)
theory Editor_Session
  imports Editor
begin

text \<open>
  Properties of whole sessions of the editor of theory \<open>Editor\<close>: the file dialogs
  configured by \<open>initializeImageFileDialog\<close> over a run, the name \<open>save()\<close> writes, the
  exit of the dialog loops of \<open>open()\<close> and \<open>save()\<close>, which pyramid levels the user
  can bring to the screen with the locality slider, and what a batch run writes.
\<close>

subsection \<open>Definitions\<close>

text \<open>The file name \<open>save()\<close> hands to \<open>saveFile\<close> for a chosen path: the dialog's default
  suffix "jpg" is added to a path without a dot.\<close>

definition jpg_name :: "string \<Rightarrow> string" where
  "jpg_name f = (if CHR ''.'' \<in> set f then f else f @ ''.jpg'')"

text \<open>The dialog bookkeeping of a run: the flag is set exactly while no dialog has been
  shown, only the first dialog starts in the Pictures location, and save dialogs, and only
  they, carry the default suffix.\<close>

definition dialogs_ok :: "env \<Rightarrow> editor \<Rightarrow> bool" where
  "dialogs_ok ev st \<longleftrightarrow>
     first_dialog st = (dialogs st = []) \<and>
     (\<forall>i < length (dialogs st).
        dlg_directory (dialogs st ! i) =
          (if i = 0 then Some (first_directory (pictures_locations ev) (current_path ev)) else None) \<and>
        dlg_default_suffix (dialogs st ! i) =
          (if dlg_accept_mode (dialogs st ! i) = Accept_save then ''jpg'' else []))"

text \<open>The state \<open>main\<close> reaches with the arguments \<open>in.png out.png\<close> in the demo environment
  of theory \<open>Editor\<close>: batch mode, the 4x4 test image shown, the slider at 0 in \<open>[0, 1]\<close>.\<close>

definition demo_batch_state :: editor where
  "demo_batch_state = editor_new\<lparr>batch_mode := True, batch_input_file := ''in.png'',
     batch_output_file := ''out.png'', window_title := ''UnderSee - in.png'', cv_image := test_in_4x4,
     pyr := pyramid_spec resize_linear test_in_4x4, locality_slider := \<lparr>smin = 0, smax = 1, sval = 0\<rparr>,
     q_image := test_in_4x4, save_enabled := True, view_visible := True\<rparr>"

subsection \<open>Frame lemmas: which operations leave the dialog state alone\<close>

lemma slider_update_dialogs:
  "slider_update r st = Inr st' \<Longrightarrow> first_dialog st' = first_dialog st \<and> dialogs st' = dialogs st"
  by (auto simp: slider_update_def slider_changed_def split: prod.splits option.splits sum.splits)

lemma load_file_dialogs:
  "load_file ev f st = Inr (b, st') \<Longrightarrow> first_dialog st' = first_dialog st \<and> dialogs st' = dialogs st"
  by (auto simp: load_file_def Let_def split: if_splits sum.splits dest!: slider_update_dialogs)

lemma open_loop_dialogs:
  "open_loop ev d answers st = Inr st' \<Longrightarrow> first_dialog st' = first_dialog st \<and> dialogs st' = dialogs st"
proof (induction answers arbitrary: st)
  case (Cons a answers)
  then show ?case
    by (cases a) (auto split: sum.splits bool.splits dest!: load_file_dialogs)
qed simp

lemma save_loop_dialogs:
  "first_dialog (save_loop ev d answers st) = first_dialog st \<and> dialogs (save_loop ev d answers st) = dialogs st"
  by (induction ev d answers st rule: save_loop.induct) (auto simp: save_file_def)

lemma key_press_dialogs:
  "first_dialog (key_press ev k st) = first_dialog st \<and> dialogs (key_press ev k st) = dialogs st"
  by (simp add: key_press_def save_file_def)

text \<open>An event either leaves the dialog state alone or shows one new dialog, built by
  \<open>initializeImageFileDialog\<close> from the flag, which it clears.\<close>

lemma editor_step_dialogs:
  assumes "editor_step ev st e = Inr st'"
  shows "(first_dialog st' = first_dialog st \<and> dialogs st' = dialogs st) \<or>
         (\<exists>a. first_dialog st' = False \<and>
              dialogs st' = dialogs st @ [snd (init_image_file_dialog (pictures_locations ev) (current_path ev)
                                               (first_dialog st) file_dialog_new a)])"
proof (cases "closed st")
  case False
  show ?thesis
  proof (cases e)
    case (Open answers)
    define d where "d = snd (init_image_file_dialog (pictures_locations ev) (current_path ev)
                               (first_dialog st) file_dialog_new Accept_open)"
    define st0 where "st0 = st\<lparr>first_dialog := False, dialogs := dialogs st @ [d]\<rparr>"
    obtain st1 where o: "open_loop ev d answers st0 = Inr st1" and st': "st' = st1\<lparr>batch_mode := False\<rparr>"
      using assms False Open
      by (cases "open_loop ev d answers st0") (simp_all add: open_file_def d_def st0_def)
    show ?thesis
      using open_loop_dialogs [OF o] unfolding st'
      by (intro disjI2 exI [of _ Accept_open]) (simp add: st0_def d_def)
  next
    case (Save answers)
    show ?thesis
    proof (cases "save_enabled st")
      case True
      define d where "d = snd (init_image_file_dialog (pictures_locations ev) (current_path ev)
                                 (first_dialog st) file_dialog_new Accept_save)"
      have "st' = save_loop ev d answers (st\<lparr>first_dialog := False, dialogs := dialogs st @ [d]\<rparr>)"
        using assms False Save True by (simp add: save_def d_def)
      then show ?thesis
        using save_loop_dialogs [of ev d answers "st\<lparr>first_dialog := False, dialogs := dialogs st @ [d]\<rparr>"]
        by (intro disjI2 exI [of _ Accept_save]) (simp add: d_def)
    qed (use assms False Save in simp)
  next
    case (Slide v)
    then show ?thesis using assms False by (auto split: if_splits dest!: slider_update_dialogs)
  next
    case Quit
    then show ?thesis using assms False by auto
  next
    case (Key k)
    then show ?thesis using assms False key_press_dialogs [of ev k st] by auto
  qed
qed (use assms in simp)

lemma dialogs_ok_step:
  assumes "dialogs_ok ev st" and "editor_step ev st e = Inr st'"
  shows "dialogs_ok ev st'"
  using editor_step_dialogs [OF assms(2)]
proof
  assume "first_dialog st' = first_dialog st \<and> dialogs st' = dialogs st"
  then show ?thesis using assms(1) by (simp add: dialogs_ok_def)
next
  assume "\<exists>a. first_dialog st' = False \<and>
    dialogs st' = dialogs st @ [snd (init_image_file_dialog (pictures_locations ev) (current_path ev)
                                     (first_dialog st) file_dialog_new a)]"
  then obtain a where a: "first_dialog st' = False"
    "dialogs st' = dialogs st @ [snd (init_image_file_dialog (pictures_locations ev) (current_path ev)
                                      (first_dialog st) file_dialog_new a)]" by blast
  show ?thesis
    using assms(1) unfolding dialogs_ok_def a
    by (auto simp: nth_append less_Suc_eq)
qed

lemma main_start_dialogs:
  assumes "main_start ev args = Inr (Running st)"
  shows "first_dialog st \<and> dialogs st = []"
  using assms
  by (auto simp: main_start_def run_as_batch_def editor_new_def create_actions_def
      split: if_splits sum.splits prod.splits bool.splits dest!: load_file_dialogs)

lemma reachable_dialogs_ok: "reachable ev st \<Longrightarrow> dialogs_ok ev st"
proof (induction rule: reachable.induct)
  case (start args st)
  then show ?case using main_start_dialogs [OF start] by (simp add: dialogs_ok_def)
next
  case (step st e st')
  show ?case by (rule dialogs_ok_step [OF step.IH step.hyps(2)])
qed

subsection \<open>The dialog loops\<close>

lemma load_file_empty: "mat_empty (imread ev f) \<Longrightarrow> load_file ev f st = Inr (False, st)"
  by (simp add: load_file_def)

lemma load_file_nonempty: "\<not> mat_empty (imread ev f) \<Longrightarrow> load_file ev f st \<noteq> Inr (False, st')"
  by (auto simp: load_file_def Let_def split: sum.splits)

lemma save_file_fails: "\<not> write_ok ev f \<Longrightarrow> save_file ev f st = (False, st)"
  by (simp add: save_file_def)

lemma selected_save_name: "dlg_default_suffix d = ''jpg'' \<Longrightarrow> selected_file d f = jpg_name f"
  by (simp add: selected_file_jpg jpg_name_def)

subsection \<open>Slider moves\<close>

lemma slider_set_value_in_range:
  "smin s \<le> v \<Longrightarrow> v \<le> smax s \<Longrightarrow>
   slider_set_value v s = (if v = sval s then (s, None) else (s\<lparr>sval := v\<rparr>, Some v))"
  by (simp add: slider_set_value_def)

lemma editor_inv_visible:
  "editor_inv st \<Longrightarrow> view_visible st \<Longrightarrow>
   pyramid_inv (pyr st) \<and> smin (locality_slider st) = 0 \<and>
   smax (locality_slider st) = max_scale (pyr st) - min_scale (pyr st) \<and>
   0 \<le> sval (locality_slider st) \<and> sval (locality_slider st) \<le> smax (locality_slider st)"
  by (simp add: editor_inv_def slider_ok_def)

text \<open>A move of the slider to a new position in its range shows \<open>Relevel\<close> at the scale of
  that position.\<close>

lemma slide_moves:
  assumes inv: "editor_inv st" and vis: "view_visible st" and "\<not> closed st"
    and "0 \<le> v" and "v \<le> smax (locality_slider st)" and "v \<noteq> sval (locality_slider st)"
  shows "\<exists>m. relevel (pyr st) (max_scale (pyr st) - v) = Inr m \<and>
    editor_step ev st (Slide v) =
      Inr (st\<lparr>locality_slider := (locality_slider st)\<lparr>sval := v\<rparr>, cv_image := m, q_image := m\<rparr>) \<and>
    editor_inv (st\<lparr>locality_slider := (locality_slider st)\<lparr>sval := v\<rparr>, cv_image := m, q_image := m\<rparr>)"
proof -
  note i = editor_inv_visible [OF inv vis]
  obtain m where r: "relevel (pyr st) (max_scale (pyr st) - v) = Inr m"
    using relevel_inv_eq [of "pyr st" "max_scale (pyr st) - v"] i assms(4,5) by simp
  then have "editor_step ev st (Slide v) =
      Inr (st\<lparr>locality_slider := (locality_slider st)\<lparr>sval := v\<rparr>, cv_image := m, q_image := m\<rparr>)"
    using assms(3-6) vis i
    by (simp add: slider_set_value_in_range slider_update_def slider_changed_def)
  moreover have "\<exists>st'. editor_step ev st (Slide v) = Inr st' \<and> editor_inv st'"
    using slide_ok [OF inv vis, of v] assms(3) vis by simp
  ultimately show ?thesis using r by auto
qed

text \<open>A move of the slider to the position it already has changes nothing.\<close>

lemma slide_same:
  assumes "editor_inv st" and "view_visible st" and "v = sval (locality_slider st)"
  shows "editor_step ev st (Slide v) = Inr st"
  using editor_inv_visible [OF assms(1,2)] assms(2,3)
  by (simp add: slider_set_value_in_range slider_update_def)


text \<open>A move of the slider to any position in its range keeps the invariant and the
  pyramid, and leaves the slider at that position.\<close>

lemma slide_any:
  assumes inv: "editor_inv st" and vis: "view_visible st" and "\<not> closed st"
    and "0 \<le> v" and "v \<le> smax (locality_slider st)"
  shows "\<exists>st'. editor_step ev st (Slide v) = Inr st' \<and> editor_inv st' \<and> view_visible st' \<and>
           \<not> closed st' \<and> pyr st' = pyr st \<and> locality_slider st' = (locality_slider st)\<lparr>sval := v\<rparr>"
proof (cases "v = sval (locality_slider st)")
  case True
  then show ?thesis using slide_same [OF inv vis True] inv vis assms(3) by simp
next
  case False
  then show ?thesis using slide_moves [OF inv vis assms(3-5) False, of ev] vis assms(3) by auto
qed
lemma demo_batch_reachable: "reachable (demo_env resize_linear) demo_batch_state"
  by (rule reachable.start [of _ "[''in.png'', ''out.png'']"])
     (simp add: main_start_def batch_demo demo_batch_state_def)

lemma demo_batch_scales:
  "min_scale (pyr demo_batch_state) = 0" "max_scale (pyr demo_batch_state) = 1"
  by (simp_all add: demo_batch_state_def test_4x4_spec min_scale_def max_scale_def)

lemma demo_batch_shown: "\<not> closed demo_batch_state" "view_visible demo_batch_state"
  by (simp_all add: demo_batch_state_def editor_new_def create_actions_def)

lemma demo_env_resize_ok: "resize_ok (env_resize (demo_env resize_linear))"
  using resize_linear_ok by (simp add: demo_env_def)

subsection \<open>Loading with the slider at 0\<close>

lemma slider_set_range_at_zero:
  assumes "sval s = 0"
  shows "\<exists>s'. slider_set_range 0 n s = (s', None) \<and> sval s' = 0 \<and> smin s' = 0 \<and> 0 \<le> smax s'"
  using assms by (auto simp: slider_set_range_def slider_set_value_def)

text \<open>Loading a decodable file while the slider is at 0 emits no signal: the view shows the
  converted image itself.\<close>

lemma load_file_at_zero:
  assumes dec: "decoder_ok ev" and ne: "\<not> mat_empty (imread ev f)" and z: "sval (locality_slider st) = 0"
  shows "\<exists>s. load_file ev f st =
    Inr (True, st\<lparr>window_title := ''UnderSee - '' @ f, cv_image := bgr2rgb (imread ev f),
                  pyr := pyramid_spec (env_resize ev) (bgr2rgb (imread ev f)), locality_slider := s,
                  q_image := bgr2rgb (imread ev f), save_enabled := True, view_visible := True\<rparr>)"
proof -
  define I where "I = bgr2rgb (imread ev f)"
  define p where "p = pyramid_spec (env_resize ev) I"
  define title where "title = ''UnderSee - '' @ f"
  have pre: "preprocess (env_resize ev) I (pyr st) = Inr p"
    unfolding p_def I_def by (rule decoder_preprocess(1) [OF dec ne])
  obtain s1 where s1: "slider_set_range 0 (max_scale p - min_scale p) (locality_slider st) = (s1, None)"
    "sval s1 = 0" "smin s1 = 0" "0 \<le> smax s1"
    using slider_set_range_at_zero [OF z] by blast
  have s2: "slider_set_value 0 s1 = (s1, None)" using s1(2-4) by (simp add: slider_set_value_def)
  show ?thesis
    unfolding load_file_def Let_def title_def [symmetric] if_not_P [OF ne] I_def [symmetric] p_def [symmetric]
    using pre s1(1) s2 by (intro exI [of _ s1]) (simp add: slider_update_def)
qed

lemma demo_env_ok: "decoder_ok (demo_env resize_linear)" "\<not> mat_empty (imread (demo_env resize_linear) f)"
    "write_ok (demo_env resize_linear) f"
proof -
  show "decoder_ok (demo_env resize_linear)" by (rule demo_env_decoder_ok)
  show "\<not> mat_empty (imread (demo_env resize_linear) f)"
    by (simp add: demo_env_def mat_empty_def bgr2rgb_def test_in_4x4_def mat_of_pixels_def)
  show "write_ok (demo_env resize_linear) f" by (simp add: demo_env_def)
qed

subsection \<open>Properties\<close>

text \<open>C26: in every state reachable from \<open>main\<close>, the static flag of \<open>initializeImageFileDialog\<close> is set exactly while no file dialog has been shown; of the dialogs shown, open and save alike, only the first starts in the last Pictures location (or the current directory when there is none), all later ones in Qt's default directory; save dialogs, and only they, carry the default suffix "jpg".\<close>

theorem dialogs_first_directory:
  assumes "reachable ev st" and "i < length (dialogs st)"
  shows "first_dialog st = (dialogs st = []) \<and>
         dlg_directory (dialogs st ! i) =
           (if i = 0 then Some (first_directory (pictures_locations ev) (current_path ev)) else None) \<and>
         dlg_default_suffix (dialogs st ! i) =
           (if dlg_accept_mode (dialogs st ! i) = Accept_save then ''jpg'' else [])"
  using reachable_dialogs_ok [OF assms(1)] assms(2) unfolding dialogs_ok_def by blast

theorem dialogs_first_directory_witness:
  "let st = editor_new\<lparr>first_dialog := False,
              dialogs := [\<lparr>dlg_directory = Some ''/home/user/Pictures'', dlg_accept_mode = Accept_open,
                            dlg_default_suffix = []\<rparr>,
                          \<lparr>dlg_directory = None, dlg_accept_mode = Accept_open, dlg_default_suffix = []\<rparr>]\<rparr>
   in reachable (demo_env resize_linear) st \<and> (1::nat) < length (dialogs st) \<and>
      \<not> first_dialog st \<and> dlg_directory (dialogs st ! 1) = None \<and> dlg_default_suffix (dialogs st ! 1) = []"
proof -
  define d0 where "d0 = \<lparr>dlg_directory = Some ''/home/user/Pictures'', dlg_accept_mode = Accept_open,
                         dlg_default_suffix = []\<rparr>"
  define d1 where "d1 = \<lparr>dlg_directory = None, dlg_accept_mode = Accept_open, dlg_default_suffix = []\<rparr>"
  define st1 where "st1 = editor_new\<lparr>first_dialog := False, dialogs := [d0]\<rparr>"
  define st2 where "st2 = editor_new\<lparr>first_dialog := False, dialogs := [d0, d1]\<rparr>"
  have s1: "editor_step (demo_env resize_linear) editor_new (Open [None]) = Inr st1"
    by (simp add: st1_def d0_def editor_new_def create_actions_def open_file_def demo_env_def
          first_directory_def)
  have s2: "editor_step (demo_env resize_linear) st1 (Open [None]) = Inr st2"
    by (simp add: st1_def st2_def d0_def d1_def editor_new_def create_actions_def open_file_def)
  have r: "reachable (demo_env resize_linear) st2"
    by (rule reachable.step [OF reachable.step [OF start_reachable s1] s2])
  have "(1::nat) < length (dialogs st2)" by (simp add: st2_def)
  from dialogs_first_directory [OF r this] r show ?thesis
    unfolding Let_def d0_def [symmetric] d1_def [symmetric] st2_def [symmetric]
    by (simp add: st2_def d1_def)
qed

text \<open>C27: \<open>save()\<close> writes the chosen path with the dialog's default suffix: a path with no dot gets ".jpg" appended, a path with a dot anywhere (also in a directory name) is written as it is; when that file is writable the shown image is written to it.\<close>

theorem save_writes_jpg_name:
  assumes "\<not> closed st" and "save_enabled st" and "write_ok ev (jpg_name f)"
  shows "\<exists>st'. editor_step ev st (Save (Some f # rest)) = Inr st' \<and>
                written st' = written st @ [(jpg_name f, q_image st)]"
  using assms by (simp add: save_def selected_save_name save_file_def)

theorem save_writes_jpg_name_witness:
  "\<not> closed (editor_new\<lparr>save_enabled := True\<rparr>) \<and> save_enabled (editor_new\<lparr>save_enabled := True\<rparr>) \<and>
   write_ok (demo_env resize_linear) (jpg_name ''out'') \<and> jpg_name ''out'' = ''out.jpg'' \<and>
   (\<exists>st'. editor_step (demo_env resize_linear) (editor_new\<lparr>save_enabled := True\<rparr>) (Save [Some ''out'']) = Inr st' \<and>
          written st' = written (editor_new\<lparr>save_enabled := True\<rparr>) @
                          [(jpg_name ''out'', q_image (editor_new\<lparr>save_enabled := True\<rparr>))])"
  using save_writes_jpg_name [of "editor_new\<lparr>save_enabled := True\<rparr>" "demo_env resize_linear" "''out''" "[]"]
  by (simp add: editor_new_def create_actions_def demo_env_def jpg_name_def)

text \<open>C28: the dialog loop of \<open>open()\<close> ends at the first accepted file that loads: after any number of accepted files that fail to decode, a file that decodes ends the loop, and whatever the user would have answered afterwards is never read.\<close>

theorem open_stops_at_first_load:
  assumes fs: "\<forall>f\<in>set fs. mat_empty (imread ev f)" and g: "\<not> mat_empty (imread ev g)"
  shows "open_file ev (map Some fs @ Some g # rest) st = open_file ev [Some g] st"
proof -
  have skip: "open_loop ev d (map Some fs @ xs) s = open_loop ev d xs s" if "dlg_default_suffix d = []" for d xs s
    using fs by (induction fs arbitrary: s) (simp_all add: that load_file_empty)
  have stop: "open_loop ev d (Some g # rest) s = open_loop ev d [Some g] s" if "dlg_default_suffix d = []" for d s
    using load_file_nonempty [OF g, of s]
    by (cases "load_file ev g s") (auto simp: that split: prod.splits bool.splits list.splits)
  show ?thesis by (simp add: open_file_def skip stop del: open_loop.simps(3))
qed

theorem open_stops_at_first_load_witness:
  "let ev = demo_env resize_linear\<lparr>imread := \<lambda>f. if f = ''bad.png'' then empty_mat else bgr2rgb test_in_4x4\<rparr>
   in mat_empty (imread ev ''bad.png'') \<and> \<not> mat_empty (imread ev ''in.png'') \<and>
      open_file ev [Some ''bad.png'', Some ''in.png'', Some ''bad.png''] editor_new =
      open_file ev [Some ''in.png''] editor_new"
proof -
  define ev where "ev = demo_env resize_linear\<lparr>imread := \<lambda>f. if f = ''bad.png'' then empty_mat
                                                              else bgr2rgb test_in_4x4\<rparr>"
  have e: "mat_empty (imread ev ''bad.png'')" "\<not> mat_empty (imread ev ''in.png'')"
    by (simp_all add: ev_def mat_empty_def empty_mat_def bgr2rgb_def test_in_4x4_def mat_of_pixels_def)
  show ?thesis
    using open_stops_at_first_load [of "[''bad.png'']" ev "''in.png''" "[Some ''bad.png'']" editor_new] e
    unfolding Let_def ev_def [symmetric] by simp
qed

text \<open>C29: the dialog loop of \<open>save()\<close> ends at the first accepted path whose file (with the default suffix) can be written: the paths before it that cannot be written change nothing, and later answers are never read.\<close>

theorem save_stops_at_first_write:
  assumes fs: "\<forall>f\<in>set fs. \<not> write_ok ev (jpg_name f)" and g: "write_ok ev (jpg_name g)"
  shows "save ev (map Some fs @ Some g # rest) st = save ev [Some g] st"
proof -
  have skip: "save_loop ev d (map Some fs @ xs) s = save_loop ev d xs s" if "dlg_default_suffix d = ''jpg''" for d xs s
    using fs by (induction fs arbitrary: s) (simp_all add: selected_save_name [OF that] save_file_fails)
  have stop: "save_loop ev d (Some g # rest) s = save_loop ev d [Some g] s" if "dlg_default_suffix d = ''jpg''" for d s
    using g by (cases rest) (simp_all add: selected_save_name [OF that] save_file_def)
  show ?thesis by (simp add: save_def skip stop del: save_loop.simps(3))
qed

theorem save_stops_at_first_write_witness:
  "let ev = demo_env resize_linear\<lparr>write_ok := \<lambda>f. f \<noteq> ''ro.jpg''\<rparr>
   in \<not> write_ok ev (jpg_name ''ro'') \<and> write_ok ev (jpg_name ''out'') \<and>
      save ev [Some ''ro'', Some ''out'', Some ''ro''] editor_new = save ev [Some ''out''] editor_new"
proof -
  define ev where "ev = demo_env resize_linear\<lparr>write_ok := \<lambda>f. f \<noteq> ''ro.jpg''\<rparr>"
  have e: "\<not> write_ok ev (jpg_name ''ro'')" "write_ok ev (jpg_name ''out'')"
    by (simp_all add: ev_def jpg_name_def)
  show ?thesis
    using save_stops_at_first_write [of "[''ro'']" ev "''out''" "[Some ''ro'']" editor_new] e
    unfolding Let_def ev_def [symmetric] by simp
qed

text \<open>C30: once an image is shown and its pyramid has more than one level, every level can be brought to the screen: for each scale in \<open>[MinScale(), MaxScale()]\<close> two moves of the slider display \<open>Relevel\<close> at that scale. (One move may not do: a move to the position the slider already has emits no signal, so right after opening, position 0 shows the original and not \<open>Relevel(MaxScale())\<close>.)\<close>

theorem every_level_displayable:
  assumes dec: "decoder_ok ev" and rs: "resize_ok (env_resize ev)" and r: "reachable ev st"
    and open_: "\<not> closed st" and vis: "view_visible st"
    and levels: "min_scale (pyr st) < max_scale (pyr st)"
    and lo: "min_scale (pyr st) \<le> s" and hi: "s \<le> max_scale (pyr st)"
  shows "\<exists>v1 v2 st' m. editor_run ev st [Slide v1, Slide v2] = Inr st' \<and>
           relevel (pyr st) s = Inr m \<and> q_image st' = m \<and> cv_image st' = m"
proof -
  have inv: "editor_inv st" by (rule reachable_editor_inv [OF dec rs r])
  note i = editor_inv_visible [OF inv vis]
  define t where "t = max_scale (pyr st) - s"
  define w where "w = (if t = 0 then 1 else (0::int))"
  have t: "0 \<le> t" "t \<le> smax (locality_slider st)" "max_scale (pyr st) - t = s"
    using lo hi i unfolding t_def by simp_all
  have w: "0 \<le> w" "w \<le> smax (locality_slider st)" "t \<noteq> w"
    using t levels i unfolding w_def by auto
  obtain st1 where s1: "editor_step ev st (Slide w) = Inr st1" and inv1: "editor_inv st1"
    and st1: "view_visible st1" "\<not> closed st1" "pyr st1 = pyr st"
      "locality_slider st1 = (locality_slider st)\<lparr>sval := w\<rparr>"
    using slide_any [OF inv vis open_ w(1,2), of ev] by blast
  obtain m where m: "relevel (pyr st) s = Inr m"
    and s2: "editor_step ev st1 (Slide t) =
      Inr (st1\<lparr>locality_slider := (locality_slider st1)\<lparr>sval := t\<rparr>, cv_image := m, q_image := m\<rparr>)"
    using slide_moves [OF inv1 st1(1,2), of t ev] t w(3) st1(3,4) by auto
  show ?thesis using s1 s2 m by (intro exI [of _ w] exI [of _ t]) simp
qed

theorem every_level_displayable_witness:
  "decoder_ok (demo_env resize_linear) \<and> resize_ok (env_resize (demo_env resize_linear)) \<and>
   reachable (demo_env resize_linear) demo_batch_state \<and> \<not> closed demo_batch_state \<and>
   view_visible demo_batch_state \<and> min_scale (pyr demo_batch_state) < max_scale (pyr demo_batch_state) \<and>
   min_scale (pyr demo_batch_state) \<le> 1 \<and> 1 \<le> max_scale (pyr demo_batch_state) \<and>
   (\<exists>v1 v2 st' m. editor_run (demo_env resize_linear) demo_batch_state [Slide v1, Slide v2] = Inr st' \<and>
      relevel (pyr demo_batch_state) 1 = Inr m \<and> q_image st' = m \<and> cv_image st' = m)"
  using every_level_displayable [OF demo_env_decoder_ok demo_env_resize_ok demo_batch_reachable
      demo_batch_shown, of 1]
    demo_env_decoder_ok demo_env_resize_ok demo_batch_reachable demo_batch_shown demo_batch_scales
  by simp

text \<open>C31: when the shown image's pyramid has a single level (MinScale() = MaxScale(), as for
  images of at most 2x2 pixels), the slider has the one position 0 and no slider move changes
  anything. Which image is shown then depends on how it was loaded, not on the slider:
  loading it while the slider stood elsewhere makes \<open>setRange(0, 0)\<close> emit
  \<open>valueChanged(0)\<close> and show \<open>Relevel(0)\<close> of the single level, and that view stays.\<close>

theorem single_level_slider_inert:
  assumes "editor_inv st" and "view_visible st" and "min_scale (pyr st) = max_scale (pyr st)"
  shows "editor_step ev st (Slide v) = Inr st"
proof -
  have "smin (locality_slider st) = 0" "smax (locality_slider st) = 0" "sval (locality_slider st) = 0"
    using editor_inv_visible [OF assms(1,2)] assms(3) by simp_all
  then show ?thesis using assms(2) by (simp add: slider_set_value_def slider_update_def)
qed

theorem single_level_slider_inert_witness:
  "editor_inv slide_demo \<and> view_visible slide_demo \<and> min_scale (pyr slide_demo) = max_scale (pyr slide_demo) \<and>
   editor_step (demo_env resize_linear) slide_demo (Slide 5) = Inr slide_demo"
proof -
  have "view_visible slide_demo" "min_scale (pyr slide_demo) = max_scale (pyr slide_demo)"
    by (simp_all add: slide_demo_def relevel_demo_def min_scale_def max_scale_def)
  then show ?thesis using single_level_slider_inert [OF slide_demo_inv, of "demo_env resize_linear" 5] slide_demo_inv
    by simp
qed

text \<open>C32: batch mode end to end: with two arguments whose input decodes, \<open>main\<close> shows the window, and pressing Space right away writes the decoded input, converted to RGB, to the output file and closes; no \<open>Relevel\<close> is applied unless the slider has been moved.\<close>

theorem batch_space_writes_input:
  assumes "decoder_ok ev" and "\<not> mat_empty (imread ev in_file)" and "write_ok ev out_file"
  shows "\<exists>st st'. main_start ev [in_file, out_file] = Inr (Running st) \<and>
           editor_step ev st (Key Key_Space) = Inr st' \<and> closed st' \<and>
           written st' = [(out_file, bgr2rgb (imread ev in_file))]"
proof -
  let ?st0 = "editor_new\<lparr>batch_mode := True, batch_input_file := in_file, batch_output_file := out_file\<rparr>"
  have "sval (locality_slider ?st0) = 0" by (simp add: editor_new_def create_actions_def)
  then obtain s where l: "load_file ev in_file ?st0 =
      Inr (True, ?st0\<lparr>window_title := ''UnderSee - '' @ in_file, cv_image := bgr2rgb (imread ev in_file),
                    pyr := pyramid_spec (env_resize ev) (bgr2rgb (imread ev in_file)), locality_slider := s,
                    q_image := bgr2rgb (imread ev in_file), save_enabled := True, view_visible := True\<rparr>)"
    using load_file_at_zero [OF assms(1,2)] by blast
  show ?thesis
    using l assms(3)
    by (simp add: main_start_def run_as_batch_def key_press_def save_file_def editor_new_def create_actions_def)
qed

theorem batch_space_writes_input_witness:
  "decoder_ok (demo_env resize_linear) \<and> \<not> mat_empty (imread (demo_env resize_linear) ''in.png'') \<and>
   write_ok (demo_env resize_linear) ''out.png'' \<and>
   (\<exists>st st'. main_start (demo_env resize_linear) [''in.png'', ''out.png''] = Inr (Running st) \<and>
      editor_step (demo_env resize_linear) st (Key Key_Space) = Inr st' \<and> closed st' \<and>
      written st' = [(''out.png'', bgr2rgb (imread (demo_env resize_linear) ''in.png''))])"
  using batch_space_writes_input [OF demo_env_ok] demo_env_ok by blast

end
