(* ===== verification/Editor_Output.thy ===== *)
theory Editor_Output
  imports Editor_Session
begin

text \<open>
  What the editor can write. The Save action and the batch keys write the displayed
  \<open>image_\<close> (\<open>q_image\<close>); this theory shows that they are only reachable while an image is
  displayed, and that the displayed image then always has the size of the loaded image:
  \<open>Relevel\<close> at any scale, the fallback included, returns an image of the original's size.
\<close>

subsection \<open>Definitions\<close>

definition same_dims :: "mat \<Rightarrow> mat \<Rightarrow> bool" where
  "same_dims a b \<longleftrightarrow> rows a = rows b \<and> cols a = cols b"

text \<open>The output invariant: the Save action is enabled and batch mode is on only while the
  view is visible; while it is, the pyramid is valid, its image is not empty, and the
  converted and displayed images have its size; every file written holds a non-empty
  image.\<close>

definition output_ok :: "editor \<Rightarrow> bool" where
  "output_ok st \<longleftrightarrow>
     (save_enabled st \<longrightarrow> view_visible st) \<and> (batch_mode st \<longrightarrow> view_visible st) \<and>
     (view_visible st \<longrightarrow>
        pyramid_inv (pyr st) \<and> \<not> mat_empty (image (pyr st)) \<and>
        same_dims (cv_image st) (image (pyr st)) \<and> same_dims (q_image st) (image (pyr st))) \<and>
     (\<forall>(f, m) \<in> set (written st). \<not> mat_empty m)"

subsection \<open>Relevel keeps the size\<close>

lemma relevel_dims:
  assumes inv: "pyramid_inv p" and r: "relevel p s = Inr m"
  shows "same_dims m (image p)"
proof (cases "min_scale p \<le> s \<and> s \<le> max_scale p")
  case True
  then show ?thesis
    using relevel_inv_eq [OF inv, of s] r by (auto simp: same_dims_def relevel_ref_def)
next
  case False
  then show ?thesis using r by (auto simp: relevel_def min_scale_def max_scale_def same_dims_def)
qed

lemma same_dims_empty: "same_dims a b \<Longrightarrow> mat_empty a = mat_empty b"
  by (simp add: same_dims_def mat_empty_def)

lemma slider_update_dims:
  assumes inv: "pyramid_inv (pyr st)" and cv: "same_dims (cv_image st) (image (pyr st))"
    and u: "slider_update r st = Inr st'"
  shows "pyr st' = pyr st \<and> same_dims (cv_image st') (image (pyr st)) \<and>
         (same_dims (q_image st) (image (pyr st)) \<longrightarrow> same_dims (q_image st') (image (pyr st))) \<and>
         written st' = written st \<and> batch_mode st' = batch_mode st \<and>
         save_enabled st' = save_enabled st \<and> view_visible st' = view_visible st"
  using u relevel_dims [OF inv] cv
  by (auto simp: slider_update_def slider_changed_def split: prod.splits option.splits sum.splits)

subsection \<open>Loading\<close>

text \<open>A successful load shows the pre-processed image: the view is visible, Save is
  enabled, and the converted and displayed image have the size of the decoded one.\<close>

lemma load_file_true:
  assumes dec: "decoder_ok ev" and rs: "resize_ok (env_resize ev)"
    and l: "load_file ev f st = Inr (True, st')"
  shows "view_visible st' \<and> save_enabled st' \<and> pyramid_inv (pyr st') \<and>
         \<not> mat_empty (image (pyr st')) \<and> same_dims (cv_image st') (image (pyr st')) \<and>
         q_image st' = cv_image st' \<and> written st' = written st \<and> batch_mode st' = batch_mode st"
proof -
  have ne: "\<not> mat_empty (imread ev f)" using l load_file_empty [of ev f st] by auto
  define I where "I = bgr2rgb (imread ev f)"
  define p where "p = pyramid_spec (env_resize ev) I"
  have pre: "preprocess (env_resize ev) I (pyr st) = Inr p"
    unfolding p_def I_def by (rule decoder_preprocess(1) [OF dec ne])
  have inv: "pyramid_inv p"
    unfolding p_def I_def using rs decoder_preprocess(2,4) [OF dec ne] by (rule pyramid_spec_inv)
  have im: "image p = I" by (simp add: p_def pyramid_spec_def Let_def)
  have neI: "\<not> mat_empty I" using ne by (simp add: I_def mat_empty_def)
  define st0 where "st0 = st\<lparr>window_title := ''UnderSee - '' @ f, cv_image := I\<rparr>\<lparr>pyr := p\<rparr>"
  obtain st1 st2 where u1: "slider_update (slider_set_range 0 (max_scale p - min_scale p) (locality_slider st0)) st0 = Inr st1"
    and u2: "slider_update (slider_set_value 0 (locality_slider st1)) st1 = Inr st2"
    and st': "st' = st2\<lparr>q_image := cv_image st2, save_enabled := True, view_visible := True\<rparr>"
    using l ne pre unfolding load_file_def Let_def I_def [symmetric] st0_def [symmetric]
    by (auto simp: st0_def split: sum.splits)
  have d0: "pyramid_inv (pyr st0)" "same_dims (cv_image st0) (image (pyr st0))"
    using inv im by (simp_all add: st0_def same_dims_def)
  note f1 = slider_update_dims [OF d0 u1]
  have d1: "pyramid_inv (pyr st1)" "same_dims (cv_image st1) (image (pyr st1))" using f1 d0 by simp_all
  note f2 = slider_update_dims [OF d1 u2]
  show ?thesis using f1 f2 inv im neI st' by (simp add: st0_def)
qed

lemma output_ok_load:
  assumes dec: "decoder_ok ev" and rs: "resize_ok (env_resize ev)"
    and ok: "output_ok st" and l: "load_file ev f st = Inr (b, st')"
  shows "output_ok st'"
proof (cases b)
  case True
  then have "load_file ev f st = Inr (True, st')" using l by simp
  then show ?thesis using load_file_true [OF dec rs] ok by (simp add: output_ok_def)
next
  case False
  then have "st' = st"
    using l load_file_nonempty [of ev f st st'] load_file_empty [of ev f st] by (cases "mat_empty (imread ev f)") auto
  then show ?thesis using ok by simp
qed

subsection \<open>Every step keeps the output invariant\<close>

lemma output_ok_open_loop:
  assumes dec: "decoder_ok ev" and rs: "resize_ok (env_resize ev)"
  shows "output_ok st \<Longrightarrow> open_loop ev d answers st = Inr st' \<Longrightarrow> output_ok st'"
proof (induction answers arbitrary: st)
  case (Cons a answers)
  show ?case
  proof (cases a)
    case (Some f)
    then show ?thesis using Cons
      by (auto split: sum.splits bool.splits dest: output_ok_load [OF dec rs Cons.prems(1)])
  qed (use Cons in simp)
qed simp

lemma output_ok_save_file: "output_ok st \<Longrightarrow> save_enabled st \<or> batch_mode st \<Longrightarrow> output_ok (snd (save_file ev f st))"
  by (auto simp: output_ok_def save_file_def same_dims_empty)

lemma output_ok_save_loop:
  "output_ok st \<Longrightarrow> save_enabled st \<Longrightarrow> output_ok (save_loop ev d answers st)"
proof (induction ev d answers st rule: save_loop.induct)
  case (3 ev d f fs st)
  then show ?case
    using output_ok_save_file [OF 3(2), of ev "selected_file d f"]
    by (auto simp: save_file_def split: if_splits)
qed simp_all

lemma output_ok_closed: "output_ok (st\<lparr>closed := b\<rparr>) = output_ok st"
  by (simp add: output_ok_def)

lemma output_ok_dialog_fields:
  "output_ok (st\<lparr>first_dialog := b, dialogs := ds\<rparr>) = output_ok st"
  by (simp add: output_ok_def)

lemma output_ok_step:
  assumes dec: "decoder_ok ev" and rs: "resize_ok (env_resize ev)"
    and ok: "output_ok st" and s: "editor_step ev st e = Inr st'"
  shows "output_ok st'"
proof (cases "closed st")
  case False
  show ?thesis
  proof (cases e)
    case (Open answers)
    define d where "d = snd (init_image_file_dialog (pictures_locations ev) (current_path ev)
                               (first_dialog st) file_dialog_new Accept_open)"
    define st0 where "st0 = st\<lparr>first_dialog := False, dialogs := dialogs st @ [d]\<rparr>"
    obtain st1 where o: "open_loop ev d answers st0 = Inr st1" and st': "st' = st1\<lparr>batch_mode := False\<rparr>"
      using s False Open
      by (cases "open_loop ev d answers st0") (simp_all add: open_file_def d_def st0_def)
    have "output_ok st0" using ok by (simp add: st0_def output_ok_dialog_fields)
    from output_ok_open_loop [OF dec rs this o] show ?thesis
      unfolding st' by (simp add: output_ok_def)
  next
    case (Save answers)
    then show ?thesis using s False ok output_ok_save_loop output_ok_dialog_fields
      by (auto simp: save_def split: if_splits)
  next
    case Quit
    then show ?thesis using s False ok by (auto simp: output_ok_def)
  next
    case (Key k)
    then have "key_press ev k st = st'" using s False by simp
    then show ?thesis using ok output_ok_save_file [OF ok, of ev "batch_output_file st"]
      by (auto simp: key_press_def output_ok_closed split: if_splits)
  next
    case (Slide v)
    show ?thesis
    proof (cases "view_visible st")
      case True
      then have d: "pyramid_inv (pyr st)" "same_dims (cv_image st) (image (pyr st))"
        "same_dims (q_image st) (image (pyr st))"
        using ok by (simp_all add: output_ok_def)
      have "slider_update (slider_set_value v (locality_slider st)) st = Inr st'"
        using s False Slide True by simp
      from slider_update_dims [OF d(1,2) this] show ?thesis using ok d(3) by (simp add: output_ok_def)
    qed (use s False Slide ok in simp)
  qed
qed (use s ok in simp)

lemma output_ok_start:
  assumes dec: "decoder_ok ev" and rs: "resize_ok (env_resize ev)"
    and m: "main_start ev args = Inr (Running st)"
  shows "output_ok st"
proof -
  show ?thesis
  proof (cases "length args = 2")
    case True
    then obtain st0 where l: "load_file ev (args ! 0)
        (editor_new\<lparr>batch_mode := True, batch_input_file := args ! 0, batch_output_file := args ! 1\<rparr>) = Inr (True, st0)"
      and "st = st0"
      using m by (auto simp: main_start_def run_as_batch_def split: sum.splits bool.splits)
    then show ?thesis
      using load_file_true [OF dec rs l] by (simp add: output_ok_def editor_new_def create_actions_def)
  next
    case False
    then show ?thesis using m by (auto simp: main_start_def output_ok_def editor_new_def create_actions_def)
  qed
qed

lemma reachable_output_ok:
  assumes dec: "decoder_ok ev" and rs: "resize_ok (env_resize ev)"
  shows "reachable ev st \<Longrightarrow> output_ok st"
proof (induction rule: reachable.induct)
  case (start args st)
  then show ?case by (rule output_ok_start [OF dec rs])
next
  case (step st e st')
  show ?case by (rule output_ok_step [OF dec rs step.IH step.hyps(2)])
qed

subsection \<open>Properties\<close>

text \<open>C35: in every state reachable from \<open>main\<close> (decoder and resize within their contracts), the Save action is enabled and the batch keys are armed only while an image is displayed, and that image is not empty and has the size of the loaded image (whatever slider moves produced it, through \<open>Relevel\<close> or its fallback); every file the program has written holds a non-empty image.\<close>

theorem written_images_nonempty:
  assumes "decoder_ok ev" and "resize_ok (env_resize ev)" and "reachable ev st"
  shows "(save_enabled st \<or> batch_mode st \<longrightarrow>
            view_visible st \<and> \<not> mat_empty (q_image st) \<and>
            rows (q_image st) = rows (image (pyr st)) \<and> cols (q_image st) = cols (image (pyr st))) \<and>
         (\<forall>(f, m) \<in> set (written st). \<not> mat_empty m)"
  using reachable_output_ok [OF assms] same_dims_empty [of "q_image st" "image (pyr st)"]
  unfolding output_ok_def by (auto simp: same_dims_def)

theorem written_images_nonempty_witness:
  "\<exists>st'. editor_step (demo_env resize_linear) demo_batch_state (Key Key_Space) = Inr st' \<and>
     decoder_ok (demo_env resize_linear) \<and> resize_ok (env_resize (demo_env resize_linear)) \<and>
     reachable (demo_env resize_linear) st' \<and> save_enabled st' \<and> batch_mode st' \<and>
     view_visible st' \<and> \<not> mat_empty (q_image st') \<and>
     rows (q_image st') = rows (image (pyr st')) \<and> cols (q_image st') = cols (image (pyr st')) \<and>
     written st' = [(''out.png'', test_in_4x4)] \<and> \<not> mat_empty test_in_4x4"
proof -
  obtain st' where s: "editor_step (demo_env resize_linear) demo_batch_state (Key Key_Space) = Inr st'"
    using demo_batch_shown by simp
  have r: "reachable (demo_env resize_linear) st'" by (rule reachable.step [OF demo_batch_reachable s])
  have w: "written st' = [(''out.png'', test_in_4x4)]" "save_enabled st'" "batch_mode st'"
    using s demo_batch_shown
    by (auto simp: demo_batch_state_def key_press_def save_file_def demo_env_def editor_new_def
        create_actions_def)
  have ne: "\<not> mat_empty test_in_4x4" by (simp add: mat_empty_def test_in_4x4_def mat_of_pixels_def)
  show ?thesis
    using written_images_nonempty [OF demo_env_decoder_ok demo_env_resize_ok r] s r w ne
      demo_env_decoder_ok demo_env_resize_ok by auto
qed

end
