(* ===== verification/Tests.thy ===== *)
theory Tests
  imports Relevel
begin

text \<open>
  The unit tests of src/src/min_max_pyramid_test.cc. The custom gMock matcher
  \<open>ImageEqMatcher\<close> (lines 8--52) is \<open>image_eq\<close>: a size test, then a loop over the rows,
  the columns and the three channels that clears \<open>match\<close> at the first differing channel
  of a pixel and breaks the channel loop only. All matrices of the model are \<open>CV_8UC3\<close>,
  so the type test always passes; the listener messages and \<open>DescribeTo\<close> are output only.
  Each \<open>TEST\<close> is a boolean that holds when all of its \<open>ASSERT\<close>s and \<open>EXPECT\<close>s hold; a
  failed \<open>PreProcess\<close> or \<open>Relevel\<close> (an \<open>Inl\<close> of the model, a crash of the test binary)
  fails the test. The tests that call \<open>PreProcess\<close> take the resize function as a
  parameter, since the test binary calls OpenCV's.
\<close>

subsection \<open>The matcher\<close>

text \<open>The channel loop \<open>for (int k = 0; k < 3; k++)\<close> of \<open>MatchAndExplain\<close> (lines 24--29): a
  differing channel sets \<open>match = false\<close> and leaves the loop.\<close>

primrec channel_loop :: "(nat \<Rightarrow> byte) \<Rightarrow> (nat \<Rightarrow> byte) \<Rightarrow> nat list \<Rightarrow> bool \<Rightarrow> bool" where
  "channel_loop pixel1 pixel2 [] match = match"
| "channel_loop pixel1 pixel2 (k # ks) match =
     (if pixel1 k \<noteq> pixel2 k then False else channel_loop pixel1 pixel2 ks match)"

text \<open>\<open>ImageEqMatcher::MatchAndExplain(mat1)\<close> against \<open>rhs_\<close> (lines 12--38).\<close>

definition image_eq :: "mat \<Rightarrow> mat \<Rightarrow> bool" where
  "image_eq mat1 rhs =
     (if rows mat1 = rows rhs \<and> cols mat1 = cols rhs
      then fold (\<lambda>i match. fold (\<lambda>j match. channel_loop (mat_at mat1 i j) (mat_at rhs i j) [0..<3] match)
                               [0..<cols mat1] match)
             [0..<rows mat1] True
      else False)"

subsection \<open>The test cases\<close>

text \<open>\<open>TEST(MinMaxPyramid, DownsamplePreservesConstantValue)\<close> (lines 54--62).\<close>

definition test_downsample_preserves_constant_value :: bool where
  "test_downsample_preserves_constant_value =
     image_eq (downsample_min test_const_2x2) (mat_of_pixels [[(1, 2, 3)]])"

text \<open>\<open>TEST(MinMaxPyramid, DownsamplesWithMax)\<close> (lines 64--75).\<close>

definition test_downsamples_with_max :: bool where
  "test_downsamples_with_max =
     (rows test_in_2x2 = 2 \<and> cols test_in_2x2 = 2 \<and>
      image_eq (downsample_max test_in_2x2) (mat_of_pixels [[(10, 11, 12)]]))"

text \<open>\<open>TEST(MinMaxPyramid, DownsamplesWithMin)\<close> (lines 77--86).\<close>

definition test_downsamples_with_min :: bool where
  "test_downsamples_with_min = image_eq (downsample_min test_in_2x2) (mat_of_pixels [[(1, 2, 3)]])"

text \<open>\<open>TEST(MinMaxPyramid, DownsampleUpsizesForOddDimensions)\<close> (lines 88--103).\<close>

definition test_downsample_upsizes_for_odd_dimensions :: bool where
  "test_downsample_upsizes_for_odd_dimensions =
     (rows test_in_3x3 = 3 \<and> cols test_in_3x3 = 3 \<and>
      image_eq (downsample_max test_in_3x3)
        (mat_of_pixels [[(10, 11, 12), (100, 110, 120)], [(71, 81, 91), (101, 111, 121)]]))"

text \<open>\<open>TEST(MinMaxPyramid, ReducesLevelsForSmallImage)\<close> (lines 105--112), on a
  default-constructed pyramid.\<close>

definition test_reduces_levels_for_small_image :: "resize_fn \<Rightarrow> bool" where
  "test_reduces_levels_for_small_image rs =
     (case preprocess rs test_in_2x2 pyramid_init of
        Inl _ \<Rightarrow> False
      | Inr pyramid \<Rightarrow> max_scale pyramid = 0)"

text \<open>\<open>TEST(MinMaxPyramid, RelevelScalesImagePixels)\<close> (lines 114--145).\<close>

definition test_relevel_scales_image_pixels :: "resize_fn \<Rightarrow> bool" where
  "test_relevel_scales_image_pixels rs =
     (case preprocess rs test_in_4x4 pyramid_init of
        Inl _ \<Rightarrow> False
      | Inr pyramid \<Rightarrow>
          max_scale pyramid = 1 \<and>
          (case relevel pyramid 1 of Inl _ \<Rightarrow> False | Inr out \<Rightarrow> image_eq out test_out_4x4))"

subsection \<open>Lemmas\<close>

lemma channel_loop_eq: "channel_loop p1 p2 ks = (\<lambda>m. m \<and> (\<forall>k \<in> set ks. p1 k = p2 k))"
  by (induction ks) auto

lemma fold_and_eq: "fold (\<lambda>x m. m \<and> P x) xs = (\<lambda>m. m \<and> (\<forall>x \<in> set xs. P x))"
proof
  show "fold (\<lambda>x m. m \<and> P x) xs m = (m \<and> (\<forall>x \<in> set xs. P x))" for m
    by (induction xs arbitrary: m) auto
qed

lemma image_eq_pixels:
  "image_eq a b =
     (rows a = rows b \<and> cols a = cols b \<and>
      (\<forall>i \<in> set [0..<rows a]. \<forall>j \<in> set [0..<cols a]. \<forall>k \<in> set [0..<3]. mat_at a i j k = mat_at b i j k))"
  by (auto simp: image_eq_def channel_loop_eq fold_and_eq)

lemma image_eq_refl: "image_eq m m"
  by (simp add: image_eq_pixels)

text \<open>C11: the matcher \<open>ImageEq\<close> of the tests accepts two images exactly when they have the
  same size and agree on every channel of every pixel: the loop with its early \<open>break\<close>
  computes pixelwise equality, whatever the padding of the rows.\<close>

theorem image_eq_iff:
  "image_eq a b \<longleftrightarrow>
     rows a = rows b \<and> cols a = cols b \<and>
     (\<forall>i < rows a. \<forall>j < cols a. \<forall>k < 3. mat_at a i j k = mat_at b i j k)"
  by (auto simp: image_eq_pixels)

theorem image_eq_iff_witness:
  "image_eq (mat_of_pixels [[(1, 2, 3)]]) \<lparr>rows = 1, cols = 1, step = 4, data = [1, 2, 3, 0]\<rparr> \<and>
   rows (mat_of_pixels [[(1, 2, 3)]]) = 1 \<and> cols (mat_of_pixels [[(1, 2, 3)]]) = 1 \<and>
   mat_at \<lparr>rows = 1, cols = 1, step = 4, data = [1, 2, 3, 0]\<rparr> 0 0 0 = 1 \<and>
   mat_at \<lparr>rows = 1, cols = 1, step = 4, data = [1, 2, 3, 0]\<rparr> 0 0 1 = 2 \<and>
   mat_at \<lparr>rows = 1, cols = 1, step = 4, data = [1, 2, 3, 0]\<rparr> 0 0 2 = 3 \<and>
   \<not> image_eq (mat_of_pixels [[(1, 2, 3)]]) (mat_of_pixels [[(1, 2, 4)]])"
proof -
  let ?A = "mat_of_pixels [[(1, 2, 3)]]" and ?B = "\<lparr>rows = 1, cols = 1, step = 4, data = [1, 2, 3, 0]\<rparr>"
    and ?C = "mat_of_pixels [[(1, 2, 4)]]"
  have d: "rows ?A = 1" "cols ?A = 1" "rows ?C = 1" "cols ?C = 1"
    by (simp_all add: mat_of_pixels_def)
  have px: "\<forall>k < 3. mat_at ?A 0 0 k = mat_at ?B 0 0 k"
    by (simp add: numeral_3_eq_3 less_Suc_eq mat_of_pixels_def mat_at_def)
  have eq: "image_eq ?A ?B"
    using image_eq_iff [of ?A ?B] px d by simp
  have ne: "\<not> image_eq ?A ?C"
  proof
    assume "image_eq ?A ?C"
    then have "mat_at ?A 0 0 2 = mat_at ?C 0 0 2"
      using image_eq_iff [of ?A ?C] d by simp
    then show False
      by (simp add: mat_of_pixels_def mat_at_def)
  qed
  show ?thesis
    using eq ne d by (simp add: mat_at_def)
qed

text \<open>The four downsampling tests pass: the 2x2 inputs of DownsamplesWithMax,
  DownsamplesWithMin and DownsamplePreservesConstantValue and the 3x3 input of
  DownsampleUpsizesForOddDimensions reduce, with \<open>DownsampleMax\<close> or \<open>DownsampleMin\<close>,
  to exactly the expected images, so that \<open>ImageEq\<close> accepts each of them.\<close>

lemma downsample_tests_pass:
  "test_downsample_preserves_constant_value \<and> test_downsamples_with_max \<and>
   test_downsamples_with_min \<and> test_downsample_upsizes_for_odd_dimensions \<and>
   downsample_min test_const_2x2 = mat_of_pixels [[(1, 2, 3)]] \<and>
   downsample_max test_in_2x2 = mat_of_pixels [[(10, 11, 12)]] \<and>
   downsample_min test_in_2x2 = mat_of_pixels [[(1, 2, 3)]] \<and>
   downsample_max test_in_3x3 =
     mat_of_pixels [[(10, 11, 12), (100, 110, 120)], [(71, 81, 91), (101, 111, 121)]]"
proof -
  have c: "downsample_min test_const_2x2 = mat_of_pixels [[(1, 2, 3)]]"
    by (simp add: test_const_2x2_def downsample_eval)
  have mx: "downsample_max test_in_2x2 = mat_of_pixels [[(10, 11, 12)]]"
    and mn: "downsample_min test_in_2x2 = mat_of_pixels [[(1, 2, 3)]]"
    by (simp_all add: test_in_2x2_def downsample_eval)
  have odd: "downsample_max test_in_3x3 =
               mat_of_pixels [[(10, 11, 12), (100, 110, 120)], [(71, 81, 91), (101, 111, 121)]]"
    by (simp add: test_in_3x3_def downsample_eval)
  have d: "rows test_in_2x2 = 2" "cols test_in_2x2 = 2" "rows test_in_3x3 = 3" "cols test_in_3x3 = 3"
    by (simp_all add: test_in_2x2_def test_in_3x3_def mat_of_pixels_def)
  show ?thesis
    by (simp add: c mx mn odd d image_eq_refl test_downsample_preserves_constant_value_def
          test_downsamples_with_max_def test_downsamples_with_min_def
          test_downsample_upsizes_for_odd_dimensions_def)
qed

text \<open>Test ReducesLevelsForSmallImage passes whatever the resize function: for the 2x2
  test image \<open>PreProcess\<close> succeeds from any previous state, with \<open>MaxScale() = 0\<close> and
  \<open>MinScale() = 0\<close>.\<close>

lemma reduces_levels_for_small_image:
  "test_reduces_levels_for_small_image rs \<and>
   (\<exists>st'. preprocess rs test_in_2x2 st = Inr st' \<and> max_scale st' = 0 \<and> min_scale st' = 0)"
proof -
  have d: "rows test_in_2x2 = 2" "cols test_in_2x2 = 2"
    by (simp_all add: test_in_2x2_def mat_of_pixels_def)
  have pp: "preprocess rs test_in_2x2 s = Inr (pyramid_spec rs test_in_2x2)" for s
    using d by (intro preprocess_eq) simp_all
  have "max_layer (pyramid_spec rs test_in_2x2) = 0"
    and "min_layer (pyramid_spec rs test_in_2x2) = 0"
    using d by (simp_all add: pyramid_spec_def Let_def)
  then show ?thesis
    by (simp add: pp test_reduces_levels_for_small_image_def max_scale_def min_scale_def)
qed

text \<open>Test RelevelScalesImagePixels passes for every resize meeting the contract:
  \<open>PreProcess\<close> of the 4x4 two-colour image gives \<open>MaxScale() = 1\<close> and \<open>Relevel(1)\<close> maps
  the lower colour to black and the higher to white in the input's block pattern.\<close>

lemma relevel_scales_image_pixels:
  assumes rs: "resize_ok rs"
  shows "test_relevel_scales_image_pixels rs \<and>
         (\<exists>st. preprocess rs test_in_4x4 pyramid_init = Inr st \<and> max_scale st = 1 \<and>
               relevel st 1 = Inr test_out_4x4)"
  using test_4x4_preprocess test_4x4_relevel [OF rs]
  by (simp add: test_4x4_spec max_scale_def test_relevel_scales_image_pixels_def image_eq_refl)

lemma relevel_scales_image_pixels_witness:
  "resize_ok resize_linear \<and> test_relevel_scales_image_pixels resize_linear \<and>
   (\<exists>st. preprocess resize_linear test_in_4x4 pyramid_init = Inr st \<and> max_scale st = 1 \<and>
         relevel st 1 = Inr test_out_4x4)"
  using relevel_scales_image_pixels [OF resize_linear_ok] resize_linear_ok by blast

end
