(* ===== verification/Spec2Isabelle.thy ===== *)
theory Spec2Isabelle
  imports Editor_Session Editor_Output Tests
begin

text \<open>
  \<^bold>\<open>Local contrast stretching in undersee: a verification development.\<close>

  \<^bold>\<open>The program.\<close> The kernel of the repository is class \<open>MinMaxPyramid\<close>
  (src/src/min_max_pyramid.h and src/src/min_max_pyramid.cc). \<open>PreProcess(image)\<close> reduces
  the image repeatedly by 2x2 blocks, once keeping the minimum and once the maximum of
  each channel (\<open>Downsample\<close>, \<open>DownsampleMin\<close>, \<open>DownsampleMax\<close>), records the top level
  \<open>max_layer_\<close> and a heuristic lowest level \<open>min_layer_\<close>, and resizes every level in
  between back to the image's size with \<open>cv::resize\<close>. \<open>Relevel(scale)\<close> then stretches
  each channel of each pixel between the stored min and max images of that level.
  The Qt editor (src/src/editor.cc) calls \<open>PreProcess\<close> once per loaded image and
  \<open>Relevel\<close> on every slider move; src/src/main.cc only dispatches the command line.

  \<^bold>\<open>Layout.\<close>
  \<^item> \<open>Prelude\<close>: the model of a \<open>CV_8UC3\<close> \<open>cv::Mat\<close> as a record of rows, columns,
    row stride and byte buffer, the pixel accessor \<open>mat_at\<close>, well-formedness and
    continuity of a buffer, the error values that stand for undefined behaviour, and
    the list lemmas the components share (collection \<open>mat_dims\<close> of size facts).
  \<^item> \<open>Downsample\<close>: \<open>Downsample\<close> as a walk of row pointers over the byte buffer
    (\<open>ds_pair_cols\<close>, \<open>ds_row\<close>, \<open>ds_last_cols\<close>, \<open>ds_last_row\<close>, \<open>downsample\<close>), its two
    instances, and the specification's block formula \<open>block_ref\<close>. The theorems show
    that the walk computes the block formula for every associative operator
    (\<open>downsample_refines_block\<close>), that each output channel of \<open>DownsampleMax\<close> and
    \<open>DownsampleMin\<close> is the max and min of that channel over its block, odd edges
    included, and that every byte of the output is written.
  \<^item> \<open>Resize\<close>: the resize proper of the external \<open>cv::resize\<close> as a contract
    \<open>resize_ok\<close> (output size and continuity, values within the source channel's range),
    which the pyramid uses only on non-empty sources and target sizes (OpenCV's assertions
    on empty sizes are \<open>cv_resize\<close> in \<open>Pyramid\<close>), and a concrete bilinear
    implementation \<open>resize_linear\<close> proved to meet it (\<open>resize_linear_ok\<close>), which the
    witnesses use, and proved monotone in the pointwise order \<open>le_mat\<close> of images
    (\<open>resize_linear_mono\<close>).
  \<^item> \<open>Pyramid\<close>: the class state as record \<open>pyramid\<close>, \<open>PreProcess\<close> as its reduction
    loop \<open>build_levels\<close>, its layer heuristic \<open>min_layer_of\<close> and its resizing loop
    \<open>upsample_levels\<close> composed in \<open>preprocess\<close>, and the abstract specification
    \<open>pyramid_spec\<close> of the pyramid it builds. Each \<open>cv::resize\<close> call is \<open>cv_resize\<close>:
    OpenCV's assertions (an empty source, or an empty target size with the scale factors 0
    the code passes, throw \<open>cv::Exception\<close>, the error \<open>Cv_resize_empty\<close>) and then the
    resize proper. The theorems show that, for images with rows and columns, \<open>preprocess\<close>
    refines \<open>pyramid_spec\<close>, establishes the class invariant \<open>pyramid_inv\<close> and keeps the
    first single-pixel reduction as its top level; that with \<open>int\<close> dimensions the top
    level is at most 30, so the loop cap of 50 is never reached; that an image with rows
    but no columns makes the first \<open>cv::resize\<close> throw; that an image without rows
    reaches the undefined cast of \<open>log2(0)\<close>; and that with bilinear
    resizing every stored min image lies below its max image (the reductions keep min
    below max, \<open>pyr_level_le\<close>).
  \<^item> \<open>Float32\<close>: the single-precision arithmetic \<open>Relevel\<close> uses, which is IEEE 754 and
    OpenCV rather than code of the repository: rounding of an exact rational to the
    nearest binary32 value (\<open>fl32\<close>, ties to even), division and multiplication with
    infinities and NaN, and \<open>saturate_cast<uchar>(cvRound(v))\<close> as on x86-64. Lemma
    \<open>fl32_error\<close> bounds the relative rounding error by \<open>2^-24\<close>.
  \<^item> \<open>Relevel\<close>: \<open>MinMaxPyramid::Relevel\<close> as \<open>relevel\<close>, built from one definition per
    OpenCV matrix operation it calls (\<open>mat_sub\<close>, \<open>convert_f32\<close>, \<open>fmat_recip\<close>,
    \<open>fmat_mul\<close>, \<open>convert_u8\<close>). It is proved equal to the element-wise stretch
    \<open>relevel_ref\<close> on every pyramid that satisfies \<open>pyramid_inv\<close>; the theorems show the
    fallback (a scale below \<open>MinScale()\<close> returns the original image, not
    \<open>Relevel(MinScale())\<close> as the header comment says), totality on valid scales, that each element is within 1/2 of the exact
    stretch \<open>255 (v - min) / (max - min)\<close>, the empty-range and end-point behaviour, the
    out-of-range read on a default-constructed object, and the
    clamping of values outside the local range to 0 and 255 (the \<open>uchar\<close> subtraction
    saturates rather than wraps).
  \<^item> \<open>FileDialog\<close>: the file dialogs: Qt's \<open>QFileDialog\<close> as its starting
    directory, accept mode and default suffix (\<open>file_dialog\<close>), the name it returns with
    the default suffix added (\<open>selected_file\<close>, Qt's rule: only to a path without a dot),
    and \<open>initializeImageFileDialog\<close> (editor.cc, lines 44--59) as
    \<open>init_image_file_dialog\<close>, which takes and returns its function-static flag.
  \<^item> \<open>Editor\<close>: class \<open>Editor\<close> (editor.h, editor.cc) and \<open>main\<close> (main.cc) as a
    deterministic state machine: record \<open>editor\<close>, one definition per handler, Qt's
    slider with its synchronous \<open>valueChanged\<close> signal (\<open>slider_set_value\<close>,
    \<open>slider_set_range\<close>, \<open>slider_update\<close>), the step function \<open>editor_step\<close> over user
    events, and the inductive set \<open>reachable\<close> of states reachable from \<open>main_start\<close>.
    \<open>open()\<close> and \<open>save()\<close> (\<open>open_file\<close>, \<open>save\<close>) build a dialog with
    \<open>init_image_file_dialog\<close> and run its loop (\<open>open_loop\<close>, \<open>save_loop\<close>); the
    static flag and the dialogs shown are fields of the state. The decoder, the file
    writer, \<open>cv::resize\<close> and the Pictures and current directories form the
    environment \<open>env\<close>. The
    theorems show by rule induction that every reachable state keeps the invariant
    \<open>editor_inv\<close> and that no event then fails; that a slider move to position \<open>w\<close> shows
    \<open>Relevel(MaxScale() - w)\<close>, an in-range scale, so the leftmost position does not show
    the original image as the comment of \<open>localitySliderChanged\<close> says; that the image
    shown at slider position 0 depends on the slider's history; the batch keys; and that
    the colour conversion swaps the first and third channel of every pixel.
  \<^item> \<open>Editor_Session\<close>: properties of whole runs. By rule induction over
    \<open>reachable\<close>, only the first dialog of a run starts in the Pictures location and only
    save dialogs carry the suffix "jpg"; \<open>save()\<close> writes the chosen path with ".jpg"
    appended when it has no dot; the dialog loops end at the first file that loads or
    can be written and read no later answer; with more than one pyramid level every
    level can be displayed by two slider moves (a liveness property: one move does not
    always suffice), and with a single level no slider move changes anything (the image
    then shown depends on how it was loaded); and, end
    to end, that a batch run followed by Space writes the decoded input unchanged.
  \<^item> \<open>Editor_Output\<close>: what the program writes. By rule induction over
    \<open>reachable\<close>, the invariant \<open>output_ok\<close>: Save and the batch keys are armed only while
    an image is displayed, the displayed image always has the loaded image's size
    (\<open>relevel_dims\<close>: \<open>Relevel\<close> and its fallback keep the size), and every file written
    holds a non-empty image.
  \<^item> \<open>Tests\<close>: the unit tests of min_max_pyramid_test.cc. The gMock matcher
    \<open>ImageEqMatcher\<close> is \<open>image_eq\<close>, its size test and its loops over rows, columns
    and channels (\<open>channel_loop\<close>, with the \<open>break\<close> that leaves the channel loop only),
    proved to accept exactly the images of equal size that agree on every channel of
    every pixel (\<open>image_eq_iff\<close>). Each \<open>TEST\<close> is a boolean that holds when all of its
    assertions hold; lemmas show that the four downsampling tests pass, that
    ReducesLevelsForSmallImage passes for every resize function, and that
    RelevelScalesImagePixels passes for every resize meeting its contract.
  \<^item> This theory: the documentation.

  \<^bold>\<open>Bounds and loops.\<close> The two loops of \<open>PreProcess\<close> are \<^theory_text>\<open>function\<close>s with
  measures (\<open>max_layer - i\<close> and \<open>max_layer + 1 - layer\<close>), so they terminate by
  construction. The bound \<open>max(rows, cols) <= 2^49\<close> of the success theorems is exactly
  the range in which the reduction loop breaks before its cap of 50 iterations; it
  covers every image with \<open>int\<close> dimensions, the type of \<open>cv::Mat::rows\<close>. Dimensions
  are unbounded \<open>nat\<close>s in the model; the theorems that matter for real images assume
  at most \<open>int\<close> size or \<open>2^49\<close>, and no theorem relies on a larger image.

  No loop of the front end needs fuel: the dialog loops of \<open>open()\<close> and \<open>save()\<close>
  recurse structurally over the finite list of the user's answers, and a run of the event
  loop over a finite list of events. A user who keeps accepting files that do not load
  keeps the C++ loop running; in the model that is a longer answer list, and the
  termination theorems state that the loop stops at the first success whatever follows.

  \<^bold>\<open>Not modelled.\<close> The file system behind the dialogs (a chosen name is the path
  \<open>selectedFiles()\<close> returns, directories are not distinguished from files, native
  dialogs are assumed to follow Qt's suffix rule); the unused globals of main.cc (lines
  20--22) and the include lines; the rendering of windows, menus, dialogs, pixmaps and the status
  bar; the decoding and encoding of image files (the environment's \<open>imread\<close> and
  \<open>write_ok\<close> stand for them); the message printed by \<open>main\<close> for one argument;
  the failure messages of the test matcher and its \<open>DescribeTo\<close> methods, and the type
  test of the matcher (every matrix of the model is \<open>CV_8UC3\<close>);
  OpenCV's reference counting and memory allocation (no matrix buffer is shared by two
  objects that the code later mutates); the bit pattern of OpenCV's fixed-point bilinear
  weights (the pyramid is verified for every resize meeting the contract instead); the
  evaluation order of OpenCV's matrix expression \<open>zeroed_f.mul(255.f / range_f)\<close>, which
  the model computes as written, the quotient matrix first and then the product, each
  rounded once (were OpenCV to fuse it into one scaled division, a value next to a
  rounding tie could differ by one, e.g. 127 and 128 for \<open>z = 7, r = 14\<close>); the
  conversion of non-finite floats on processors other than x86-64; and signed zeros.
\<close>

end
